theory Spec2Isabelle
  imports Complex_Main
begin

section \<open>JavaScript strings\<close>

text \<open>
  A JavaScript string is a sequence of UTF-16 code units; a code unit is modelled by its
  number. \<open>js\<close> turns an Isabelle literal into the string with the same characters.
  \<open>is_js_space\<close> is the set that \<^verbatim>\<open>String.prototype.trim\<close> strips and that \<^verbatim>\<open>\s\<close> matches
  in a regular expression: the WhiteSpace and LineTerminator code points of ECMAScript.
\<close>

type_synonym jsstring = "nat list"

definition js :: "string \<Rightarrow> jsstring" where
  "js s = map of_char s"

definition is_js_space :: "nat \<Rightarrow> bool" where
  "is_js_space c =
     (c \<in> {0x9, 0xA, 0xB, 0xC, 0xD, 0x20, 0xA0, 0x1680, 0x2028, 0x2029, 0x202F, 0x205F,
            0x3000, 0xFEFF} \<or> (0x2000 \<le> c \<and> c \<le> 0x200A))"

definition trim :: "jsstring \<Rightarrow> jsstring" where
  "trim s = rev (dropWhile is_js_space (rev (dropWhile is_js_space s)))"

text \<open>
  \<^verbatim>\<open>String.prototype.toLowerCase\<close> converts a string by the case mappings of the Unicode
  Character Database, which are no part of the repository. Where the program returns or
  stores the converted string (\<^verbatim>\<open>normalizeScreenName\<close>), the conversion is a parameter of
  the model. Where the program only compares the converted string with a word of Basic
  Latin letters (the status in \<^verbatim>\<open>parseBackgroundPromptDecision\<close>), \<open>toLowerCase\<close> below
  stands for it: it converts Basic Latin, Latin-1 and the two symbols outside them whose
  lower case lies there (KELVIN SIGN and ANGSTROM SIGN) and leaves every other code unit as
  it is. No other character has a lower case that contains a Basic Latin letter but
  U+0130, whose lower case also contains U+0307, so the comparison comes out the same.
\<close>

definition lower_unit :: "nat \<Rightarrow> nat" where
  "lower_unit c =
     (if 0x41 \<le> c \<and> c \<le> 0x5A then c + 0x20
      else if 0xC0 \<le> c \<and> c \<le> 0xDE \<and> c \<noteq> 0xD7 then c + 0x20
      else if c = 0x212A then 0x6B
      else if c = 0x212B then 0xE5
      else c)"

definition toLowerCase :: "jsstring \<Rightarrow> jsstring" where
  "toLowerCase s = map lower_unit s"

text \<open>
  \<^verbatim>\<open>s.replace(/\s+/g, " ")\<close>: every maximal run of white space becomes one space. The flag
  says whether the unit before the current one belonged to a run.
\<close>

fun replace_runs :: "bool \<Rightarrow> jsstring \<Rightarrow> jsstring" where
  "replace_runs in_run [] = []"
| "replace_runs in_run (c # cs) =
     (if is_js_space c then (if in_run then replace_runs True cs else 0x20 # replace_runs True cs)
      else c # replace_runs False cs)"

definition replace_space_runs :: "jsstring \<Rightarrow> jsstring" where
  "replace_space_runs s = replace_runs False s"

subsection \<open>White space in the words of the specification\<close>

text \<open>
  A string is blank when it is empty or all white space. It is outer-trimmed when neither
  its first nor its last unit is white space. Every string is some blank padding, an
  outer-trimmed string, and blank padding again (\<open>padded_form\<close>); the string in the
  middle is the string "trimmed" (\<open>trim_padded\<close>).
\<close>

definition blank :: "jsstring \<Rightarrow> bool" where
  "blank s = list_all is_js_space s"

definition outer_trimmed :: "jsstring \<Rightarrow> bool" where
  "outer_trimmed s = (s = [] \<or> \<not> (is_js_space (hd s) \<or> is_js_space (last s)))"






text \<open>
  Two strings are the same without regard to case, for a second string of small Basic
  Latin letters: unit by unit the first has the letter, its capital, or KELVIN SIGN for
  \<^verbatim>\<open>k\<close>.
\<close>

definition same_letter :: "nat \<Rightarrow> nat \<Rightarrow> bool" where
  "same_letter c d =
     (c = d \<or> (0x61 \<le> d \<and> d \<le> 0x7A \<and> c + 0x20 = d) \<or> (c = 0x212A \<and> d = 0x6B))"

definition ignoring_case :: "jsstring \<Rightarrow> jsstring \<Rightarrow> bool" where
  "ignoring_case s word = list_all2 same_letter s word"

subsection \<open>Properties of strings\<close>

lemma js_Nil: "js [] = []"
  by (simp add: js_def)

lemma js_Cons: "js (c # cs) = of_char c # js cs"
  by (simp add: js_def)

lemma trim_of_trimmed: "outer_trimmed s \<Longrightarrow> trim s = s"
proof (cases "s = []")
  case True
  then show ?thesis by (simp add: trim_def)
next
  case False
  assume "outer_trimmed s"
  with False have h: "\<not> is_js_space (hd s)" and l: "\<not> is_js_space (last s)"
    by (auto simp: outer_trimmed_def)
  from False h have 1: "dropWhile is_js_space s = s"
    by (cases s) simp_all
  from False l have 2: "dropWhile is_js_space (rev s) = rev s"
    by (cases "rev s") (simp_all add: last_rev [symmetric] hd_rev)
  from 1 2 show ?thesis by (simp add: trim_def)
qed

lemma dropWhile_blank: "blank s \<Longrightarrow> dropWhile is_js_space s = []"
  unfolding blank_def list_all_iff by (simp only: dropWhile_eq_Nil_conv)

lemma trim_of_blank:
  assumes "blank s"
  shows "trim s = []"
  unfolding trim_def dropWhile_blank [OF assms] by simp

lemma trim_padded:
  assumes "blank a" and "blank b" and "outer_trimmed t"
  shows "trim (a @ t @ b) = t"
proof (cases "t = []")
  case True
  from assms(1,2) have "blank (a @ b)"
    by (simp add: blank_def)
  from trim_of_blank [OF this] True show ?thesis by simp
next
  case False
  with assms(3) have h: "\<not> is_js_space (hd t)" and l: "\<not> is_js_space (last t)"
    by (auto simp: outer_trimmed_def)
  have "dropWhile is_js_space (a @ t @ b) = dropWhile is_js_space (t @ b)"
    by (rule dropWhile_append2) (use assms(1) in \<open>simp add: blank_def list_all_iff\<close>)
  also from False h have "\<dots> = t @ b"
    by (cases t) simp_all
  finally have 1: "dropWhile is_js_space (a @ t @ b) = t @ b" .
  have "dropWhile is_js_space (rev b @ rev t) = dropWhile is_js_space (rev t)"
    by (rule dropWhile_append2) (use assms(2) in \<open>simp add: blank_def list_all_iff\<close>)
  also from False l have "\<dots> = rev t"
    by (cases "rev t") (simp_all add: last_rev [symmetric] hd_rev)
  finally have 2: "dropWhile is_js_space (rev b @ rev t) = rev t" .
  show ?thesis
    unfolding trim_def 1 by (simp add: 2)
qed

lemma trim_blank: "(trim s = []) = blank s"
proof
  assume "blank s"
  then show "trim s = []" by (rule trim_of_blank)
next
  assume e: "trim s = []"
  have "dropWhile is_js_space s = []"
  proof (rule ccontr)
    assume n: "dropWhile is_js_space s \<noteq> []"
    then have "\<not> is_js_space (hd (dropWhile is_js_space s))"
      by (rule hd_dropWhile)
    moreover from n have "hd (dropWhile is_js_space s) \<in> set (rev (dropWhile is_js_space s))"
      by simp
    moreover from e have "dropWhile is_js_space (rev (dropWhile is_js_space s)) = []"
      by (simp only: trim_def rev_is_Nil_conv)
    ultimately show False
      by (metis dropWhile_eq_Nil_conv)
  qed
  then show "blank s"
    unfolding blank_def list_all_iff by (simp only: dropWhile_eq_Nil_conv)
qed

lemma outer_trimmed_trim: "outer_trimmed (trim s)"
proof (cases "trim s = []")
  case True
  then show ?thesis by (simp add: outer_trimmed_def)
next
  case False
  define t where "t = dropWhile is_js_space s"
  define u where "u = dropWhile is_js_space (rev t)"
  have ts: "trim s = rev u"
    by (simp add: trim_def t_def u_def)
  with False have un: "u \<noteq> []" by simp
  then have l: "\<not> is_js_space (hd u)"
    unfolding u_def by (rule hd_dropWhile)
  have "rev t = takeWhile is_js_space (rev t) @ u"
    by (simp add: u_def)
  then have t_eq: "t = rev u @ rev (takeWhile is_js_space (rev t))"
    by (metis rev_append rev_rev_ident)
  from un t_eq have tn: "t \<noteq> []" by auto
  then have "\<not> is_js_space (hd t)"
    unfolding t_def by (rule hd_dropWhile)
  moreover have "hd t = hd (rev u)"
    using un t_eq by (metis hd_append2 rev_is_Nil_conv)
  ultimately have h: "\<not> is_js_space (hd (rev u))" by simp
  from un l have "\<not> is_js_space (last (rev u))"
    by (simp add: last_rev)
  with h ts show ?thesis by (simp add: outer_trimmed_def)
qed

lemma padded_form:
  "\<exists>a t b. s = a @ t @ b \<and> blank a \<and> blank b \<and> outer_trimmed t"
proof -
  define u where "u = dropWhile is_js_space s"
  have 1: "s = takeWhile is_js_space s @ u"
    by (simp add: u_def)
  have "rev u = takeWhile is_js_space (rev u) @ dropWhile is_js_space (rev u)"
    by simp
  then have "rev (rev u) =
      rev (dropWhile is_js_space (rev u)) @ rev (takeWhile is_js_space (rev u))"
    by (metis rev_append)
  then have 2: "u = trim s @ rev (takeWhile is_js_space (rev u))"
    by (simp add: trim_def u_def)
  have a: "blank (takeWhile is_js_space s)"
    unfolding blank_def list_all_iff by (auto dest: set_takeWhileD)
  have b: "blank (rev (takeWhile is_js_space (rev u)))"
    unfolding blank_def list_all_iff by (auto dest: set_takeWhileD)
  from 1 2 have "s = takeWhile is_js_space s @ trim s @ rev (takeWhile is_js_space (rev u))"
    by simp
  with a b outer_trimmed_trim show ?thesis by blast
qed






lemma lower_unit_is_letter:
  "0x61 \<le> d \<Longrightarrow> d \<le> 0x7A \<Longrightarrow> (lower_unit c = d) = same_letter c d"
  by (auto simp: lower_unit_def same_letter_def)

lemma toLowerCase_is_word:
  "list_all (\<lambda>d. 0x61 \<le> d \<and> d \<le> 0x7A) word \<Longrightarrow>
   (toLowerCase s = word) = ignoring_case s word"
proof (induction s arbitrary: word)
  case Nil
  show ?case by (cases word) (simp_all add: toLowerCase_def ignoring_case_def)
next
  case step: (Cons c s)
  show ?case
  proof (cases word)
    case Nil
    then show ?thesis by (simp add: toLowerCase_def ignoring_case_def)
  next
    case (Cons d word')
    with step.prems have d: "0x61 \<le> d" "d \<le> 0x7A"
      and rest: "list_all (\<lambda>d. 0x61 \<le> d \<and> d \<le> 0x7A) word'"
      by simp_all
    from step.IH [OF rest] lower_unit_is_letter [OF d, of c] Cons show ?thesis
      by (simp add: toLowerCase_def ignoring_case_def)
  qed
qed
section \<open>JSON values and \<^verbatim>\<open>JSON.parse\<close>\<close>

text \<open>
  \<^verbatim>\<open>JSON.parse\<close> belongs to the platform. It is modelled after the JSON grammar of
  ECMA-404: the text is cut into tokens, and the tokens must form exactly one value. A
  number keeps its literal text, since nothing here computes with it. An object keeps its
  members in the order of the text; a repeated key is looked up at its last occurrence, as
  the object built by \<^verbatim>\<open>JSON.parse\<close> holds the last value. \<open>None\<close> stands for the
  \<^verbatim>\<open>SyntaxError\<close> that \<^verbatim>\<open>JSON.parse\<close> throws.
\<close>

datatype json =
    JNull
  | JBool bool
  | JNumber jsstring
  | JString jsstring
  | JArray "json list"
  | JObject "(jsstring \<times> json) list"

datatype token =
    TLBrace | TRBrace | TLBracket | TRBracket | TColon | TComma
  | TString jsstring | TNumber jsstring | TTrue | TFalse | TNull

definition is_json_ws :: "nat \<Rightarrow> bool" where
  "is_json_ws c = (c = 0x20 \<or> c = 0x9 \<or> c = 0xA \<or> c = 0xD)"

definition is_digit :: "nat \<Rightarrow> bool" where
  "is_digit c = (0x30 \<le> c \<and> c \<le> 0x39)"

definition hex_value :: "nat \<Rightarrow> nat option" where
  "hex_value c =
     (if 0x30 \<le> c \<and> c \<le> 0x39 then Some (c - 0x30)
      else if 0x41 \<le> c \<and> c \<le> 0x46 then Some (c - 0x37)
      else if 0x61 \<le> c \<and> c \<le> 0x66 then Some (c - 0x57)
      else None)"

definition simple_escape :: "nat \<Rightarrow> nat option" where
  \<comment> \<open>the unit after a backslash: quote, backslash, slash, b, f, n, r, t\<close>
  "simple_escape e =
     (if e = 0x22 then Some 0x22
      else if e = 0x5C then Some 0x5C
      else if e = 0x2F then Some 0x2F
      else if e = 0x62 then Some 0x8
      else if e = 0x66 then Some 0xC
      else if e = 0x6E then Some 0xA
      else if e = 0x72 then Some 0xD
      else if e = 0x74 then Some 0x9
      else None)"

definition lex_escape :: "jsstring \<Rightarrow> (nat \<times> jsstring) option" where
  \<comment> \<open>what follows a backslash: \<^verbatim>\<open>u\<close> and four hexadecimal digits, or a simple escape\<close>
  "lex_escape cs =
     (case cs of
        [] \<Rightarrow> None
      | e # cs1 \<Rightarrow>
          if e = 0x75 then
            (case cs1 of
               h1 # h2 # h3 # h4 # cs2 \<Rightarrow>
                 (case (hex_value h1, hex_value h2, hex_value h3, hex_value h4) of
                    (Some a, Some b, Some c, Some d) \<Rightarrow>
                      Some (a * 4096 + b * 256 + c * 16 + d, cs2)
                  | _ \<Rightarrow> None)
             | _ \<Rightarrow> None)
          else
            (case simple_escape e of Some u \<Rightarrow> Some (u, cs1) | None \<Rightarrow> None))"

lemma lex_escape_shorter: "lex_escape cs = Some (u, rest) \<Longrightarrow> length rest < length cs"
  by (auto simp: lex_escape_def split: list.splits if_splits option.splits)

text \<open>The body of a string literal, after its opening quote, up to the closing quote.\<close>

function lex_string :: "jsstring \<Rightarrow> jsstring \<Rightarrow> (jsstring \<times> jsstring) option" where
  "lex_string acc [] = None"
| "lex_string acc (c # cs) =
     (if c = 0x22 then Some (rev acc, cs)
      else if c = 0x5C then
        (case lex_escape cs of
           None \<Rightarrow> None
         | Some (u, rest) \<Rightarrow> lex_string (u # acc) rest)
      else if c < 0x20 then None
      else lex_string (c # acc) cs)"
  by pat_completeness auto
termination
  by (relation "measure (\<lambda>(acc, cs). length cs)") (auto dest: lex_escape_shorter)

text \<open>
  A number literal: an optional minus, an integer part without a leading zero, an
  optional fraction and an optional exponent.
\<close>

definition lex_digits :: "jsstring \<Rightarrow> (jsstring \<times> jsstring) option" where
  "lex_digits cs =
     (if takeWhile is_digit cs = [] then None
      else Some (takeWhile is_digit cs, dropWhile is_digit cs))"

definition lex_int :: "jsstring \<Rightarrow> (jsstring \<times> jsstring) option" where
  "lex_int cs =
     (case cs of
        [] \<Rightarrow> None
      | d # r \<Rightarrow>
          if d = 0x30 then Some ([d], r)
          else if is_digit d then Some (d # takeWhile is_digit r, dropWhile is_digit r)
          else None)"

definition lex_frac :: "jsstring \<Rightarrow> (jsstring \<times> jsstring) option" where
  "lex_frac cs =
     (case cs of
        [] \<Rightarrow> Some ([], cs)
      | p # r \<Rightarrow>
          if p = 0x2E then
            (case lex_digits r of None \<Rightarrow> None | Some (ds, r1) \<Rightarrow> Some (p # ds, r1))
          else Some ([], cs))"

definition lex_exp :: "jsstring \<Rightarrow> (jsstring \<times> jsstring) option" where
  "lex_exp cs =
     (case cs of
        [] \<Rightarrow> Some ([], cs)
      | e # r \<Rightarrow>
          if e = 0x65 \<or> e = 0x45 then
            (case r of
               [] \<Rightarrow> None
             | s # r1 \<Rightarrow>
                 if s = 0x2B \<or> s = 0x2D then
                   (case lex_digits r1 of None \<Rightarrow> None | Some (ds, r2) \<Rightarrow> Some (e # s # ds, r2))
                 else
                   (case lex_digits r of None \<Rightarrow> None | Some (ds, r2) \<Rightarrow> Some (e # ds, r2)))
          else Some ([], cs))"

definition lex_number :: "jsstring \<Rightarrow> (jsstring \<times> jsstring) option" where
  "lex_number cs =
     (let sign = (case cs of [] \<Rightarrow> [] | c # r \<Rightarrow> if c = 0x2D then [c] else [])
      in case lex_int (drop (length sign) cs) of
           None \<Rightarrow> None
         | Some (i, r1) \<Rightarrow>
             (case lex_frac r1 of
                None \<Rightarrow> None
              | Some (f, r2) \<Rightarrow>
                  (case lex_exp r2 of
                     None \<Rightarrow> None
                   | Some (e, r3) \<Rightarrow> Some (sign @ i @ f @ e, r3))))"

lemma lex_string_shorter: "lex_string acc cs = Some (s, rest) \<Longrightarrow> length rest < length cs"
proof (induction acc cs rule: lex_string.induct)
  case (1 acc)
  then show ?case by simp
next
  case (2 acc c cs)
  show ?case
  proof (cases "c = 0x22")
    case True
    with 2 show ?thesis by simp
  next
    case nq: False
    show ?thesis
    proof (cases "c = 0x5C")
      case True
      with 2(3) nq obtain u r where e: "lex_escape cs = Some (u, r)"
        and l: "lex_string (u # acc) r = Some (s, rest)"
        by (auto split: option.splits)
      have "length rest < length r"
        using 2(1) [OF nq True e refl l] .
      with lex_escape_shorter [OF e] show ?thesis by simp
    next
      case nb: False
      with 2(3) nq have c: "\<not> c < 0x20" and l: "lex_string (c # acc) cs = Some (s, rest)"
        by (auto split: if_splits)
      have "length rest < length cs"
        using 2(2) [OF nq nb c l] .
      then show ?thesis by simp
    qed
  qed
qed

lemma lex_digits_shorter: "lex_digits cs = Some (ds, rest) \<Longrightarrow> length rest < length cs"
proof -
  assume a: "lex_digits cs = Some (ds, rest)"
  then have t: "takeWhile is_digit cs \<noteq> []" and r: "rest = dropWhile is_digit cs"
    by (auto simp: lex_digits_def split: if_splits)
  have "length (takeWhile is_digit cs) + length (dropWhile is_digit cs) = length cs"
    by (metis length_append takeWhile_dropWhile_id)
  with t r show ?thesis by (cases "takeWhile is_digit cs") auto
qed

lemma lex_int_shorter: "lex_int cs = Some (i, rest) \<Longrightarrow> length rest < length cs"
  by (auto simp: lex_int_def split: list.splits if_splits
      intro: le_less_trans [OF length_dropWhile_le])

lemma lex_frac_shorter: "lex_frac cs = Some (f, rest) \<Longrightarrow> length rest \<le> length cs"
  by (auto simp: lex_frac_def split: list.splits if_splits option.splits
      dest!: lex_digits_shorter)

lemma lex_exp_shorter: "lex_exp cs = Some (e, rest) \<Longrightarrow> length rest \<le> length cs"
  by (auto simp: lex_exp_def split: list.splits if_splits option.splits
      dest!: lex_digits_shorter)

lemma lex_number_shorter: "lex_number cs = Some (n, rest) \<Longrightarrow> length rest < length cs"
proof -
  assume a: "lex_number cs = Some (n, rest)"
  define k where "k = length (case cs of [] \<Rightarrow> [] | c # r \<Rightarrow> if c = 0x2D then [c] else ([]::nat list))"
  from a obtain i r1 f r2 e where
    i: "lex_int (drop k cs) = Some (i, r1)" and
    f: "lex_frac r1 = Some (f, r2)" and
    e: "lex_exp r2 = Some (e, rest)"
    by (auto simp: lex_number_def k_def Let_def split: option.splits)
  have "length r1 < length (drop k cs)"
    using i by (rule lex_int_shorter)
  then have 1: "length r1 < length cs" by simp
  from 1 lex_frac_shorter [OF f] lex_exp_shorter [OF e] show ?thesis by simp
qed

text \<open>
  The tokens of a text. White space separates tokens and is dropped; any other unit that
  starts no token makes the text malformed.
\<close>

function lex :: "jsstring \<Rightarrow> token list option" where
  "lex [] = Some []"
| "lex (c # cs) =
     (if is_json_ws c then lex cs
      else if c = 0x7B then map_option (Cons TLBrace) (lex cs)
      else if c = 0x7D then map_option (Cons TRBrace) (lex cs)
      else if c = 0x5B then map_option (Cons TLBracket) (lex cs)
      else if c = 0x5D then map_option (Cons TRBracket) (lex cs)
      else if c = 0x3A then map_option (Cons TColon) (lex cs)
      else if c = 0x2C then map_option (Cons TComma) (lex cs)
      else if c = 0x22 then
        (case lex_string [] cs of
           None \<Rightarrow> None
         | Some (s, rest) \<Rightarrow> map_option (Cons (TString s)) (lex rest))
      else if c = 0x2D \<or> is_digit c then
        (case lex_number (c # cs) of
           None \<Rightarrow> None
         | Some (n, rest) \<Rightarrow> map_option (Cons (TNumber n)) (lex rest))
      else if take 4 (c # cs) = js ''true'' then map_option (Cons TTrue) (lex (drop 3 cs))
      else if take 5 (c # cs) = js ''false'' then map_option (Cons TFalse) (lex (drop 4 cs))
      else if take 4 (c # cs) = js ''null'' then map_option (Cons TNull) (lex (drop 3 cs))
      else None)"
  by pat_completeness auto
termination
  by (relation "measure length")
    (auto dest: lex_string_shorter lex_number_shorter)

text \<open>
  One value from the front of a token list, with the tokens left over. The elements of an
  array and the members of an object are read one at a time; the comparisons of lengths
  only tell the definition that the rest is shorter, which \<open>parse_shorter\<close> below
  shows is always so.
\<close>

function parse_value :: "token list \<Rightarrow> (json \<times> token list) option"
  and parse_elements :: "json list \<Rightarrow> token list \<Rightarrow> (json \<times> token list) option"
  and parse_members :: "(jsstring \<times> json) list \<Rightarrow> token list \<Rightarrow> (json \<times> token list) option"
  where
  "parse_value [] = None"
| "parse_value (t # ts) =
     (case t of
        TNull \<Rightarrow> Some (JNull, ts)
      | TTrue \<Rightarrow> Some (JBool True, ts)
      | TFalse \<Rightarrow> Some (JBool False, ts)
      | TNumber n \<Rightarrow> Some (JNumber n, ts)
      | TString s \<Rightarrow> Some (JString s, ts)
      | TLBracket \<Rightarrow>
          if take 1 ts = [TRBracket] then Some (JArray [], drop 1 ts)
          else parse_elements [] ts
      | TLBrace \<Rightarrow>
          if take 1 ts = [TRBrace] then Some (JObject [], drop 1 ts)
          else parse_members [] ts
      | _ \<Rightarrow> None)"
| "parse_elements acc ts =
     (case parse_value ts of
        None \<Rightarrow> None
      | Some (v, rest) \<Rightarrow>
          (case rest of
             TComma # rest1 \<Rightarrow>
               if length rest1 < length ts then parse_elements (acc @ [v]) rest1 else None
           | TRBracket # rest1 \<Rightarrow> Some (JArray (acc @ [v]), rest1)
           | _ \<Rightarrow> None))"
| "parse_members acc ts =
     (case ts of
        TString k # TColon # ts1 \<Rightarrow>
          (case parse_value ts1 of
             None \<Rightarrow> None
           | Some (v, rest) \<Rightarrow>
               (case rest of
                  TComma # rest1 \<Rightarrow>
                    if length rest1 < length ts then parse_members (acc @ [(k, v)]) rest1 else None
                | TRBrace # rest1 \<Rightarrow> Some (JObject (acc @ [(k, v)]), rest1)
                | _ \<Rightarrow> None))
      | _ \<Rightarrow> None)"
  by pat_completeness auto
termination
  by (relation "measure (\<lambda>x. case x of
        Inl ts \<Rightarrow> 2 * length ts
      | Inr (Inl (acc, ts)) \<Rightarrow> 2 * length ts + 1
      | Inr (Inr (acc, ts)) \<Rightarrow> 2 * length ts + 1)") auto

declare parse_elements.simps [simp del] parse_members.simps [simp del]

definition JSON_parse :: "jsstring \<Rightarrow> json option" where
  "JSON_parse text =
     (case lex text of
        None \<Rightarrow> None
      | Some ts \<Rightarrow>
          (case parse_value ts of
             Some (v, []) \<Rightarrow> Some v
           | _ \<Rightarrow> None))"

section \<open>The prompt decision (\<^verbatim>\<open>parseBackgroundPromptDecision\<close>)\<close>

text \<open>
  \<^verbatim>\<open>BackgroundPromptDecision\<close> is a union of two object types told apart by \<^verbatim>\<open>status\<close>;
  both carry the trimmed reply as \<^verbatim>\<open>rawText\<close>. The first argument of a constructor is
  the prompt or the reason, the second is \<^verbatim>\<open>rawText\<close>.
\<close>

datatype BackgroundPromptDecision =
    Generate jsstring jsstring
  | Skip jsstring jsstring

text \<open>
  \<^verbatim>\<open>parsed.status\<close>, \<^verbatim>\<open>parsed.prompt\<close> and \<^verbatim>\<open>parsed.reason\<close> on a parsed value other than
  \<^verbatim>\<open>null\<close>: an object gives its member of that name, and no prototype of a boolean, a
  number, a string or an array has a property of one of these three names, so every
  other value gives \<^verbatim>\<open>undefined\<close> (\<open>None\<close>). On \<^verbatim>\<open>null\<close> the access throws a
  \<^verbatim>\<open>TypeError\<close>, which the function's \<^verbatim>\<open>catch\<close> swallows like the \<^verbatim>\<open>SyntaxError\<close> of
  \<^verbatim>\<open>JSON.parse\<close>.
\<close>

definition get_member :: "json \<Rightarrow> jsstring \<Rightarrow> json option" where
  "get_member parsed name =
     (case parsed of JObject members \<Rightarrow> map_of (rev members) name | _ \<Rightarrow> None)"

definition as_string :: "json option \<Rightarrow> jsstring option" where
  \<comment> \<open>\<^verbatim>\<open>typeof v === "string"\<close>, with the string\<close>
  "as_string v = (case v of Some (JString s) \<Rightarrow> Some s | _ \<Rightarrow> None)"

definition parseBackgroundPromptDecision :: "jsstring \<Rightarrow> BackgroundPromptDecision" where
  "parseBackgroundPromptDecision rawText =
     (let trimmed = trim rawText in
      if trimmed = [] then Skip (js ''Model returned an empty response.'') trimmed
      else
        (case JSON_parse trimmed of
           None \<Rightarrow> Generate trimmed trimmed
         | Some parsed \<Rightarrow>
             if parsed = JNull then Generate trimmed trimmed
             else
               (let status =
                      (case as_string (get_member parsed (js ''status'')) of
                         Some s \<Rightarrow> toLowerCase s
                       | None \<Rightarrow> [])
                in if status = js ''skip'' then
                     (let reason =
                            (case as_string (get_member parsed (js ''reason'')) of
                               Some r \<Rightarrow>
                                 if trim r = []
                                 then js ''Model indicated the transcript was not suitable.''
                                 else trim r
                             | None \<Rightarrow> js ''Model indicated the transcript was not suitable.'')
                      in Skip reason trimmed)
                   else if status = js ''generate'' then
                     (let prompt =
                            (case as_string (get_member parsed (js ''prompt'')) of
                               Some p \<Rightarrow> trim p
                             | None \<Rightarrow> [])
                      in if prompt = []
                         then Skip (js ''Model indicated generation but omitted the prompt text.'')
                                trimmed
                         else Generate prompt trimmed)
                   else Generate trimmed trimmed)))"

subsection \<open>The reply in the words of the specification\<close>

text \<open>
  The grammar reads the reply as a one-line JSON object \<^verbatim>\<open>{"status", "prompt"?, "reason"?}\<close>.
  \<open>reply_field\<close> is the text of a member of the reply when the reply is a JSON object and
  the member is a string; a repeated member counts with its last value.
\<close>

definition reply_field :: "jsstring \<Rightarrow> jsstring \<Rightarrow> jsstring option" where
  "reply_field reply name =
     (case JSON_parse reply of
        Some (JObject members) \<Rightarrow>
          (case map_of (rev members) name of Some (JString s) \<Rightarrow> Some s | _ \<Rightarrow> None)
      | _ \<Rightarrow> None)"

subsection \<open>Properties of the JSON model\<close>

lemma parse_shorter:
  "parse_value ts = Some (v, rest) \<Longrightarrow> length rest < length ts"
  "parse_elements acc1 ts1 = Some (v1, rest1) \<Longrightarrow> length rest1 < length ts1"
  "parse_members acc2 ts2 = Some (v2, rest2) \<Longrightarrow> length rest2 < length ts2"
proof (induction ts and acc1 ts1 and acc2 ts2 arbitrary: v rest and v1 rest1 and v2 rest2
    rule: parse_value_parse_elements_parse_members.induct)
  case 1
  then show ?case by simp
next
  case (2 t ts)
  show ?case
  proof (cases t)
    case TLBracket
    show ?thesis
    proof (cases "take 1 ts = [TRBracket]")
      case True
      with "2.prems" TLBracket have "rest = drop 1 ts" by simp
      then show ?thesis by simp
    next
      case False
      with "2.prems" TLBracket have p: "parse_elements [] ts = Some (v, rest)"
        by simp
      have "length rest < length ts"
        using "2.IH"(2) [OF TLBracket False p] .
      then show ?thesis by simp
    qed
  next
    case TLBrace
    show ?thesis
    proof (cases "take 1 ts = [TRBrace]")
      case True
      with "2.prems" TLBrace have "rest = drop 1 ts" by simp
      then show ?thesis by simp
    next
      case False
      with "2.prems" TLBrace have p: "parse_members [] ts = Some (v, rest)"
        by simp
      have "length rest < length ts"
        using "2.IH"(1) [OF TLBrace False p] .
      then show ?thesis by simp
    qed
  qed (use "2.prems" in auto)
next
  case (3 acc ts)
  have unf: "parse_elements acc ts = Some (v1, rest1)"
    by (rule "3.prems")
  from unf obtain v0 r0 where pv: "parse_value ts = Some (v0, r0)"
    by (subst (asm) parse_elements.simps) (auto split: option.splits)
  have l0: "length r0 < length ts"
    using "3.IH"(1) [OF pv] .
  from unf pv consider
      (comma) r where "r0 = TComma # r" "length r < length ts"
        "parse_elements (acc @ [v0]) r = Some (v1, rest1)"
    | (close) "r0 = TRBracket # rest1"
    by (subst (asm) parse_elements.simps) (auto split: list.splits token.splits if_splits)
  then show ?case
  proof cases
    case comma
    have "length rest1 < length r"
      using "3.IH"(2) [OF pv refl comma(1) refl comma(2) comma(3)] .
    with comma(2) show ?thesis by simp
  next
    case close
    with l0 show ?thesis by simp
  qed
next
  case (4 acc ts)
  have unf: "parse_members acc ts = Some (v2, rest2)"
    by (rule "4.prems")
  from unf obtain k ts0 where ts: "ts = TString k # TColon # ts0"
    by (subst (asm) parse_members.simps) (auto split: list.splits token.splits)
  from unf ts obtain v0 r0 where pv: "parse_value ts0 = Some (v0, r0)"
    by (subst (asm) parse_members.simps) (auto split: option.splits)
  have l0: "length r0 < length ts0"
    using "4.IH"(1) [OF ts refl refl refl pv] .
  from unf ts pv consider
      (comma) r where "r0 = TComma # r" "length r < length ts"
        "parse_members (acc @ [(k, v0)]) r = Some (v2, rest2)"
    | (close) "r0 = TRBrace # rest2"
    by (subst (asm) parse_members.simps) (auto split: list.splits token.splits if_splits)
  then show ?case
  proof cases
    case comma
    have "length rest2 < length r"
      using "4.IH"(2) [OF ts refl refl refl pv refl comma(1) refl comma(2) comma(3)] .
    with comma(2) show ?thesis by simp
  next
    case close
    with l0 ts show ?thesis by simp
  qed
qed

text \<open>
  The length comparisons in \<open>parse_elements\<close> and \<open>parse_members\<close> never fail: both
  functions satisfy the equations without them.
\<close>

lemma parse_elements_unguarded:
  "parse_elements acc ts =
     (case parse_value ts of
        None \<Rightarrow> None
      | Some (v, rest) \<Rightarrow>
          (case rest of
             TComma # rest1 \<Rightarrow> parse_elements (acc @ [v]) rest1
           | TRBracket # rest1 \<Rightarrow> Some (JArray (acc @ [v]), rest1)
           | _ \<Rightarrow> None))"
proof (cases "parse_value ts")
  case None
  then show ?thesis by (subst parse_elements.simps) simp
next
  case (Some p)
  obtain v rest where p: "p = (v, rest)" by (cases p)
  have "length rest < length ts"
    using Some p by (auto dest: parse_shorter(1))
  then show ?thesis
    using Some p
    by (subst parse_elements.simps) (auto split: list.splits token.splits)
qed

lemma parse_members_unguarded:
  "parse_members acc ts =
     (case ts of
        TString k # TColon # ts1 \<Rightarrow>
          (case parse_value ts1 of
             None \<Rightarrow> None
           | Some (v, rest) \<Rightarrow>
               (case rest of
                  TComma # rest1 \<Rightarrow> parse_members (acc @ [(k, v)]) rest1
                | TRBrace # rest1 \<Rightarrow> Some (JObject (acc @ [(k, v)]), rest1)
                | _ \<Rightarrow> None))
      | _ \<Rightarrow> None)"
proof -
  have shorter: "length rest1 < length (TString k # TColon # ts1)"
    if "parse_value ts1 = Some (v, TComma # rest1)" for k ts1 v rest1
    using parse_shorter(1) [OF that] by simp
  show ?thesis
    by (subst parse_members.simps)
      (auto split: list.splits token.splits option.splits dest: shorter)
qed


subsection \<open>The decision function case by case\<close>

lemmas json_eval =
  js_Nil js_Cons trim_def is_js_space_def toLowerCase_def lower_unit_def
  JSON_parse_def is_json_ws_def is_digit_def lex_escape_def simple_escape_def hex_value_def
  lex_number_def lex_int_def lex_frac_def lex_exp_def lex_digits_def
  parse_elements.simps parse_members.simps get_member_def as_string_def

lemma reply_field_of_parsed:
  "JSON_parse reply = Some parsed \<Longrightarrow> as_string (get_member parsed name) = reply_field reply name"
  by (cases parsed) (simp_all add: reply_field_def get_member_def as_string_def)

lemma reply_field_of_null: "JSON_parse reply = Some JNull \<Longrightarrow> reply_field reply name = None"
  by (simp add: reply_field_def)

lemma reply_field_of_malformed: "JSON_parse reply = None \<Longrightarrow> reply_field reply name = None"
  by (simp add: reply_field_def)

lemma status_words:
  "(toLowerCase s = js ''skip'') = ignoring_case s (js ''skip'')"
  "(toLowerCase s = js ''generate'') = ignoring_case s (js ''generate'')"
  "js ''skip'' \<noteq> js ''generate''" "js ''skip'' \<noteq> []" "js ''generate'' \<noteq> []"
  "js ''generate'' \<noteq> js ''skip''" "[] \<noteq> js ''skip''" "[] \<noteq> js ''generate''"
  by (simp_all add: toLowerCase_is_word js_Nil js_Cons)

lemma decision_of_blank:
  "blank rawText \<Longrightarrow>
   parseBackgroundPromptDecision rawText = Skip (js ''Model returned an empty response.'') []"
  by (simp add: parseBackgroundPromptDecision_def trim_of_blank)

lemma decision_by_fields:
  assumes "blank a" and "blank b" and "outer_trimmed t" and "t \<noteq> []"
  shows "parseBackgroundPromptDecision (a @ t @ b) =
      (let status = (case reply_field t (js ''status'') of
                       Some s \<Rightarrow> toLowerCase s | None \<Rightarrow> [])
       in if status = js ''skip'' then
            Skip (case reply_field t (js ''reason'') of
                    Some r \<Rightarrow> if trim r = []
                              then js ''Model indicated the transcript was not suitable.''
                              else trim r
                  | None \<Rightarrow> js ''Model indicated the transcript was not suitable.'') t
          else if status = js ''generate'' then
            (let prompt = (case reply_field t (js ''prompt'') of
                             Some p \<Rightarrow> trim p | None \<Rightarrow> [])
             in if prompt = []
                then Skip (js ''Model indicated generation but omitted the prompt text.'') t
                else Generate prompt t)
          else Generate t t)"
proof -
  have t: "trim (a @ t @ b) = t"
    using assms(1-3) by (rule trim_padded)
  show ?thesis
  proof (cases "JSON_parse t")
    case None
    then show ?thesis
      unfolding parseBackgroundPromptDecision_def t
      by (simp add: assms(4) reply_field_of_malformed status_words Let_def)
  next
    case (Some parsed)
    show ?thesis
    proof (cases "parsed = JNull")
      case True
      with Some show ?thesis
        unfolding parseBackgroundPromptDecision_def t
        by (simp add: assms(4) reply_field_of_null status_words Let_def)
    next
      case False
      show ?thesis
        unfolding parseBackgroundPromptDecision_def t
        by (simp only: Let_def Some False assms(4) option.case if_False
            reply_field_of_parsed [OF Some])
    qed
  qed
qed

text \<open>
  Claim C4, as stated: the empty string yields \<^verbatim>\<open>Skip("empty response")\<close>, a status other
  than \<^verbatim>\<open>"skip"\<close> and \<^verbatim>\<open>"generate"\<close> yields \<^verbatim>\<open>Generate\<close> with the raw reply, and status
  \<^verbatim>\<open>"generate"\<close> with a non-empty prompt yields \<^verbatim>\<open>Generate\<close> with that prompt. The reason
  that the function gives for the empty string is the text
  \<^verbatim>\<open>Model returned an empty response.\<close>; it compares the status in lower case, so
  \<^verbatim>\<open>"SKIP"\<close> is a skip and not an unknown status; and it trims the prompt, so the
  non-empty prompt \<^verbatim>\<open>" "\<close> counts as omitted.
\<close>

theorem C4_replies_against_the_stated_grammar:
  \<open>parseBackgroundPromptDecision (js '''') =
     Skip (js ''Model returned an empty response.'') (js '''') \<and>
   parseBackgroundPromptDecision (js '''') \<noteq> Skip (js ''empty response'') (js '''') \<and>
   parseBackgroundPromptDecision (js ''{"status":"SKIP","reason":"silence"}'') =
     Skip (js ''silence'') (js ''{"status":"SKIP","reason":"silence"}'') \<and>
   parseBackgroundPromptDecision (js ''{"status":"SKIP","reason":"silence"}'') \<noteq>
     Generate (js ''{"status":"SKIP","reason":"silence"}'')
       (js ''{"status":"SKIP","reason":"silence"}'') \<and>
   parseBackgroundPromptDecision (js ''{"status":"generate","prompt":" "}'') =
     Skip (js ''Model indicated generation but omitted the prompt text.'')
       (js ''{"status":"generate","prompt":" "}'') \<and>
   parseBackgroundPromptDecision (js ''{"status":"generate","prompt":" "}'') \<noteq>
     Generate (js '' '') (js ''{"status":"generate","prompt":" "}'')\<close>
proof -
  have e0: "parseBackgroundPromptDecision (js '''') =
     Skip (js ''Model returned an empty response.'') (js '''')"
    by (simp add: parseBackgroundPromptDecision_def trim_def js_Nil)
  have t1: \<open>trim (js ''{"status":"SKIP","reason":"silence"}'') =
      js ''{"status":"SKIP","reason":"silence"}''\<close>
    by (simp add: trim_def is_js_space_def js_Nil js_Cons)
  have p1: \<open>JSON_parse (js ''{"status":"SKIP","reason":"silence"}'') =
      Some (JObject [(js ''status'', JString (js ''SKIP'')),
                     (js ''reason'', JString (js ''silence''))])\<close>
    by (simp add: json_eval)
  have e1: \<open>parseBackgroundPromptDecision (js ''{"status":"SKIP","reason":"silence"}'') =
     Skip (js ''silence'') (js ''{"status":"SKIP","reason":"silence"}'')\<close>
    unfolding parseBackgroundPromptDecision_def Let_def t1 p1
    by (simp add: json_eval)
  have t2: \<open>trim (js ''{"status":"generate","prompt":" "}'') =
      js ''{"status":"generate","prompt":" "}''\<close>
    by (simp add: trim_def is_js_space_def js_Nil js_Cons)
  have p2: \<open>JSON_parse (js ''{"status":"generate","prompt":" "}'') =
      Some (JObject [(js ''status'', JString (js ''generate'')),
                     (js ''prompt'', JString (js '' ''))])\<close>
    by (simp add: json_eval)
  have e2: \<open>parseBackgroundPromptDecision (js ''{"status":"generate","prompt":" "}'') =
     Skip (js ''Model indicated generation but omitted the prompt text.'')
       (js ''{"status":"generate","prompt":" "}'')\<close>
    unfolding parseBackgroundPromptDecision_def Let_def t2 p2
    by (simp add: json_eval)
  have d: "js ''Model returned an empty response.'' \<noteq> js ''empty response''"
    by (simp add: js_Cons)
  from e0 e1 e2 d show ?thesis by simp
qed

text \<open>
  Claim C4, amended: the function decides on the reply without its surrounding white
  space, which every decision carries as \<^verbatim>\<open>rawText\<close>. A blank reply (empty or all white
  space) is skipped with the reason \<^verbatim>\<open>Model returned an empty response.\<close>. Every other
  reply is an outer-trimmed \<open>t\<close> between blank paddings \<open>a\<close> and \<open>b\<close>, and the decision
  goes by the status, the string member \<^verbatim>\<open>status\<close> of \<open>t\<close> read as a JSON object. With
  no such member (malformed JSON, \<^verbatim>\<open>null\<close>, a value that is no object, a status that is
  missing or no string), or with one that is neither \<^verbatim>\<open>skip\<close> nor \<^verbatim>\<open>generate\<close>, the reply
  \<open>t\<close> itself is generated. With the status \<^verbatim>\<open>skip\<close>, in any mix of capitals and small
  letters, the reply is skipped with its \<^verbatim>\<open>reason\<close> without surrounding white space, or
  with \<^verbatim>\<open>Model indicated the transcript was not suitable.\<close> when the reason is missing,
  no string or blank. With the status \<^verbatim>\<open>generate\<close>, in any mix of capitals and small
  letters, the \<^verbatim>\<open>prompt\<close> without its surrounding white space is generated, and the reply
  is skipped with \<^verbatim>\<open>Model indicated generation but omitted the prompt text.\<close> when the
  prompt is missing, no string or blank. The replies of the claim: a skip for silence, a
  lake to generate, the plain text, the empty string; then a reply of white space only, a
  padded reply with escaped quotes and a capital in the status, a prompt with an escaped
  code unit, \<^verbatim>\<open>null\<close>, a skip without a reason, an unknown status, a status given twice, an
  array.
\<close>

theorem C4_decision_by_cases:
  \<open>(blank rawText \<longrightarrow>
      parseBackgroundPromptDecision rawText =
        Skip (js ''Model returned an empty response.'') []) \<and>
   (\<exists>a t b. rawText = a @ t @ b \<and> blank a \<and> blank b \<and> outer_trimmed t) \<and>
   (blank a \<and> blank b \<and> outer_trimmed t \<and> t \<noteq> [] \<longrightarrow>
      (reply_field t (js ''status'') = None \<or>
       reply_field t (js ''status'') = Some s \<and>
         \<not> ignoring_case s (js ''skip'') \<and> \<not> ignoring_case s (js ''generate'') \<longrightarrow>
         parseBackgroundPromptDecision (a @ t @ b) = Generate t t) \<and>
      (reply_field t (js ''status'') = Some s \<and> ignoring_case s (js ''skip'') \<longrightarrow>
         (reply_field t (js ''reason'') = Some (c @ r @ d) \<and> blank c \<and> blank d \<and>
            outer_trimmed r \<and> r \<noteq> [] \<longrightarrow>
            parseBackgroundPromptDecision (a @ t @ b) = Skip r t) \<and>
         (reply_field t (js ''reason'') = None \<or>
          reply_field t (js ''reason'') = Some x \<and> blank x \<longrightarrow>
            parseBackgroundPromptDecision (a @ t @ b) =
              Skip (js ''Model indicated the transcript was not suitable.'') t)) \<and>
      (reply_field t (js ''status'') = Some s \<and> ignoring_case s (js ''generate'') \<longrightarrow>
         (reply_field t (js ''prompt'') = Some (c @ r @ d) \<and> blank c \<and> blank d \<and>
            outer_trimmed r \<and> r \<noteq> [] \<longrightarrow>
            parseBackgroundPromptDecision (a @ t @ b) = Generate r t) \<and>
         (reply_field t (js ''prompt'') = None \<or>
          reply_field t (js ''prompt'') = Some x \<and> blank x \<longrightarrow>
            parseBackgroundPromptDecision (a @ t @ b) =
              Skip (js ''Model indicated generation but omitted the prompt text.'') t))) \<and>
   parseBackgroundPromptDecision (js ''{"status":"skip","reason":"silence"}'') =
     Skip (js ''silence'') (js ''{"status":"skip","reason":"silence"}'') \<and>
   parseBackgroundPromptDecision (js ''{"status":"generate","prompt":"a lake"}'') =
     Generate (js ''a lake'') (js ''{"status":"generate","prompt":"a lake"}'') \<and>
   parseBackgroundPromptDecision (js ''a lake at dusk'') =
     Generate (js ''a lake at dusk'') (js ''a lake at dusk'') \<and>
   parseBackgroundPromptDecision (js '''') =
     Skip (js ''Model returned an empty response.'') (js '''') \<and>
   parseBackgroundPromptDecision [0x20, 0x9, 0xA, 0xA0, 0x2003, 0xFEFF] =
     Skip (js ''Model returned an empty response.'') (js '''') \<and>
   parseBackgroundPromptDecision
     ([0x20, 0xA] @ js ''{"status":"Skip","reason":" too '' @ [0x5C, 0x22] @ js ''quiet'' @
      [0x5C, 0x22, 0x5C, 0x6E] @ js ''"}'' @ [0x9]) =
     Skip (js ''too "quiet"'')
       (js ''{"status":"Skip","reason":" too '' @ [0x5C, 0x22] @ js ''quiet'' @
        [0x5C, 0x22, 0x5C, 0x6E] @ js ''"}'') \<and>
   parseBackgroundPromptDecision
     (js ''{"status":"GENERATE","prompt":"'' @ [0x5C] @ js ''u0041 lake"}'') =
     Generate (js ''A lake'')
       (js ''{"status":"GENERATE","prompt":"'' @ [0x5C] @ js ''u0041 lake"}'') \<and>
   parseBackgroundPromptDecision (js ''null'') = Generate (js ''null'') (js ''null'') \<and>
   parseBackgroundPromptDecision (js ''{"status":"skip"}'') =
     Skip (js ''Model indicated the transcript was not suitable.'') (js ''{"status":"skip"}'') \<and>
   parseBackgroundPromptDecision (js ''{"status":"later","prompt":"a lake"}'') =
     Generate (js ''{"status":"later","prompt":"a lake"}'')
       (js ''{"status":"later","prompt":"a lake"}'') \<and>
   parseBackgroundPromptDecision (js ''{"status":"skip","status":"generate","prompt":"a lake"}'') =
     Generate (js ''a lake'') (js ''{"status":"skip","status":"generate","prompt":"a lake"}'') \<and>
   parseBackgroundPromptDecision (js ''["skip"]'') = Generate (js ''["skip"]'') (js ''["skip"]'')\<close>
proof -
  have other: "parseBackgroundPromptDecision (a @ t @ b) = Generate t t"
    if "blank a" "blank b" "outer_trimmed t" "t \<noteq> []"
      "reply_field t (js ''status'') = None \<or>
       reply_field t (js ''status'') = Some s \<and>
         \<not> ignoring_case s (js ''skip'') \<and> \<not> ignoring_case s (js ''generate'')"
    using that(5)
    by (auto simp: decision_by_fields [OF that(1-4)] status_words Let_def)
  have skip_reason: "parseBackgroundPromptDecision (a @ t @ b) = Skip r t"
    if "blank a" "blank b" "outer_trimmed t" "t \<noteq> []"
      "reply_field t (js ''status'') = Some s" "ignoring_case s (js ''skip'')"
      "reply_field t (js ''reason'') = Some (c @ r @ d)" "blank c" "blank d"
      "outer_trimmed r" "r \<noteq> []"
    using that(5-7,11) trim_padded [OF that(8-10)]
    by (simp add: decision_by_fields [OF that(1-4)] status_words Let_def)
  have skip_default: "parseBackgroundPromptDecision (a @ t @ b) =
      Skip (js ''Model indicated the transcript was not suitable.'') t"
    if "blank a" "blank b" "outer_trimmed t" "t \<noteq> []"
      "reply_field t (js ''status'') = Some s" "ignoring_case s (js ''skip'')"
      "reply_field t (js ''reason'') = None \<or>
       reply_field t (js ''reason'') = Some x \<and> blank x"
    using that(5-7)
    by (auto simp: decision_by_fields [OF that(1-4)] status_words trim_of_blank Let_def)
  have generate_prompt: "parseBackgroundPromptDecision (a @ t @ b) = Generate r t"
    if "blank a" "blank b" "outer_trimmed t" "t \<noteq> []"
      "reply_field t (js ''status'') = Some s" "ignoring_case s (js ''generate'')"
      "reply_field t (js ''prompt'') = Some (c @ r @ d)" "blank c" "blank d"
      "outer_trimmed r" "r \<noteq> []"
  proof -
    from that(6) have "toLowerCase s = js ''generate''"
      by (simp add: status_words)
    with that(5,7,11) trim_padded [OF that(8-10)] show ?thesis
      by (simp add: decision_by_fields [OF that(1-4)] status_words(3-8) Let_def)
  qed
  have generate_omitted: "parseBackgroundPromptDecision (a @ t @ b) =
      Skip (js ''Model indicated generation but omitted the prompt text.'') t"
    if "blank a" "blank b" "outer_trimmed t" "t \<noteq> []"
      "reply_field t (js ''status'') = Some s" "ignoring_case s (js ''generate'')"
      "reply_field t (js ''prompt'') = None \<or>
       reply_field t (js ''prompt'') = Some x \<and> blank x"
  proof -
    from that(6) have "toLowerCase s = js ''generate''"
      by (simp add: status_words)
    with that(5,7) show ?thesis
      by (auto simp: decision_by_fields [OF that(1-4)] status_words(3-8)
          trim_of_blank Let_def)
  qed
  have t1: \<open>trim (js ''{"status":"skip","reason":"silence"}'') =
      js ''{"status":"skip","reason":"silence"}''\<close>
    by (simp add: trim_def is_js_space_def js_Nil js_Cons)
  have p1: \<open>JSON_parse (js ''{"status":"skip","reason":"silence"}'') =
      Some (JObject [(js ''status'', JString (js ''skip'')),
                     (js ''reason'', JString (js ''silence''))])\<close>
    by (simp add: json_eval)
  have e1: \<open>parseBackgroundPromptDecision (js ''{"status":"skip","reason":"silence"}'') =
     Skip (js ''silence'') (js ''{"status":"skip","reason":"silence"}'')\<close>
    unfolding parseBackgroundPromptDecision_def Let_def t1 p1
    by (simp add: json_eval)
  have t2: \<open>trim (js ''{"status":"generate","prompt":"a lake"}'') =
      js ''{"status":"generate","prompt":"a lake"}''\<close>
    by (simp add: trim_def is_js_space_def js_Nil js_Cons)
  have p2: \<open>JSON_parse (js ''{"status":"generate","prompt":"a lake"}'') =
      Some (JObject [(js ''status'', JString (js ''generate'')),
                     (js ''prompt'', JString (js ''a lake''))])\<close>
    by (simp add: json_eval)
  have e2: \<open>parseBackgroundPromptDecision (js ''{"status":"generate","prompt":"a lake"}'') =
     Generate (js ''a lake'') (js ''{"status":"generate","prompt":"a lake"}'')\<close>
    unfolding parseBackgroundPromptDecision_def Let_def t2 p2
    by (simp add: json_eval)
  have t3: "trim (js ''a lake at dusk'') = js ''a lake at dusk''"
    by (simp add: trim_def is_js_space_def js_Nil js_Cons)
  have p3: "JSON_parse (js ''a lake at dusk'') = None"
    by (simp add: json_eval)
  have e3: "parseBackgroundPromptDecision (js ''a lake at dusk'') =
     Generate (js ''a lake at dusk'') (js ''a lake at dusk'')"
    unfolding parseBackgroundPromptDecision_def Let_def t3 p3
    by (simp add: js_Nil js_Cons)
  have e4: "parseBackgroundPromptDecision (js '''') =
     Skip (js ''Model returned an empty response.'') (js '''')"
    by (simp add: parseBackgroundPromptDecision_def trim_def js_Nil)
  have e5: "parseBackgroundPromptDecision [0x20, 0x9, 0xA, 0xA0, 0x2003, 0xFEFF] =
     Skip (js ''Model returned an empty response.'') (js '''')"
    by (simp add: parseBackgroundPromptDecision_def trim_def is_js_space_def js_Nil)
  have t6: \<open>trim ([0x20, 0xA] @ js ''{"status":"Skip","reason":" too '' @ [0x5C, 0x22] @
        js ''quiet'' @ [0x5C, 0x22, 0x5C, 0x6E] @ js ''"}'' @ [0x9]) =
      js ''{"status":"Skip","reason":" too '' @ [0x5C, 0x22] @ js ''quiet'' @
        [0x5C, 0x22, 0x5C, 0x6E] @ js ''"}''\<close>
    by (simp add: trim_def is_js_space_def js_Nil js_Cons)
  have p6: \<open>JSON_parse (js ''{"status":"Skip","reason":" too '' @ [0x5C, 0x22] @ js ''quiet'' @
        [0x5C, 0x22, 0x5C, 0x6E] @ js ''"}'') =
      Some (JObject [(js ''status'', JString (js ''Skip'')),
                     (js ''reason'', JString ([0x20] @ js ''too "quiet"'' @ [0xA]))])\<close>
    by (simp add: json_eval)
  have e6: \<open>parseBackgroundPromptDecision
     ([0x20, 0xA] @ js ''{"status":"Skip","reason":" too '' @ [0x5C, 0x22] @ js ''quiet'' @
      [0x5C, 0x22, 0x5C, 0x6E] @ js ''"}'' @ [0x9]) =
     Skip (js ''too "quiet"'')
       (js ''{"status":"Skip","reason":" too '' @ [0x5C, 0x22] @ js ''quiet'' @
        [0x5C, 0x22, 0x5C, 0x6E] @ js ''"}'')\<close>
    unfolding parseBackgroundPromptDecision_def Let_def t6 p6
    by (simp add: json_eval)
  have t7: \<open>trim (js ''{"status":"GENERATE","prompt":"'' @ [0x5C] @ js ''u0041 lake"}'') =
      js ''{"status":"GENERATE","prompt":"'' @ [0x5C] @ js ''u0041 lake"}''\<close>
    by (simp add: trim_def is_js_space_def js_Nil js_Cons)
  have p7: \<open>JSON_parse (js ''{"status":"GENERATE","prompt":"'' @ [0x5C] @ js ''u0041 lake"}'') =
      Some (JObject [(js ''status'', JString (js ''GENERATE'')),
                     (js ''prompt'', JString (js ''A lake''))])\<close>
    by (simp add: json_eval)
  have e7: \<open>parseBackgroundPromptDecision
     (js ''{"status":"GENERATE","prompt":"'' @ [0x5C] @ js ''u0041 lake"}'') =
     Generate (js ''A lake'')
       (js ''{"status":"GENERATE","prompt":"'' @ [0x5C] @ js ''u0041 lake"}'')\<close>
    unfolding parseBackgroundPromptDecision_def Let_def t7 p7
    by (simp add: json_eval)
  have t8: "trim (js ''null'') = js ''null''"
    by (simp add: trim_def is_js_space_def js_Nil js_Cons)
  have p8: "JSON_parse (js ''null'') = Some JNull"
    by (simp add: json_eval)
  have e8: "parseBackgroundPromptDecision (js ''null'') = Generate (js ''null'') (js ''null'')"
    unfolding parseBackgroundPromptDecision_def Let_def t8 p8
    by (simp add: js_Nil js_Cons)
  have t9: \<open>trim (js ''{"status":"skip"}'') = js ''{"status":"skip"}''\<close>
    by (simp add: trim_def is_js_space_def js_Nil js_Cons)
  have p9: \<open>JSON_parse (js ''{"status":"skip"}'') =
      Some (JObject [(js ''status'', JString (js ''skip''))])\<close>
    by (simp add: json_eval)
  have e9: \<open>parseBackgroundPromptDecision (js ''{"status":"skip"}'') =
     Skip (js ''Model indicated the transcript was not suitable.'') (js ''{"status":"skip"}'')\<close>
    unfolding parseBackgroundPromptDecision_def Let_def t9 p9
    by (simp add: json_eval)
  have t10: \<open>trim (js ''{"status":"later","prompt":"a lake"}'') =
      js ''{"status":"later","prompt":"a lake"}''\<close>
    by (simp add: trim_def is_js_space_def js_Nil js_Cons)
  have p10: \<open>JSON_parse (js ''{"status":"later","prompt":"a lake"}'') =
      Some (JObject [(js ''status'', JString (js ''later'')),
                     (js ''prompt'', JString (js ''a lake''))])\<close>
    by (simp add: json_eval)
  have e10: \<open>parseBackgroundPromptDecision (js ''{"status":"later","prompt":"a lake"}'') =
     Generate (js ''{"status":"later","prompt":"a lake"}'')
       (js ''{"status":"later","prompt":"a lake"}'')\<close>
    unfolding parseBackgroundPromptDecision_def Let_def t10 p10
    by (simp add: json_eval)
  have t11: \<open>trim (js ''{"status":"skip","status":"generate","prompt":"a lake"}'') =
      js ''{"status":"skip","status":"generate","prompt":"a lake"}''\<close>
    by (simp add: trim_def is_js_space_def js_Nil js_Cons)
  have p11: \<open>JSON_parse (js ''{"status":"skip","status":"generate","prompt":"a lake"}'') =
      Some (JObject [(js ''status'', JString (js ''skip'')),
                     (js ''status'', JString (js ''generate'')),
                     (js ''prompt'', JString (js ''a lake''))])\<close>
    by (simp add: json_eval)
  have e11: \<open>parseBackgroundPromptDecision
       (js ''{"status":"skip","status":"generate","prompt":"a lake"}'') =
     Generate (js ''a lake'') (js ''{"status":"skip","status":"generate","prompt":"a lake"}'')\<close>
    unfolding parseBackgroundPromptDecision_def Let_def t11 p11
    by (simp add: json_eval)
  have t12: \<open>trim (js ''["skip"]'') = js ''["skip"]''\<close>
    by (simp add: trim_def is_js_space_def js_Nil js_Cons)
  have p12: \<open>JSON_parse (js ''["skip"]'') = Some (JArray [JString (js ''skip'')])\<close>
    by (simp add: json_eval)
  have e12: \<open>parseBackgroundPromptDecision (js ''["skip"]'') =
      Generate (js ''["skip"]'') (js ''["skip"]'')\<close>
    unfolding parseBackgroundPromptDecision_def Let_def t12 p12
    by (simp add: json_eval)
  have general:
    "(blank a \<and> blank b \<and> outer_trimmed t \<and> t \<noteq> [] \<longrightarrow>
      (reply_field t (js ''status'') = None \<or>
       reply_field t (js ''status'') = Some s \<and>
         \<not> ignoring_case s (js ''skip'') \<and> \<not> ignoring_case s (js ''generate'') \<longrightarrow>
         parseBackgroundPromptDecision (a @ t @ b) = Generate t t) \<and>
      (reply_field t (js ''status'') = Some s \<and> ignoring_case s (js ''skip'') \<longrightarrow>
         (reply_field t (js ''reason'') = Some (c @ r @ d) \<and> blank c \<and> blank d \<and>
            outer_trimmed r \<and> r \<noteq> [] \<longrightarrow>
            parseBackgroundPromptDecision (a @ t @ b) = Skip r t) \<and>
         (reply_field t (js ''reason'') = None \<or>
          reply_field t (js ''reason'') = Some x \<and> blank x \<longrightarrow>
            parseBackgroundPromptDecision (a @ t @ b) =
              Skip (js ''Model indicated the transcript was not suitable.'') t)) \<and>
      (reply_field t (js ''status'') = Some s \<and> ignoring_case s (js ''generate'') \<longrightarrow>
         (reply_field t (js ''prompt'') = Some (c @ r @ d) \<and> blank c \<and> blank d \<and>
            outer_trimmed r \<and> r \<noteq> [] \<longrightarrow>
            parseBackgroundPromptDecision (a @ t @ b) = Generate r t) \<and>
         (reply_field t (js ''prompt'') = None \<or>
          reply_field t (js ''prompt'') = Some x \<and> blank x \<longrightarrow>
            parseBackgroundPromptDecision (a @ t @ b) =
              Skip (js ''Model indicated generation but omitted the prompt text.'') t)))"
    using other skip_reason skip_default generate_prompt generate_omitted by blast
  have examples:
    \<open>parseBackgroundPromptDecision (js ''{"status":"skip","reason":"silence"}'') =
     Skip (js ''silence'') (js ''{"status":"skip","reason":"silence"}'') \<and>
   parseBackgroundPromptDecision (js ''{"status":"generate","prompt":"a lake"}'') =
     Generate (js ''a lake'') (js ''{"status":"generate","prompt":"a lake"}'') \<and>
   parseBackgroundPromptDecision (js ''a lake at dusk'') =
     Generate (js ''a lake at dusk'') (js ''a lake at dusk'') \<and>
   parseBackgroundPromptDecision (js '''') =
     Skip (js ''Model returned an empty response.'') (js '''') \<and>
   parseBackgroundPromptDecision [0x20, 0x9, 0xA, 0xA0, 0x2003, 0xFEFF] =
     Skip (js ''Model returned an empty response.'') (js '''') \<and>
   parseBackgroundPromptDecision
     ([0x20, 0xA] @ js ''{"status":"Skip","reason":" too '' @ [0x5C, 0x22] @ js ''quiet'' @
      [0x5C, 0x22, 0x5C, 0x6E] @ js ''"}'' @ [0x9]) =
     Skip (js ''too "quiet"'')
       (js ''{"status":"Skip","reason":" too '' @ [0x5C, 0x22] @ js ''quiet'' @
        [0x5C, 0x22, 0x5C, 0x6E] @ js ''"}'') \<and>
   parseBackgroundPromptDecision
     (js ''{"status":"GENERATE","prompt":"'' @ [0x5C] @ js ''u0041 lake"}'') =
     Generate (js ''A lake'')
       (js ''{"status":"GENERATE","prompt":"'' @ [0x5C] @ js ''u0041 lake"}'') \<and>
   parseBackgroundPromptDecision (js ''null'') = Generate (js ''null'') (js ''null'') \<and>
   parseBackgroundPromptDecision (js ''{"status":"skip"}'') =
     Skip (js ''Model indicated the transcript was not suitable.'') (js ''{"status":"skip"}'') \<and>
   parseBackgroundPromptDecision (js ''{"status":"later","prompt":"a lake"}'') =
     Generate (js ''{"status":"later","prompt":"a lake"}'')
       (js ''{"status":"later","prompt":"a lake"}'') \<and>
   parseBackgroundPromptDecision (js ''{"status":"skip","status":"generate","prompt":"a lake"}'') =
     Generate (js ''a lake'') (js ''{"status":"skip","status":"generate","prompt":"a lake"}'') \<and>
   parseBackgroundPromptDecision (js ''["skip"]'') = Generate (js ''["skip"]'') (js ''["skip"]'')\<close>
    by (intro conjI) (fact e1 e2 e3 e4 e5 e6 e7 e8 e9 e10 e11 e12)+
  have empty: "blank rawText \<longrightarrow>
      parseBackgroundPromptDecision rawText =
        Skip (js ''Model returned an empty response.'') []"
    using decision_of_blank by blast
  show ?thesis
    by (rule conjI [OF empty conjI [OF padded_form conjI [OF general examples]]])
qed

theorem C4_decision_by_cases_witness:
  \<open>blank [0x20, 0x9] \<and>
   parseBackgroundPromptDecision [0x20, 0x9] =
     Skip (js ''Model returned an empty response.'') [] \<and>
   blank [0x20] \<and> blank [0xA] \<and>
   outer_trimmed (js ''{"status":"Skip","reason":" silence "}'') \<and>
   reply_field (js ''{"status":"Skip","reason":" silence "}'') (js ''status'') =
     Some (js ''Skip'') \<and>
   ignoring_case (js ''Skip'') (js ''skip'') \<and>
   reply_field (js ''{"status":"Skip","reason":" silence "}'') (js ''reason'') =
     Some ([0x20] @ js ''silence'' @ [0x20]) \<and>
   outer_trimmed (js ''silence'') \<and>
   parseBackgroundPromptDecision
     ([0x20] @ js ''{"status":"Skip","reason":" silence "}'' @ [0xA]) =
     Skip (js ''silence'') (js ''{"status":"Skip","reason":" silence "}'') \<and>
   reply_field (js ''{"status":"generate","prompt":" "}'') (js ''status'') =
     Some (js ''generate'') \<and>
   ignoring_case (js ''generate'') (js ''generate'') \<and>
   reply_field (js ''{"status":"generate","prompt":" "}'') (js ''prompt'') = Some [0x20] \<and>
   parseBackgroundPromptDecision ([] @ js ''{"status":"generate","prompt":" "}'' @ []) =
     Skip (js ''Model indicated generation but omitted the prompt text.'')
       (js ''{"status":"generate","prompt":" "}'') \<and>
   outer_trimmed (js ''a lake at dusk'') \<and>
   reply_field (js ''a lake at dusk'') (js ''status'') = None \<and>
   parseBackgroundPromptDecision ([] @ js ''a lake at dusk'' @ []) =
     Generate (js ''a lake at dusk'') (js ''a lake at dusk'')\<close>
proof -
  have pads: "blank [0x20, 0x9]" "blank [0x20]" "blank [0xA]" "blank []"
    by (simp_all add: blank_def is_js_space_def)
  have p1: \<open>JSON_parse (js ''{"status":"Skip","reason":" silence "}'') =
      Some (JObject [(js ''status'', JString (js ''Skip'')),
                     (js ''reason'', JString ([0x20] @ js ''silence'' @ [0x20]))])\<close>
    by (simp add: json_eval)
  have f1: \<open>reply_field (js ''{"status":"Skip","reason":" silence "}'') (js ''status'') =
      Some (js ''Skip'')\<close>
    \<open>reply_field (js ''{"status":"Skip","reason":" silence "}'') (js ''reason'') =
      Some ([0x20] @ js ''silence'' @ [0x20])\<close>
    unfolding reply_field_def p1 by (simp_all add: js_Nil js_Cons)
  have o1: \<open>outer_trimmed (js ''{"status":"Skip","reason":" silence "}'')\<close>
    \<open>js ''{"status":"Skip","reason":" silence "}'' \<noteq> []\<close>
    "outer_trimmed (js ''silence'')" "js ''silence'' \<noteq> []"
    by (simp_all add: outer_trimmed_def is_js_space_def js_Nil js_Cons)
  have c1: "ignoring_case (js ''Skip'') (js ''skip'')"
    "ignoring_case (js ''generate'') (js ''generate'')"
    by (simp_all add: ignoring_case_def same_letter_def js_Nil js_Cons)
  note skip = C4_decision_by_cases
    [where rawText = "[0x20, 0x9]" and a = "[0x20]" and b = "[0xA]"
      and t = \<open>js ''{"status":"Skip","reason":" silence "}''\<close> and s = "js ''Skip''"
      and c = "[0x20]" and r = "js ''silence''" and d = "[0x20]" and x = "[]"]
  have p2: \<open>JSON_parse (js ''{"status":"generate","prompt":" "}'') =
      Some (JObject [(js ''status'', JString (js ''generate'')),
                     (js ''prompt'', JString [0x20])])\<close>
    by (simp add: json_eval)
  have f2: \<open>reply_field (js ''{"status":"generate","prompt":" "}'') (js ''status'') =
      Some (js ''generate'')\<close>
    \<open>reply_field (js ''{"status":"generate","prompt":" "}'') (js ''prompt'') = Some [0x20]\<close>
    unfolding reply_field_def p2 by (simp_all add: js_Nil js_Cons)
  have o2: \<open>outer_trimmed (js ''{"status":"generate","prompt":" "}'')\<close>
    \<open>js ''{"status":"generate","prompt":" "}'' \<noteq> []\<close>
    by (simp_all add: outer_trimmed_def is_js_space_def js_Nil js_Cons)
  note omitted = C4_decision_by_cases
    [where rawText = "[]" and a = "[]" and b = "[]"
      and t = \<open>js ''{"status":"generate","prompt":" "}''\<close> and s = "js ''generate''"
      and c = "[]" and r = "[]" and d = "[]" and x = "[0x20]"]
  have p3: "JSON_parse (js ''a lake at dusk'') = None"
    by (simp add: json_eval)
  have f3: "reply_field (js ''a lake at dusk'') (js ''status'') = None"
    unfolding reply_field_def p3 by simp
  have o3: "outer_trimmed (js ''a lake at dusk'')" "js ''a lake at dusk'' \<noteq> []"
    by (simp_all add: outer_trimmed_def is_js_space_def js_Nil js_Cons)
  note plain = C4_decision_by_cases
    [where rawText = "[]" and a = "[]" and b = "[]" and t = "js ''a lake at dusk''"
      and s = "[]" and c = "[]" and r = "[]" and d = "[]" and x = "[]"]
  have r1: \<open>parseBackgroundPromptDecision [0x20, 0x9] =
      Skip (js ''Model returned an empty response.'') []\<close>
    \<open>parseBackgroundPromptDecision
       ([0x20] @ js ''{"status":"Skip","reason":" silence "}'' @ [0xA]) =
     Skip (js ''silence'') (js ''{"status":"Skip","reason":" silence "}'')\<close>
    using skip pads f1 o1 c1 by blast+
  have r2: \<open>parseBackgroundPromptDecision ([] @ js ''{"status":"generate","prompt":" "}'' @ []) =
     Skip (js ''Model indicated generation but omitted the prompt text.'')
       (js ''{"status":"generate","prompt":" "}'')\<close>
    using omitted pads f2 o2 c1 by blast
  have r3: "parseBackgroundPromptDecision ([] @ js ''a lake at dusk'' @ []) =
     Generate (js ''a lake at dusk'') (js ''a lake at dusk'')"
    using plain pads f3 o3 by blast
  show ?thesis
    by (intro conjI) (fact pads f1 f2 f3 o1 o2 o3 c1 r1 r2 r3)+
qed
section \<open>Screen names (\<^verbatim>\<open>normalizeScreenName\<close> in the Hub and in the Zoom webview)\<close>

text \<open>
  The argument is any value that JSON or a query string can carry, or \<^verbatim>\<open>undefined\<close>
  (\<open>None\<close>). \<^verbatim>\<open>src/hub/index.js\<close> and \<^verbatim>\<open>src/hub/zoom_app.js\<close> each declare their own
  function; each is translated from its own file. Both return the string that
  \<^verbatim>\<open>toLowerCase\<close> made; the conversion is the parameter \<open>lower_case\<close>.
\<close>

definition hub_normalizeScreenName :: "(jsstring \<Rightarrow> jsstring) \<Rightarrow> json option \<Rightarrow> jsstring" where
  "hub_normalizeScreenName lower_case input =
     (case as_string input of
        None \<Rightarrow> js ''''
      | Some s \<Rightarrow> replace_space_runs (lower_case (trim s)))"




section \<open>The Hub's \<^verbatim>\<open>/api/register-agent\<close> handler\<close>

text \<open>
  The handler reads four fields of the JSON body (\<open>None\<close>: the field is absent) and talks
  to three collaborators: the Firestore document of the agent, the environment variables
  that hold the default key, and the agent's tunnel. What the collaborators answer is an
  input of the model: whether \<^verbatim>\<open>agentRef.set\<close> and \<^verbatim>\<open>agentRef.delete\<close> throw, and whether the
  \<open>n\<close>-th \<^verbatim>\<open>axios.post\<close> (counted from 0) resolves. The waits between the attempts take
  time and change nothing else. The conversion to lower case inside
  \<^verbatim>\<open>normalizeScreenName\<close> is the parameter \<open>lower_case\<close> of the handler.
\<close>

record register_body =
  req_screenName :: "json option"
  req_tunnelUrl :: "json option"
  req_requiresNanobananaKey :: "json option"
  req_hasLocalNanobananaKey :: "json option"

record hub_env =
  HUB_NANOBANANA_API_KEY :: "jsstring option"
  NANOBANANA_API_KEY :: "jsstring option"
  set_throws :: bool
  delete_throws :: bool
  post_resolves :: "nat \<Rightarrow> bool"

record agent_doc =
  doc_tunnelUrl :: "json option"
  doc_screenNameOriginal :: "json option"
  doc_requiresNanobananaKey :: bool
  doc_hasLocalNanobananaKey :: bool
  doc_usesHubNanobananaKey :: bool

datatype firestore_call = DocSet jsstring | DocDelete jsstring

record register_result =
  http_status :: nat
  http_body :: string
  firestore_calls :: "firestore_call list"
  agents :: "jsstring \<Rightarrow> agent_doc option"

definition digits_value :: "jsstring \<Rightarrow> nat" where
  "digits_value ds = foldl (\<lambda>n d. 10 * n + (d - 0x30)) 0 ds"

definition number_is_zero :: "jsstring \<Rightarrow> bool" where
  \<comment> \<open>whether a number literal denotes the double \<^verbatim>\<open>0\<close> or \<^verbatim>\<open>-0\<close>: its value
      \<open>m * 10^k\<close> is zero or, being at most \<open>2^-1075\<close>, half of the least positive
      double, rounds to zero\<close>
  "number_is_zero n =
     (let unsigned = (if take 1 n = [0x2D] then drop 1 n else n);
          significand = takeWhile (\<lambda>c. c \<noteq> 0x65 \<and> c \<noteq> 0x45) unsigned;
          exponent = drop 1 (dropWhile (\<lambda>c. c \<noteq> 0x65 \<and> c \<noteq> 0x45) unsigned);
          int_digits = takeWhile (\<lambda>c. c \<noteq> 0x2E) significand;
          frac_digits = drop 1 (dropWhile (\<lambda>c. c \<noteq> 0x2E) significand);
          m = digits_value (int_digits @ frac_digits);
          e = (if take 1 exponent = [0x2D] then - int (digits_value (drop 1 exponent))
               else if take 1 exponent = [0x2B] then int (digits_value (drop 1 exponent))
               else int (digits_value exponent));
          k = e - int (length frac_digits)
      in m = 0 \<or> (k < 0 \<and> m * 2 ^ 1075 \<le> 10 ^ nat (- k)))"

fun truthy :: "json option \<Rightarrow> bool" where
  "truthy None = False"
| "truthy (Some JNull) = False"
| "truthy (Some (JBool b)) = b"
| "truthy (Some (JNumber n)) = (\<not> number_is_zero n)"
| "truthy (Some (JString s)) = (s \<noteq> [])"
| "truthy (Some (JArray vs)) = True"
| "truthy (Some (JObject ms)) = True"

definition with_default :: "json option \<Rightarrow> json \<Rightarrow> json option" where
  \<comment> \<open>a destructuring default applies to \<^verbatim>\<open>undefined\<close> only\<close>
  "with_default v d = (case v of None \<Rightarrow> Some d | Some x \<Rightarrow> Some x)"

definition default_secret :: "hub_env \<Rightarrow> jsstring option" where
  \<comment> \<open>\<^verbatim>\<open>HUB_NANOBANANA_API_KEY?.trim() || NANOBANANA_API_KEY?.trim()\<close>, when truthy\<close>
  "default_secret env =
     (let fallback =
            (case NANOBANANA_API_KEY env of
               None \<Rightarrow> None
             | Some k \<Rightarrow> if trim k = [] then None else Some (trim k))
      in case HUB_NANOBANANA_API_KEY env of
           None \<Rightarrow> fallback
         | Some k \<Rightarrow> if trim k = [] then fallback else Some (trim k))"

definition maxAttempts :: nat where
  "maxAttempts = 15"

datatype delivery = Delivered nat | DeliveryFailed

text \<open>
  The retry loop of \<^verbatim>\<open>deliverDefaultNanobananaKey\<close>: \<open>Delivered n\<close> when the post of
  attempt \<open>n\<close> (from 0) resolves and the function returns, \<open>DeliveryFailed\<close> when the
  function throws.
\<close>

function deliver_attempts :: "(nat \<Rightarrow> bool) \<Rightarrow> nat \<Rightarrow> delivery" where
  "deliver_attempts post attempt =
     (if attempt < maxAttempts then
        (if post attempt then Delivered attempt
         else if attempt + 1 \<ge> maxAttempts then DeliveryFailed
         else deliver_attempts post (attempt + 1))
      else DeliveryFailed)"
  by pat_completeness auto
termination
  by (relation "measure (\<lambda>(post, attempt). maxAttempts - attempt)") auto

declare deliver_attempts.simps [simp del]

definition deliverDefaultNanobananaKey :: "hub_env \<Rightarrow> json option \<Rightarrow> delivery" where
  \<comment> \<open>no configured secret throws; \<^verbatim>\<open>tunnelUrl.replace\<close> throws unless the URL is a string\<close>
  "deliverDefaultNanobananaKey env url =
     (case default_secret env of
        None \<Rightarrow> DeliveryFailed
      | Some secret \<Rightarrow>
          (case as_string url of
             None \<Rightarrow> DeliveryFailed
           | Some u \<Rightarrow> deliver_attempts (post_resolves env) 0))"

definition needsDefaultNanobananaKey :: "register_body \<Rightarrow> bool" where
  "needsDefaultNanobananaKey b =
     (truthy (with_default (req_requiresNanobananaKey b) (JBool False)) \<and>
      \<not> truthy (with_default (req_hasLocalNanobananaKey b) (JBool False)))"

definition register_agent ::
  "(jsstring \<Rightarrow> jsstring) \<Rightarrow> hub_env \<Rightarrow> register_body \<Rightarrow> (jsstring \<Rightarrow> agent_doc option) \<Rightarrow>
   register_result" where
  "register_agent lower_case env b store =
     (let normalizedScreenName = hub_normalizeScreenName lower_case (req_screenName b) in
      if normalizedScreenName = [] \<or> \<not> truthy (req_tunnelUrl b) then
        \<lparr> http_status = 400, http_body = ''screenName and tunnelUrl are required.'',
          firestore_calls = [], agents = store \<rparr>
      else if set_throws env then
        \<lparr> http_status = 500, http_body = ''Failed to register agent.'',
          firestore_calls = [DocSet normalizedScreenName], agents = store \<rparr>
      else
        (let written = store (normalizedScreenName \<mapsto>
               \<lparr> doc_tunnelUrl = req_tunnelUrl b,
                 doc_screenNameOriginal = req_screenName b,
                 doc_requiresNanobananaKey =
                   truthy (with_default (req_requiresNanobananaKey b) (JBool False)),
                 doc_hasLocalNanobananaKey =
                   truthy (with_default (req_hasLocalNanobananaKey b) (JBool False)),
                 doc_usesHubNanobananaKey = needsDefaultNanobananaKey b \<rparr>)
         in if needsDefaultNanobananaKey b then
              (case deliverDefaultNanobananaKey env (req_tunnelUrl b) of
                 Delivered n \<Rightarrow>
                   \<lparr> http_status = 200, http_body = ''Agent registered successfully.'',
                     firestore_calls = [DocSet normalizedScreenName], agents = written \<rparr>
               | DeliveryFailed \<Rightarrow>
                   \<lparr> http_status = 500,
                     http_body = ''Failed to deliver default nanobanana key from Hub.'',
                     firestore_calls =
                       [DocSet normalizedScreenName, DocDelete normalizedScreenName],
                     agents = (if delete_throws env then written
                               else written (normalizedScreenName := None)) \<rparr>)
            else
              \<lparr> http_status = 200, http_body = ''Agent registered successfully.'',
                firestore_calls = [DocSet normalizedScreenName], agents = written \<rparr>))"

text \<open>
  A Hub whose key is configured and whose every post to the tunnel is rejected, and a
  registration that asks for the Hub's key.
\<close>

definition failing_env :: hub_env where
  "failing_env =
     \<lparr> HUB_NANOBANANA_API_KEY = Some (js ''hub-key''), NANOBANANA_API_KEY = None,
       set_throws = False, delete_throws = False, post_resolves = (\<lambda>n. False) \<rparr>"

definition key_request :: register_body where
  "key_request =
     \<lparr> req_screenName = Some (JString (js ''Jane Doe'')),
       req_tunnelUrl = Some (JString (js ''https://t.example'')),
       req_requiresNanobananaKey = Some (JBool True),
       req_hasLocalNanobananaKey = None \<rparr>"

subsection \<open>Properties of the registration handler\<close>

text \<open>
  Number literals that are falsy and truthy in a request body: a zero, a literal below
  half of the least positive double, and the least positive double itself.
\<close>

lemma number_is_zero_examples:
  "number_is_zero (js ''-0.0'') \<and> number_is_zero (js ''1e-400'') \<and>
   \<not> number_is_zero (js ''5e-324'') \<and> \<not> number_is_zero (js ''0.1'')"
  by (simp add: number_is_zero_def digits_value_def js_Nil js_Cons Let_def)

lemma deliver_attempts_all_fail:
  "\<forall>i. i < maxAttempts \<longrightarrow> \<not> post i \<Longrightarrow> deliver_attempts post attempt = DeliveryFailed"
proof (induction post attempt rule: deliver_attempts.induct)
  case (1 post attempt)
  show ?case
  proof (cases "attempt < maxAttempts")
    case True
    with "1.prems" have np: "\<not> post attempt" by simp
    show ?thesis
    proof (cases "attempt + 1 \<ge> maxAttempts")
      case True
      with \<open>attempt < maxAttempts\<close> np show ?thesis
        by (subst deliver_attempts.simps) simp
    next
      case False
      have "deliver_attempts post (attempt + 1) = DeliveryFailed"
        using "1.IH" [OF \<open>attempt < maxAttempts\<close> np False "1.prems"] .
      with \<open>attempt < maxAttempts\<close> np False show ?thesis
        by (subst deliver_attempts.simps) simp
    qed
  next
    case False
    then show ?thesis by (subst deliver_attempts.simps) simp
  qed
qed

lemma deliver_attempts_Delivered:
  "deliver_attempts post attempt = Delivered n \<Longrightarrow> post n \<and> attempt \<le> n \<and> n < maxAttempts"
proof (induction post attempt rule: deliver_attempts.induct)
  case (1 post attempt)
  show ?case
  proof (cases "attempt < maxAttempts \<and> \<not> post attempt \<and> \<not> attempt + 1 \<ge> maxAttempts")
    case True
    then have "deliver_attempts post (attempt + 1) = Delivered n"
      using "1.prems" by (subst (asm) deliver_attempts.simps) simp
    then have "post n \<and> attempt + 1 \<le> n \<and> n < maxAttempts"
      using "1.IH" True by simp
    then show ?thesis by simp
  next
    case False
    then show ?thesis
      using "1.prems" by (subst (asm) deliver_attempts.simps) (auto split: if_splits)
  qed
qed

text \<open>
  Claim C10: when the Hub's key is needed (\<^verbatim>\<open>requiresNanobananaKey\<close> truthy and
  \<^verbatim>\<open>hasLocalNanobananaKey\<close> falsy) and the delivery fails, the answer is never 200; the
  handler, which reached the delivery after writing the agent's document, answers 500 and
  calls \<^verbatim>\<open>delete\<close> on that document. When all fifteen posts are rejected the delivery
  fails. A 200 answer means that no Hub key was needed or that one of the fifteen posts
  went through.
\<close>

theorem C10_failed_delivery_never_succeeds:
  "(needsDefaultNanobananaKey b \<and>
      deliverDefaultNanobananaKey env (req_tunnelUrl b) = DeliveryFailed \<longrightarrow>
      http_status (register_agent lower_case env b store) \<noteq> 200 \<and>
      (hub_normalizeScreenName lower_case (req_screenName b) \<noteq> [] \<and> truthy (req_tunnelUrl b) \<and>
         \<not> set_throws env \<longrightarrow>
         http_status (register_agent lower_case env b store) = 500 \<and>
         http_body (register_agent lower_case env b store) =
           ''Failed to deliver default nanobanana key from Hub.'' \<and>
         firestore_calls (register_agent lower_case env b store) =
           [DocSet (hub_normalizeScreenName lower_case (req_screenName b)),
            DocDelete (hub_normalizeScreenName lower_case (req_screenName b))])) \<and>
   ((\<forall>i. i < maxAttempts \<longrightarrow> \<not> post_resolves env i) \<longrightarrow>
      deliverDefaultNanobananaKey env (req_tunnelUrl b) = DeliveryFailed) \<and>
   (http_status (register_agent lower_case env b store) = 200 \<longrightarrow>
      \<not> needsDefaultNanobananaKey b \<or>
      (\<exists>n. n < maxAttempts \<and> post_resolves env n \<and>
           deliverDefaultNanobananaKey env (req_tunnelUrl b) = Delivered n))"
proof -
  have a: "http_status (register_agent lower_case env b store) \<noteq> 200"
    if "needsDefaultNanobananaKey b"
      "deliverDefaultNanobananaKey env (req_tunnelUrl b) = DeliveryFailed"
    using that by (simp add: register_agent_def Let_def)
  have b: "http_status (register_agent lower_case env b store) = 500 \<and>
         http_body (register_agent lower_case env b store) =
           ''Failed to deliver default nanobanana key from Hub.'' \<and>
         firestore_calls (register_agent lower_case env b store) =
           [DocSet (hub_normalizeScreenName lower_case (req_screenName b)),
            DocDelete (hub_normalizeScreenName lower_case (req_screenName b))]"
    if "needsDefaultNanobananaKey b"
      "deliverDefaultNanobananaKey env (req_tunnelUrl b) = DeliveryFailed"
      "hub_normalizeScreenName lower_case (req_screenName b) \<noteq> []" "truthy (req_tunnelUrl b)"
      "\<not> set_throws env"
    using that by (simp add: register_agent_def Let_def)
  have c: "deliverDefaultNanobananaKey env (req_tunnelUrl b) = DeliveryFailed"
    if "\<forall>i. i < maxAttempts \<longrightarrow> \<not> post_resolves env i"
    using deliver_attempts_all_fail [OF that]
    by (simp add: deliverDefaultNanobananaKey_def split: option.splits)
  have d: "\<not> needsDefaultNanobananaKey b \<or>
      (\<exists>n. n < maxAttempts \<and> post_resolves env n \<and>
           deliverDefaultNanobananaKey env (req_tunnelUrl b) = Delivered n)"
    if ok: "http_status (register_agent lower_case env b store) = 200"
  proof (cases "needsDefaultNanobananaKey b")
    case False
    then show ?thesis by simp
  next
    case True
    with ok obtain n where n: "deliverDefaultNanobananaKey env (req_tunnelUrl b) = Delivered n"
      by (auto simp: register_agent_def Let_def split: if_splits delivery.splits)
    then have "deliver_attempts (post_resolves env) 0 = Delivered n"
      by (simp add: deliverDefaultNanobananaKey_def split: option.splits)
    from deliver_attempts_Delivered [OF this] n show ?thesis by blast
  qed
  from a b c d show ?thesis by blast
qed

theorem C10_failed_delivery_never_succeeds_witness:
  "needsDefaultNanobananaKey key_request \<and>
   deliverDefaultNanobananaKey failing_env (req_tunnelUrl key_request) = DeliveryFailed \<and>
   hub_normalizeScreenName toLowerCase (req_screenName key_request) = js ''jane doe'' \<and>
   http_status (register_agent toLowerCase failing_env key_request Map.empty) = 500 \<and>
   firestore_calls (register_agent toLowerCase failing_env key_request Map.empty) =
     [DocSet (js ''jane doe''), DocDelete (js ''jane doe'')]"
proof -
  have n: "needsDefaultNanobananaKey key_request"
    by (simp add: needsDefaultNanobananaKey_def key_request_def with_default_def)
  have p: "\<forall>i. i < maxAttempts \<longrightarrow> \<not> post_resolves failing_env i"
    by (simp add: failing_env_def)
  have s: "hub_normalizeScreenName toLowerCase (req_screenName key_request) = js ''jane doe''"
    by (simp add: hub_normalizeScreenName_def key_request_def as_string_def
        replace_space_runs_def trim_def toLowerCase_def lower_unit_def is_js_space_def
        js_Nil js_Cons)
  have t: "truthy (req_tunnelUrl key_request)"
    by (simp add: key_request_def js_Cons)
  have e: "\<not> set_throws failing_env"
    by (simp add: failing_env_def)
  have ne: "hub_normalizeScreenName toLowerCase (req_screenName key_request) \<noteq> []"
    by (simp add: s js_Cons)
  from C10_failed_delivery_never_succeeds [of key_request failing_env toLowerCase Map.empty] n p s t e ne
  show ?thesis by simp
qed

section \<open>The companion: numbers\<close>

text \<open>
  The companion (\<^verbatim>\<open>main.ts\<close>, carried in \<^verbatim>\<open>src/plan.md\<close>) keeps its state in
  module-level variables. Wheel positions and indices are JavaScript numbers that only
  ever hold integers or, after a read of a missing array element, \<^verbatim>\<open>NaN\<close>. A JavaScript
  number holds every integer of magnitude up to \<open>2^53\<close> and adds two of them without
  rounding while the sum stays in that range; \<open>js_add\<close> is this exact sum, and the
  statements about sums below keep their arguments within it. The remainder \<^verbatim>\<open>%\<close> is
  exact on all numbers.
\<close>

datatype jsnum = Num int | NaN

fun js_add :: "jsnum \<Rightarrow> int \<Rightarrow> jsnum" where
  "js_add (Num a) b = Num (a + b)"
| "js_add NaN b = NaN"

definition js_rem_int :: "int \<Rightarrow> int \<Rightarrow> int" where
  \<comment> \<open>The \<^verbatim>\<open>%\<close> operator on integers: the result has the sign of the dividend.\<close>
  "js_rem_int a b = sgn a * (\<bar>a\<bar> mod \<bar>b\<bar>)"

fun js_rem :: "jsnum \<Rightarrow> int \<Rightarrow> jsnum" where
  "js_rem (Num a) b = (if b = 0 then NaN else Num (js_rem_int a b))"
| "js_rem NaN b = NaN"

section \<open>The rotary wheels\<close>

definition CHARSET :: string where
  "CHARSET = '' @.-abcdefghijklmnopqrstuvwxyz0123456789''"

definition CHARSET_length :: int where
  "CHARSET_length = int (length CHARSET)"

definition WHEEL_COUNT :: int where
  "WHEEL_COUNT = 20"

text \<open>
  \<^verbatim>\<open>wheelPositions\<close> is a JavaScript array created with \<^verbatim>\<open>WHEEL_COUNT\<close> zeros. Reading an
  index that holds nothing gives \<^verbatim>\<open>undefined\<close>, which arithmetic turns into \<^verbatim>\<open>NaN\<close>;
  writing to any index stores the value there. The array is therefore a partial map from
  indices to numbers.
\<close>

record wheels =
  wheelPositions :: "int \<Rightarrow> jsnum option"
  activeWheelIndex :: int
  wheelsLocked :: bool

definition initial_wheels :: wheels where
  "initial_wheels =
     \<lparr> wheelPositions = (\<lambda>i. if 0 \<le> i \<and> i < WHEEL_COUNT then Some (Num 0) else None),
       activeWheelIndex = 0,
       wheelsLocked = False \<rparr>"

definition read_position :: "'a wheels_scheme \<Rightarrow> int \<Rightarrow> jsnum" where
  "read_position w i = (case wheelPositions w i of Some v \<Rightarrow> v | None \<Rightarrow> NaN)"

definition setActiveWheel :: "int \<Rightarrow> 'a wheels_scheme \<Rightarrow> 'a wheels_scheme" where
  \<comment> \<open>\<^verbatim>\<open>activeWheelIndex = ((index % WHEEL_COUNT) + WHEEL_COUNT) % WHEEL_COUNT\<close>\<close>
  "setActiveWheel index w =
     w\<lparr> activeWheelIndex :=
          js_rem_int (js_rem_int index WHEEL_COUNT + WHEEL_COUNT) WHEEL_COUNT \<rparr>"

definition adjustWheel :: "int \<Rightarrow> int \<Rightarrow> 'a wheels_scheme \<Rightarrow> 'a wheels_scheme" where
  \<comment> \<open>\<^verbatim>\<open>wheelPositions[index] = (wheelPositions[index] + delta + CHARSET.length) % CHARSET.length\<close>\<close>
  "adjustWheel index delta w =
     w\<lparr> wheelPositions := (wheelPositions w)
          (index \<mapsto> js_rem (js_add (js_add (read_position w index) delta) CHARSET_length)
                           CHARSET_length) \<rparr>"

text \<open>
  The two listeners that \<^verbatim>\<open>buildWheel\<close> attaches to wheel number \<open>index\<close>. The scroll
  listener turns by the sign of \<^verbatim>\<open>event.deltaY\<close>; the click listener turns up when the
  click lands above the middle of the wheel and down otherwise.
\<close>

definition onWheelScroll :: "int \<Rightarrow> real \<Rightarrow> 'a wheels_scheme \<Rightarrow> 'a wheels_scheme" where
  "onWheelScroll index deltaY w =
     (if wheelsLocked w then w
      else let direction = (if deltaY > 0 then 1 else - 1)
           in adjustWheel index direction (setActiveWheel index w))"

definition onWheelClick ::
  "int \<Rightarrow> real \<Rightarrow> real \<Rightarrow> real \<Rightarrow> 'a wheels_scheme \<Rightarrow> 'a wheels_scheme" where
  "onWheelClick index clientY rect_top rect_height w =
     (if wheelsLocked w then w
      else let midpoint = rect_top + rect_height / 2;
               direction = (if clientY < midpoint then - 1 else 1)
           in adjustWheel index direction (setActiveWheel index w))"

datatype wheel_op = Adjust int int | SetActive int

fun apply_wheel_op :: "wheel_op \<Rightarrow> 'a wheels_scheme \<Rightarrow> 'a wheels_scheme" where
  "apply_wheel_op (Adjust index delta) w = adjustWheel index delta w"
| "apply_wheel_op (SetActive index) w = setActiveWheel index w"

fun position_ok :: "jsnum \<Rightarrow> bool" where
  "position_ok (Num n) = (0 \<le> n \<and> n < CHARSET_length)"
| "position_ok NaN = False"

definition positions_in_range :: "'a wheels_scheme \<Rightarrow> bool" where
  "positions_in_range w = (\<forall>i v. wheelPositions w i = Some v \<longrightarrow> position_ok v)"

definition run_wheel_ops :: "wheel_op list \<Rightarrow> 'a wheels_scheme \<Rightarrow> 'a wheels_scheme" where
  "run_wheel_ops ops w = fold apply_wheel_op ops w"


text \<open>
  The range that the wheels are meant to keep: each of the \<^verbatim>\<open>WHEEL_COUNT\<close> elements of
  the array holds a position in \<open>[0, CHARSET.length)\<close>, the array has no other element,
  and the active index is the number of a wheel.
\<close>

definition wheels_in_range :: "'a wheels_scheme \<Rightarrow> bool" where
  "wheels_in_range w =
     ((\<forall>i. 0 \<le> i \<and> i < WHEEL_COUNT \<longrightarrow> position_ok (read_position w i)) \<and>
      (\<forall>i. i < 0 \<or> WHEEL_COUNT \<le> i \<longrightarrow> wheelPositions w i = None) \<and>
      0 \<le> activeWheelIndex w \<and> activeWheelIndex w < WHEEL_COUNT)"

text \<open>
  The calls whose arguments stay with the wheels: \<^verbatim>\<open>adjustWheel\<close> on one of the
  \<^verbatim>\<open>WHEEL_COUNT\<close> wheels, by a delta of at least \<^verbatim>\<open>-CHARSET.length\<close> and small enough for
  the sum to be exact, and \<^verbatim>\<open>setActiveWheel\<close> with any integer.
\<close>

fun op_in_domain :: "wheel_op \<Rightarrow> bool" where
  "op_in_domain (Adjust index delta) =
     (0 \<le> index \<and> index < WHEEL_COUNT \<and> - CHARSET_length \<le> delta \<and> delta < 2 ^ 52)"
| "op_in_domain (SetActive index) = True"
section \<open>Properties of the wheels\<close>

lemma CHARSET_length_40: "CHARSET_length = 40"
  by (simp add: CHARSET_length_def CHARSET_def)

lemma js_rem_int_nonneg: "0 \<le> a \<Longrightarrow> 0 < b \<Longrightarrow> js_rem_int a b = a mod b"
  by (cases "a = 0") (simp_all add: js_rem_int_def)

lemma js_rem_int_bounds:
  assumes "0 < b"
  shows "- b < js_rem_int a b \<and> js_rem_int a b < b"
proof -
  have m: "0 \<le> \<bar>a\<bar> mod b" "\<bar>a\<bar> mod b < b"
    using assms by simp_all
  have "js_rem_int a b = \<bar>a\<bar> mod b \<or> js_rem_int a b = - (\<bar>a\<bar> mod b) \<or> js_rem_int a b = 0"
    using assms by (auto simp: js_rem_int_def sgn_if)
  then show ?thesis
    using m assms by linarith
qed

lemma double_rem_in_range:
  assumes "0 < b"
  shows "0 \<le> js_rem_int (js_rem_int a b + b) b \<and> js_rem_int (js_rem_int a b + b) b < b"
proof -
  have "0 \<le> js_rem_int a b + b"
    using js_rem_int_bounds [OF assms, of a] by simp
  then have "js_rem_int (js_rem_int a b + b) b = (js_rem_int a b + b) mod b"
    using assms by (simp add: js_rem_int_nonneg)
  then show ?thesis using assms by simp
qed

lemma setActiveWheel_in_range:
  "0 \<le> activeWheelIndex (setActiveWheel index w) \<and>
   activeWheelIndex (setActiveWheel index w) < WHEEL_COUNT"
  using double_rem_in_range [of WHEEL_COUNT index]
  by (simp add: setActiveWheel_def WHEEL_COUNT_def)

lemma initial_wheels_in_range: "positions_in_range initial_wheels"
  by (simp add: positions_in_range_def initial_wheels_def CHARSET_length_40)

lemma adjustWheel_step_in_range:
  assumes "positions_in_range w" and "wheelPositions w index \<noteq> None"
    and "- CHARSET_length \<le> delta"
  shows "positions_in_range (adjustWheel index delta w)"
proof -
  from assms(1,2) obtain n where n: "wheelPositions w index = Some (Num n)" "0 \<le> n" "n < 40"
    unfolding positions_in_range_def CHARSET_length_40
    by (metis jsnum.exhaust option.exhaust position_ok.simps CHARSET_length_40)
  have "0 \<le> n + delta + 40"
    using n(2) assms(3) by (simp add: CHARSET_length_40)
  then have "js_rem_int (n + delta + 40) 40 = (n + delta + 40) mod 40"
    by (simp add: js_rem_int_nonneg)
  then have "position_ok (Num (js_rem_int (n + delta + 40) 40))"
    by (simp add: CHARSET_length_40)
  then show ?thesis
    using assms(1) n(1)
    by (simp add: positions_in_range_def adjustWheel_def read_position_def CHARSET_length_40)
qed

lemma wheels_in_range_position:
  assumes "wheels_in_range w" and "0 \<le> i" and "i < WHEEL_COUNT"
  obtains n where "wheelPositions w i = Some (Num n)" and "0 \<le> n" and "n < CHARSET_length"
proof -
  from assms have ok: "position_ok (read_position w i)"
    unfolding wheels_in_range_def by simp
  then obtain v where v: "wheelPositions w i = Some v"
    by (cases "wheelPositions w i") (simp_all add: read_position_def)
  with ok obtain n where "v = Num n" "0 \<le> n" "n < CHARSET_length"
    by (cases v) (simp_all add: read_position_def)
  with v that show thesis by simp
qed

lemma initial_wheels_valid: "wheels_in_range initial_wheels"
  by (simp add: wheels_in_range_def initial_wheels_def read_position_def CHARSET_length_40
      WHEEL_COUNT_def)

lemma adjustWheel_keeps_range:
  assumes "wheels_in_range w" and "0 \<le> index" and "index < WHEEL_COUNT"
    and "- CHARSET_length \<le> delta"
  shows "wheels_in_range (adjustWheel index delta w)"
proof -
  from assms(1-3) obtain n where n: "wheelPositions w index = Some (Num n)" "0 \<le> n" "n < 40"
    by (rule wheels_in_range_position) (simp add: CHARSET_length_40)
  have "0 \<le> n + delta + 40"
    using n(2) assms(4) by (simp add: CHARSET_length_40)
  then have "js_rem_int (n + delta + 40) 40 = (n + delta + 40) mod 40"
    by (simp add: js_rem_int_nonneg)
  then have ok: "position_ok (Num (js_rem_int (n + delta + 40) 40))"
    by (simp add: CHARSET_length_40)
  show ?thesis
    using assms(1-3) n(1) ok
    by (auto simp: wheels_in_range_def adjustWheel_def read_position_def CHARSET_length_40)
qed

lemma setActiveWheel_keeps_range:
  assumes "wheels_in_range w"
  shows "wheels_in_range (setActiveWheel index w)"
  using assms setActiveWheel_in_range [of index w]
  by (auto simp: wheels_in_range_def setActiveWheel_def read_position_def)

lemma apply_wheel_op_keeps_range:
  "wheels_in_range w \<Longrightarrow> op_in_domain op \<Longrightarrow> wheels_in_range (apply_wheel_op op w)"
  by (cases op) (simp_all add: adjustWheel_keeps_range setActiveWheel_keeps_range)

lemma run_wheel_ops_keeps_range:
  "wheels_in_range w \<Longrightarrow> list_all op_in_domain ops \<Longrightarrow> wheels_in_range (run_wheel_ops ops w)"
  unfolding run_wheel_ops_def
  by (induction ops arbitrary: w) (simp_all add: apply_wheel_op_keeps_range)

lemma onWheelScroll_keeps_range:
  "wheels_in_range w \<Longrightarrow> 0 \<le> index \<Longrightarrow> index < WHEEL_COUNT \<Longrightarrow>
   wheels_in_range (onWheelScroll index deltaY w)"
  by (simp add: onWheelScroll_def Let_def adjustWheel_keeps_range setActiveWheel_keeps_range
      CHARSET_length_40)

lemma onWheelClick_keeps_range:
  "wheels_in_range w \<Longrightarrow> 0 \<le> index \<Longrightarrow> index < WHEEL_COUNT \<Longrightarrow>
   wheels_in_range (onWheelClick index clientY rect_top rect_height w)"
  by (simp add: onWheelClick_def Let_def adjustWheel_keeps_range setActiveWheel_keeps_range
      CHARSET_length_40)

text \<open>
  Claim C6, as stated: after any sequence of \<^verbatim>\<open>adjustWheel\<close> and \<^verbatim>\<open>setActiveWheel\<close> calls,
  for every choice of integer arguments, every position is in \<open>[0, 40)\<close> and the active
  index is in \<open>[0, 20)\<close>. \<^verbatim>\<open>adjustWheel\<close> adds \<^verbatim>\<open>CHARSET.length\<close> only once before it takes
  the remainder, and it writes to whatever index it is given: from the initial state the
  one-call sequence \<^verbatim>\<open>adjustWheel(0, -41)\<close> stores \<open>(0 - 41 + 40) % 40 = -1\<close> in wheel 0,
  and the one-call sequence \<^verbatim>\<open>adjustWheel(25, 1)\<close> stores \<^verbatim>\<open>NaN\<close> in a new element 25.
\<close>

theorem C6_adjustWheel_leaves_range:
  "position_ok (read_position initial_wheels 0) \<and>
   read_position (run_wheel_ops [Adjust 0 (- 41)] initial_wheels) 0 = Num (- 1) \<and>
   \<not> position_ok (read_position (run_wheel_ops [Adjust 0 (- 41)] initial_wheels) 0) \<and>
   wheelPositions initial_wheels 25 = None \<and>
   wheelPositions (run_wheel_ops [Adjust 25 1] initial_wheels) 25 = Some NaN"
  by (simp add: run_wheel_ops_def initial_wheels_def adjustWheel_def read_position_def
      WHEEL_COUNT_def CHARSET_length_40 js_rem_int_def)
section \<open>The gesture recognizer\<close>

text \<open>
  Coordinates and times are JavaScript numbers; they are modelled as real numbers, so a
  comparison in the model is the comparison of the program whenever rounding does not
  decide it. The thresholds are the decimal constants of the source.
\<close>

datatype HandLabel = Left | Right

datatype HandSample = HandSample (sample_x: real) (sample_y: real) (sample_time: real)

datatype HandObservation = HandObservation (obs_label: HandLabel) (center_x: real) (center_y: real)

datatype NormalizedLandmark = NormalizedLandmark (lm_x: real) (lm_y: real) (lm_z: real)

datatype Category = Category (categoryName: string) (displayName: string)

record HandLandmarkerResult =
  result_landmarks :: "NormalizedLandmark list list option"
  result_handednesses :: "Category list list option"

datatype Command = SpinUp | SpinDown | NextDial | PrevDial | Clap

text \<open>
  The texts that \<^verbatim>\<open>setGestureStatus\<close> shows, in the order of the constructors:
  "Gestures inactive.", "Gestures locked while agent active.", "Gestures ready.",
  "Gestures paused.", "Hands not detected.", "Palms closed - move freely.", "Wheel up",
  "Wheel down", "Next wheel", "Previous wheel", "Clap detected - submitting" and
  "Hands ready.".
\<close>

datatype gesture_status =
    GesturesInactive | GesturesLockedStatus | GesturesReady | GesturesPaused
  | HandsNotDetected | PalmsClosed | WheelUp | WheelDown | NextWheel | PreviousWheel
  | ClapDetected | HandsReady

definition GESTURE_HISTORY_WINDOW_MS :: real where "GESTURE_HISTORY_WINDOW_MS = 350"
definition GESTURE_IDLE_STATUS_DELAY_MS :: real where "GESTURE_IDLE_STATUS_DELAY_MS = 1000"
definition SWIPE_MIN_DISPLACEMENT :: real where "SWIPE_MIN_DISPLACEMENT = 0.12"
definition WHEEL_ADJUST_COOLDOWN_MS :: real where "WHEEL_ADJUST_COOLDOWN_MS = 400"
definition WHEEL_SWITCH_COOLDOWN_MS :: real where "WHEEL_SWITCH_COOLDOWN_MS = 400"
definition CLAP_COOLDOWN_MS :: real where "CLAP_COOLDOWN_MS = 2000"
definition CLAP_DISTANCE_THRESHOLD :: real where "CLAP_DISTANCE_THRESHOLD = 0.12"
definition CLAP_DELTA_THRESHOLD :: real where "CLAP_DELTA_THRESHOLD = - 0.06"
definition CLAP_MAX_INTERVAL_MS :: real where "CLAP_MAX_INTERVAL_MS = 250"
definition FINGER_EXTENSION_MIN_DELTA :: real where "FINGER_EXTENSION_MIN_DELTA = 0.015"
definition PALM_OPEN_MIN_AVG_TIP_DISTANCE :: real where "PALM_OPEN_MIN_AVG_TIP_DISTANCE = 0.18"

record recognizer = wheels +
  gesturesLocked :: bool
  permissionsGranted :: bool
  gestureLoopRunning :: bool
  handHistories :: "HandLabel \<Rightarrow> HandSample list"
  lastTwoHandDistance :: "(real \<times> real) option"
  lastWheelAdjustTime :: real
  lastWheelSwitchTime :: real
  lastClapTime :: real
  currentGestureStatus :: gesture_status
  lastGestureStatusTime :: real

definition hypot :: "real \<Rightarrow> real \<Rightarrow> real" where
  "hypot a b = sqrt (a\<^sup>2 + b\<^sup>2)"

definition nth_opt :: "'a list \<Rightarrow> nat \<Rightarrow> 'a option" where
  \<comment> \<open>an array element, or \<^verbatim>\<open>undefined\<close> past the end\<close>
  "nth_opt xs i = (if i < length xs then Some (xs ! i) else None)"

definition setGestureStatus ::
  "gesture_status \<Rightarrow> real \<Rightarrow> 'a recognizer_scheme \<Rightarrow> 'a recognizer_scheme" where
  "setGestureStatus message timestamp r =
     r\<lparr> currentGestureStatus := message, lastGestureStatusTime := timestamp \<rparr>"

definition pushHandSample ::
  "HandLabel \<Rightarrow> HandSample \<Rightarrow> 'a recognizer_scheme \<Rightarrow> 'a recognizer_scheme" where
  "pushHandSample label sample r =
     (let cutoff = sample_time sample - GESTURE_HISTORY_WINDOW_MS
      in r\<lparr> handHistories := (handHistories r)
              (label := dropWhile (\<lambda>h. sample_time h < cutoff) (handHistories r label @ [sample])) \<rparr>)"

definition clearHandHistory :: "HandLabel \<Rightarrow> 'a recognizer_scheme \<Rightarrow> 'a recognizer_scheme" where
  "clearHandHistory label r = r\<lparr> handHistories := (handHistories r) (label := []) \<rparr>"

definition fingerPairs :: "(nat \<times> nat) list" where
  "fingerPairs = [(8, 6), (12, 10), (16, 14), (20, 18)]"

definition finger_extended :: "NormalizedLandmark list \<Rightarrow> nat \<times> nat \<Rightarrow> bool" where
  "finger_extended landmarks pair =
     (case (nth_opt landmarks (fst pair), nth_opt landmarks (snd pair)) of
        (Some tip, Some pip) \<Rightarrow> lm_y pip - lm_y tip > FINGER_EXTENSION_MIN_DELTA
      | _ \<Rightarrow> False)"

definition isPalmOpen :: "NormalizedLandmark list \<Rightarrow> bool" where
  "isPalmOpen landmarks =
     (if landmarks = [] then False
      else
        (let extendedCount = length (filter (finger_extended landmarks) fingerPairs)
         in case nth_opt landmarks 0 of
              None \<Rightarrow> extendedCount \<ge> 3
            | Some wrist \<Rightarrow>
                (let tips = List.map_filter (\<lambda>pair. nth_opt landmarks (fst pair)) fingerPairs;
                     total = sum_list (map (\<lambda>tip. hypot (lm_x tip - lm_x wrist)
                                                         (lm_y tip - lm_y wrist)) tips);
                     avgTipDistance = (if length tips > 0 then total / real (length tips)
                                       else total)
                 in extendedCount \<ge> 3 \<and> avgTipDistance \<ge> PALM_OPEN_MIN_AVG_TIP_DISTANCE)))"

definition hand_label :: "Category list list option \<Rightarrow> nat \<Rightarrow> HandLabel option" where
  \<comment> \<open>from \<^verbatim>\<open>result.handednesses?.[index]?.[0]\<close>\<close>
  "hand_label handednesses index =
     (case handednesses of
        None \<Rightarrow> None
      | Some hs \<Rightarrow>
          (case nth_opt hs index of
             None \<Rightarrow> None
           | Some categories \<Rightarrow>
               (case nth_opt categories 0 of
                  None \<Rightarrow> None
                | Some handedness \<Rightarrow>
                    if categoryName handedness = ''Left'' \<or> displayName handedness = ''Left''
                    then Some Left
                    else if categoryName handedness = ''Right'' \<or>
                            displayName handedness = ''Right''
                    then Some Right
                    else None)))"

definition palm_center :: "NormalizedLandmark list \<Rightarrow> real \<times> real" where
  "palm_center normalized =
     (let count = (if length normalized = 0 then 1 else real (length normalized))
      in (sum_list (map lm_x normalized) / count, sum_list (map lm_y normalized) / count))"

text \<open>
  What the callback of \<^verbatim>\<open>result.landmarks.forEach\<close> does with one hand: the labels seen,
  the observations of open palms, whether a closed palm was seen, and the recognizer.
\<close>

type_synonym 'a hand_scan = "HandLabel list \<times> HandObservation list \<times> bool \<times> 'a recognizer_scheme"

definition observe_hand ::
  "Category list list option \<Rightarrow> real \<Rightarrow> NormalizedLandmark list \<times> nat \<Rightarrow> 'a hand_scan \<Rightarrow> 'a hand_scan"
  where
  "observe_hand handednesses now hand scan =
     (case scan of (seenLabels, observations, closedPalmDetected, r) \<Rightarrow>
        (case hand_label handednesses (snd hand) of
           None \<Rightarrow> scan
         | Some label \<Rightarrow>
             if \<not> isPalmOpen (fst hand)
             then (seenLabels @ [label], observations, True, clearHandHistory label r)
             else
               (let center = palm_center (fst hand)
                in (seenLabels @ [label],
                    observations @ [HandObservation label (fst center) (snd center)],
                    closedPalmDetected,
                    pushHandSample label (HandSample (fst center) (snd center) now) r))))"

definition getRecentDisplacement :: "HandSample list \<Rightarrow> (real \<times> real \<times> real) option" where
  "getRecentDisplacement history =
     (if length history < 2 then None
      else
        (let first = hd history; lst = last history;
             elapsedMs = sample_time lst - sample_time first
         in if elapsedMs \<le> 0 then None
            else Some (sample_x lst - sample_x first, sample_y lst - sample_y first, elapsedMs)))"

definition vertical_swipe :: "HandSample list \<Rightarrow> int option" where
  \<comment> \<open>the delta that the spin branch passes to \<^verbatim>\<open>adjustWheel\<close> for one hand, if it breaks\<close>
  "vertical_swipe history =
     (case getRecentDisplacement history of
        None \<Rightarrow> None
      | Some (dx, dy, elapsedMs) \<Rightarrow>
          if elapsedMs \<le> GESTURE_HISTORY_WINDOW_MS \<and> \<bar>dy\<bar> \<ge> SWIPE_MIN_DISPLACEMENT \<and> \<bar>dy\<bar> > \<bar>dx\<bar>
          then (if dy \<le> - SWIPE_MIN_DISPLACEMENT then Some (- 1)
                else if dy \<ge> SWIPE_MIN_DISPLACEMENT then Some 1
                else None)
          else None)"

definition horizontal_swipe :: "HandSample list \<Rightarrow> int option" where
  \<comment> \<open>the step that the switch branch adds to \<^verbatim>\<open>activeWheelIndex\<close> for one hand, if it breaks\<close>
  "horizontal_swipe history =
     (case getRecentDisplacement history of
        None \<Rightarrow> None
      | Some (dx, dy, elapsedMs) \<Rightarrow>
          if elapsedMs \<le> GESTURE_HISTORY_WINDOW_MS \<and> \<bar>dx\<bar> \<ge> SWIPE_MIN_DISPLACEMENT \<and> \<bar>dx\<bar> > \<bar>dy\<bar>
          then (if dx \<le> - SWIPE_MIN_DISPLACEMENT then Some 1
                else if dx \<ge> SWIPE_MIN_DISPLACEMENT then Some (- 1)
                else None)
          else None)"

fun first_swipe ::
  "(HandSample list \<Rightarrow> int option) \<Rightarrow> (HandLabel \<Rightarrow> HandSample list) \<Rightarrow> HandObservation list \<Rightarrow> int option"
  where
  "first_swipe swipe histories [] = None"
| "first_swipe swipe histories (ob # obs) =
     (case swipe (histories (obs_label ob)) of
        Some d \<Rightarrow> Some d
      | None \<Rightarrow> first_swipe swipe histories obs)"

text \<open>
  \<^verbatim>\<open>handleClapDetection\<close> returns whether a clap fired; when it fires it calls
  \<^verbatim>\<open>handleClapSubmit\<close>, which the frame records as the command \<open>Clap\<close>.
\<close>

definition handleClapDetection ::
  "HandObservation list \<Rightarrow> real \<Rightarrow> 'a recognizer_scheme \<Rightarrow> bool \<times> 'a recognizer_scheme" where
  "handleClapDetection centers now r =
     (case (find (\<lambda>entry. obs_label entry = Left) centers,
            find (\<lambda>entry. obs_label entry = Right) centers) of
        (Some left, Some right) \<Rightarrow>
          (let distance = hypot (center_x left - center_x right) (center_y left - center_y right);
               fires =
                 (case lastTwoHandDistance r of
                    None \<Rightarrow> False
                  | Some (lastDistance, lastTime) \<Rightarrow>
                      now - lastTime \<le> CLAP_MAX_INTERVAL_MS \<and>
                      distance - lastDistance \<le> CLAP_DELTA_THRESHOLD \<and>
                      distance \<le> CLAP_DISTANCE_THRESHOLD \<and>
                      now - lastClapTime r > CLAP_COOLDOWN_MS)
           in if fires
              then (True, setGestureStatus ClapDetected now
                            (r\<lparr> lastClapTime := now, lastTwoHandDistance := None \<rparr>))
              else (False, r\<lparr> lastTwoHandDistance := Some (distance, now) \<rparr>))
      | _ \<Rightarrow> (False, r\<lparr> lastTwoHandDistance := None \<rparr>))"

definition spin_branch ::
  "HandObservation list \<Rightarrow> real \<Rightarrow> 'a recognizer_scheme \<Rightarrow> Command option \<times> 'a recognizer_scheme"
  where
  "spin_branch observations now r =
     (if now - lastWheelAdjustTime r > WHEEL_ADJUST_COOLDOWN_MS then
        (case first_swipe vertical_swipe (handHistories r) observations of
           None \<Rightarrow> (None, r)
         | Some delta \<Rightarrow>
             (Some (if delta < 0 then SpinUp else SpinDown),
              (setGestureStatus (if delta < 0 then WheelUp else WheelDown) now
                 (adjustWheel (activeWheelIndex r) delta r))\<lparr> lastWheelAdjustTime := now \<rparr>))
      else (None, r))"

definition switch_branch ::
  "HandObservation list \<Rightarrow> real \<Rightarrow> 'a recognizer_scheme \<Rightarrow> Command option \<times> 'a recognizer_scheme"
  where
  "switch_branch observations now r =
     (if now - lastWheelSwitchTime r > WHEEL_SWITCH_COOLDOWN_MS then
        (case first_swipe horizontal_swipe (handHistories r) observations of
           None \<Rightarrow> (None, r)
         | Some step \<Rightarrow>
             (Some (if step > 0 then NextDial else PrevDial),
              (setGestureStatus (if step > 0 then NextWheel else PreviousWheel) now
                 (setActiveWheel (activeWheelIndex r + step) r))\<lparr> lastWheelSwitchTime := now \<rparr>))
      else (None, r))"

definition idle_status ::
  "gesture_status \<Rightarrow> real \<Rightarrow> 'a recognizer_scheme \<Rightarrow> 'a recognizer_scheme" where
  "idle_status message now r =
     (if now - lastGestureStatusTime r > GESTURE_IDLE_STATUS_DELAY_MS
      then setGestureStatus message now r else r)"

definition detected_hands :: "HandLandmarkerResult option \<Rightarrow> NormalizedLandmark list list" where
  "detected_hands result =
     (case result of
        None \<Rightarrow> []
      | Some res \<Rightarrow> (case result_landmarks res of None \<Rightarrow> [] | Some hands \<Rightarrow> hands))"

definition command_list :: "Command option \<Rightarrow> Command list" where
  "command_list c = (case c of None \<Rightarrow> [] | Some x \<Rightarrow> [x])"

text \<open>
  One frame. The result pairs the commands that the frame issued, in the order of the
  calls (\<^verbatim>\<open>adjustWheel\<close> or \<^verbatim>\<open>setActiveWheel\<close> on the active wheel, then
  \<^verbatim>\<open>handleClapSubmit\<close>), with the recognizer after the frame.
\<close>

definition processHandLandmarks ::
  "HandLandmarkerResult option \<Rightarrow> real \<Rightarrow> 'a recognizer_scheme \<Rightarrow> Command list \<times> 'a recognizer_scheme"
  where
  "processHandLandmarks result now r =
     (if gesturesLocked r then ([], r)
      else if detected_hands result = [] then
        ([], idle_status HandsNotDetected now
               ((clearHandHistory Right (clearHandHistory Left r))\<lparr> lastTwoHandDistance := None \<rparr>))
      else
        (case fold (observe_hand (case result of None \<Rightarrow> None | Some res \<Rightarrow> result_handednesses res) now)
                (zip (detected_hands result) [0..<length (detected_hands result)])
                ([], [], False, r) of
           (seenLabels, observations, closedPalmDetected, r1) \<Rightarrow>
             (let r2 = fold (\<lambda>label s. if label \<in> set seenLabels then s else clearHandHistory label s)
                         [Left, Right] r1
              in if observations = [] then
                   ([], idle_status (if closedPalmDetected then PalmsClosed else HandsNotDetected) now
                          (r2\<lparr> lastTwoHandDistance := None \<rparr>))
                 else
                   (case spin_branch observations now r2 of
                      (spin, r3) \<Rightarrow>
                        (case (if spin = None then switch_branch observations now r3
                               else (None, r3)) of
                           (switch, r4) \<Rightarrow>
                             (case handleClapDetection observations now r4 of
                                (clapTriggered, r5) \<Rightarrow>
                                  (command_list spin @ command_list switch @
                                     (if clapTriggered then [Clap] else []),
                                   if spin = None \<and> switch = None \<and> \<not> clapTriggered
                                   then idle_status HandsReady now r5 else r5)))))))"

text \<open>
  The recognizer when the gesture loop has just started on fresh wheels: permissions
  granted, nothing seen yet, every time stamp still 0.
\<close>

definition ready_recognizer :: recognizer where
  "ready_recognizer =
     \<lparr> wheelPositions = wheelPositions initial_wheels,
       activeWheelIndex = 0,
       wheelsLocked = False,
       gesturesLocked = False,
       permissionsGranted = True,
       gestureLoopRunning = True,
       handHistories = (\<lambda>label. []),
       lastTwoHandDistance = None,
       lastWheelAdjustTime = 0,
       lastWheelSwitchTime = 0,
       lastClapTime = 0,
       currentGestureStatus = GesturesReady,
       lastGestureStatusTime = 0 \<rparr>"

text \<open>
  An open hand around the point \<open>(cx, cy)\<close>: the wrist (landmark 0) below it, the four
  finger tips (8, 12, 16, 20) above their middle joints (6, 10, 14, 18), and the mean of
  the 21 landmarks at the point.
\<close>

definition open_hand :: "real \<Rightarrow> real \<Rightarrow> NormalizedLandmark list" where
  "open_hand cx cy =
     (let wrist = NormalizedLandmark cx (cy + 0.2) 0;
          tip = NormalizedLandmark cx (cy - 0.15) 0;
          pip = NormalizedLandmark cx (cy - 0.05) 0;
          other = NormalizedLandmark cx (cy + 0.05) 0
      in [wrist, other, other, other, other, other, pip, other, tip, other, pip,
          other, tip, other, pip, other, tip, other, pip, other, tip])"

definition two_hands :: "real \<Rightarrow> real \<Rightarrow> real \<Rightarrow> real \<Rightarrow> HandLandmarkerResult option" where
  "two_hands lx ly rx ry =
     Some \<lparr> result_landmarks = Some [open_hand lx ly, open_hand rx ry],
            result_handednesses = Some [[Category ''Left'' ''Left''], [Category ''Right'' ''Right'']] \<rparr>"

definition after_first_frame :: recognizer where
  "after_first_frame = snd (processHandLandmarks (two_hands 0.5 0.3 0.5 0.6) 3000 ready_recognizer)"

subsection \<open>Properties of the recognizer\<close>

lemma hypot_vertical: "hypot 0 b = \<bar>b\<bar>"
  by (simp add: hypot_def)

lemma isPalmOpen_open_hand: "isPalmOpen (open_hand cx cy)"
  by (simp add: isPalmOpen_def open_hand_def Let_def fingerPairs_def finger_extended_def
      nth_opt_def List.map_filter_def hypot_vertical FINGER_EXTENSION_MIN_DELTA_def
      PALM_OPEN_MIN_AVG_TIP_DISTANCE_def)

lemma palm_center_open_hand: "palm_center (open_hand cx cy) = (cx, cy)"
  by (simp add: palm_center_def open_hand_def Let_def)

lemma spin_branch_command:
  "spin_branch observations now r = (c, r') \<Longrightarrow> c = None \<or> c = Some SpinUp \<or> c = Some SpinDown"
  by (auto simp: spin_branch_def split: option.splits if_splits)

lemma switch_branch_command:
  "switch_branch observations now r = (c, r') \<Longrightarrow> c = None \<or> c = Some NextDial \<or> c = Some PrevDial"
  by (auto simp: switch_branch_def split: option.splits if_splits)

lemma frame_commands_shape:
  "\<exists>spin switch clap.
     fst (processHandLandmarks result now r) =
       command_list spin @ command_list switch @ (if clap then [Clap] else []) \<and>
     (spin = None \<or> spin = Some SpinUp \<or> spin = Some SpinDown) \<and>
     (switch = None \<or> (spin = None \<and> (switch = Some NextDial \<or> switch = Some PrevDial)))"
proof -
  have empty: "\<exists>spin switch clap.
     [] = command_list spin @ command_list switch @ (if clap then [Clap] else []) \<and>
     (spin = None \<or> spin = Some SpinUp \<or> spin = Some SpinDown) \<and>
     (switch = None \<or> (spin = None \<and> (switch = Some NextDial \<or> switch = Some PrevDial)))"
    by (rule exI [of _ None], rule exI [of _ None], rule exI [of _ False])
      (simp add: command_list_def)
  show ?thesis
  proof (cases "gesturesLocked r \<or> detected_hands result = []")
    case True
    then have "fst (processHandLandmarks result now r) = []"
      by (auto simp: processHandLandmarks_def)
    with empty show ?thesis by simp
  next
    case False
    obtain seenLabels observations closedPalmDetected r1 where scan:
      "fold (observe_hand (case result of None \<Rightarrow> None | Some res \<Rightarrow> result_handednesses res) now)
         (zip (detected_hands result) [0..<length (detected_hands result)])
         ([], [], False, r) = (seenLabels, observations, closedPalmDetected, r1)"
      by (metis prod_cases4)
    define r2 where "r2 = fold (\<lambda>label s. if label \<in> set seenLabels then s else clearHandHistory label s)
                         [Left, Right] r1"
    show ?thesis
    proof (cases "observations = []")
      case True
      then have "fst (processHandLandmarks result now r) = []"
        using False scan by (simp add: processHandLandmarks_def Let_def)
      with empty show ?thesis by simp
    next
      case nonempty: False
      obtain spin r3 where spin: "spin_branch observations now r2 = (spin, r3)"
        by (cases "spin_branch observations now r2")
      obtain switch r4 where switch:
        "(if spin = None then switch_branch observations now r3 else (None, r3)) = (switch, r4)"
        by (cases "if spin = None then switch_branch observations now r3 else (None, r3)")
      obtain clap r5 where clap: "handleClapDetection observations now r4 = (clap, r5)"
        by (cases "handleClapDetection observations now r4")
      have cmds: "fst (processHandLandmarks result now r) =
          command_list spin @ command_list switch @ (if clap then [Clap] else [])"
        using False scan nonempty spin switch clap
        by (simp add: processHandLandmarks_def Let_def r2_def)
      have s1: "spin = None \<or> spin = Some SpinUp \<or> spin = Some SpinDown"
        using spin by (rule spin_branch_command)
      have s2: "switch = None \<or> (spin = None \<and> (switch = Some NextDial \<or> switch = Some PrevDial))"
      proof (cases "spin = None")
        case True
        with switch have "switch_branch observations now r3 = (switch, r4)" by simp
        from switch_branch_command [OF this] True show ?thesis by blast
      next
        case False
        with switch show ?thesis by simp
      qed
      from cmds s1 s2 show ?thesis by blast
    qed
  qed
qed

text \<open>
  What a frame can issue at all: at most one spin or switch command, a vertical swipe
  taking priority over a horizontal one, and after it at most one clap.
\<close>

lemma frame_commands_enumerated:
  "fst (processHandLandmarks result now r) \<in>
     set [[], [SpinUp], [SpinDown], [NextDial], [PrevDial], [Clap],
          [SpinUp, Clap], [SpinDown, Clap], [NextDial, Clap], [PrevDial, Clap]]"
proof -
  from frame_commands_shape [of result now r] obtain spin switch clap where
    c: "fst (processHandLandmarks result now r) =
          command_list spin @ command_list switch @ (if clap then [Clap] else [])" and
    s1: "spin = None \<or> spin = Some SpinUp \<or> spin = Some SpinDown" and
    s2: "switch = None \<or> (spin = None \<and> (switch = Some NextDial \<or> switch = Some PrevDial))"
    by blast
  from s1 s2 show ?thesis
    unfolding c by (cases clap) (auto simp: command_list_def)
qed


text \<open>
  Claim C2: a frame issues at most one command, and a frame whose vertical or horizontal
  swipe already issued a command does not also fire a clap. The switch branch of
  \<^verbatim>\<open>processHandLandmarks\<close> is held back by \<^verbatim>\<open>!gestureHandled\<close>, but the call of
  \<^verbatim>\<open>handleClapDetection\<close> that follows is not. Two frames 100 ms apart: both palms
  open, the left hand \<open>0.3\<close> above the right one, then the left hand \<open>0.2\<close> lower and
  \<open>0.1\<close> above the right one. The first frame issues nothing; the second turns the active
  wheel down and fires the clap.
\<close>

theorem C2_swipe_and_clap_in_one_frame:
  "fst (processHandLandmarks (two_hands 0.5 0.3 0.5 0.6) 3000 ready_recognizer) = [] \<and>
   fst (processHandLandmarks (two_hands 0.5 0.5 0.5 0.6) 3100 after_first_frame) = [SpinDown, Clap]"
proof -
  have upt2: "[0..<2] = [0, Suc 0]"
    by (simp add: numeral_2_eq_2)
  have hands: "detected_hands (two_hands lx ly rx ry) = [open_hand lx ly, open_hand rx ry]"
    for lx ly rx ry
    by (simp add: detected_hands_def two_hands_def)
  have labels:
    "hand_label (Some [[Category ''Left'' ''Left''], [Category ''Right'' ''Right'']]) 0 = Some Left"
    "hand_label (Some [[Category ''Left'' ''Left''], [Category ''Right'' ''Right'']]) (Suc 0) = Some Right"
    by (simp_all add: hand_label_def nth_opt_def)
  have scan: "observe_hand (Some [[Category ''Left'' ''Left''], [Category ''Right'' ''Right'']]) now
       (open_hand rx ry, Suc 0)
       (observe_hand (Some [[Category ''Left'' ''Left''], [Category ''Right'' ''Right'']]) now
          (open_hand lx ly, 0) ([], [], False, r)) =
     ([Left, Right], [HandObservation Left lx ly, HandObservation Right rx ry], False,
      pushHandSample Right (HandSample rx ry now) (pushHandSample Left (HandSample lx ly now) r))"
    for now lx ly rx ry and r :: recognizer
    by (simp add: observe_hand_def labels isPalmOpen_open_hand palm_center_open_hand)
  have first: "processHandLandmarks (two_hands 0.5 0.3 0.5 0.6) 3000 ready_recognizer =
     ([], ready_recognizer
        \<lparr> handHistories := (\<lambda>label. [])
             (Left := [HandSample 0.5 0.3 3000], Right := [HandSample 0.5 0.6 3000]),
          lastTwoHandDistance := Some (0.3, 3000),
          currentGestureStatus := HandsReady,
          lastGestureStatusTime := 3000 \<rparr>)"
    unfolding processHandLandmarks_def hands
    apply (simp add: upt2 two_hands_def scan Let_def)
    apply (simp add: ready_recognizer_def pushHandSample_def GESTURE_HISTORY_WINDOW_MS_def
        spin_branch_def switch_branch_def vertical_swipe_def horizontal_swipe_def
        getRecentDisplacement_def handleClapDetection_def hypot_vertical idle_status_def
        setGestureStatus_def GESTURE_IDLE_STATUS_DELAY_MS_def WHEEL_ADJUST_COOLDOWN_MS_def
        WHEEL_SWITCH_COOLDOWN_MS_def command_list_def Let_def fun_upd_twist)
    done
  have state: "after_first_frame = ready_recognizer
        \<lparr> handHistories := (\<lambda>label. [])
             (Left := [HandSample 0.5 0.3 3000], Right := [HandSample 0.5 0.6 3000]),
          lastTwoHandDistance := Some (0.3, 3000),
          currentGestureStatus := HandsReady,
          lastGestureStatusTime := 3000 \<rparr>"
    unfolding after_first_frame_def first by simp
  have second: "fst (processHandLandmarks (two_hands 0.5 0.5 0.5 0.6) 3100 after_first_frame) =
      [SpinDown, Clap]"
    unfolding processHandLandmarks_def hands state
    apply (simp add: upt2 two_hands_def scan Let_def)
    apply (simp add: ready_recognizer_def pushHandSample_def GESTURE_HISTORY_WINDOW_MS_def
        spin_branch_def switch_branch_def vertical_swipe_def horizontal_swipe_def
        getRecentDisplacement_def handleClapDetection_def hypot_vertical idle_status_def
        setGestureStatus_def GESTURE_IDLE_STATUS_DELAY_MS_def WHEEL_ADJUST_COOLDOWN_MS_def
        WHEEL_SWITCH_COOLDOWN_MS_def SWIPE_MIN_DISPLACEMENT_def CLAP_MAX_INTERVAL_MS_def
        CLAP_DELTA_THRESHOLD_def CLAP_DISTANCE_THRESHOLD_def CLAP_COOLDOWN_MS_def
        adjustWheel_def command_list_def Let_def)
    done
  from first second show ?thesis by simp
qed


subsection \<open>What a frame does to the wheels and the locks\<close>

text \<open>
  \<open>keeps_dial r r'\<close>: the step from \<open>r\<close> to \<open>r'\<close> leaves both locks as they are and
  keeps the wheels in range when they were.
\<close>

definition keeps_dial :: "'a recognizer_scheme \<Rightarrow> 'a recognizer_scheme \<Rightarrow> bool" where
  "keeps_dial r r' =
     ((wheels_in_range r \<longrightarrow> wheels_in_range r') \<and>
      wheelsLocked r' = wheelsLocked r \<and> gesturesLocked r' = gesturesLocked r)"

lemma keeps_dial_refl: "keeps_dial r r"
  by (simp add: keeps_dial_def)

lemma keeps_dial_trans: "keeps_dial a b \<Longrightarrow> keeps_dial b c \<Longrightarrow> keeps_dial a c"
  by (simp add: keeps_dial_def)

lemma keeps_dial_same:
  assumes "wheelPositions r' = wheelPositions r" and "activeWheelIndex r' = activeWheelIndex r"
    and "wheelsLocked r' = wheelsLocked r" and "gesturesLocked r' = gesturesLocked r"
  shows "keeps_dial r r'"
  using assms by (simp add: keeps_dial_def wheels_in_range_def read_position_def)

lemma setGestureStatus_keeps: "keeps_dial r (setGestureStatus message timestamp r)"
  by (rule keeps_dial_same) (simp_all add: setGestureStatus_def)

lemma idle_status_keeps: "keeps_dial r (idle_status message now r)"
  by (rule keeps_dial_same) (simp_all add: idle_status_def setGestureStatus_def)

lemma pushHandSample_keeps: "keeps_dial r (pushHandSample label sample r)"
  by (rule keeps_dial_same) (simp_all add: pushHandSample_def Let_def)

lemma clearHandHistory_keeps: "keeps_dial r (clearHandHistory label r)"
  by (rule keeps_dial_same) (simp_all add: clearHandHistory_def)

lemma forget_distance_keeps: "keeps_dial r (r\<lparr> lastTwoHandDistance := d \<rparr>)"
  by (rule keeps_dial_same) simp_all

lemma observe_hand_keeps:
  "keeps_dial (snd (snd (snd scan))) (snd (snd (snd (observe_hand handednesses now hand scan))))"
proof (cases scan)
  case (fields seenLabels observations closedPalmDetected r)
  show ?thesis
    unfolding fields observe_hand_def
    by (simp add: keeps_dial_refl clearHandHistory_keeps pushHandSample_keeps Let_def
        split: option.splits)
qed

lemma scan_keeps:
  "keeps_dial (snd (snd (snd scan)))
     (snd (snd (snd (fold (observe_hand handednesses now) hands scan))))"
proof (induction hands arbitrary: scan)
  case Nil
  show ?case by (simp add: keeps_dial_refl)
next
  case (Cons hand hands)
  from observe_hand_keeps [of scan handednesses now hand]
    Cons.IH [of "observe_hand handednesses now hand scan"]
  show ?case by (simp add: keeps_dial_trans)
qed

lemma unseen_cleared_keeps:
  "keeps_dial r
     (fold (\<lambda>label s. if label \<in> set seenLabels then s else clearHandHistory label s)
        [Left, Right] r)"
  by (simp add: keeps_dial_refl clearHandHistory_keeps
      keeps_dial_trans [OF clearHandHistory_keeps clearHandHistory_keeps])

lemma first_vertical_swipe:
  "first_swipe vertical_swipe histories observations = Some delta \<Longrightarrow> delta = - 1 \<or> delta = 1"
  by (induction observations)
    (auto simp: vertical_swipe_def split: option.splits if_splits)

lemma spin_branch_keeps: "keeps_dial r (snd (spin_branch observations now r))"
proof (cases "now - lastWheelAdjustTime r > WHEEL_ADJUST_COOLDOWN_MS \<and>
    first_swipe vertical_swipe (handHistories r) observations \<noteq> None")
  case False
  then have "snd (spin_branch observations now r) = r"
    by (auto simp: spin_branch_def)
  then show ?thesis by (simp add: keeps_dial_refl)
next
  case True
  then obtain delta where d: "first_swipe vertical_swipe (handHistories r) observations = Some delta"
    by blast
  from first_vertical_swipe [OF d] have bound: "- CHARSET_length \<le> delta"
    by (auto simp: CHARSET_length_40)
  have turned: "wheels_in_range r \<longrightarrow> wheels_in_range (adjustWheel (activeWheelIndex r) delta r)"
  proof
    assume range: "wheels_in_range r"
    then have "0 \<le> activeWheelIndex r" and "activeWheelIndex r < WHEEL_COUNT"
      by (simp_all add: wheels_in_range_def)
    with range bound show "wheels_in_range (adjustWheel (activeWheelIndex r) delta r)"
      by (simp add: adjustWheel_keeps_range)
  qed
  have "snd (spin_branch observations now r) =
      (setGestureStatus (if delta < 0 then WheelUp else WheelDown) now
         (adjustWheel (activeWheelIndex r) delta r))\<lparr> lastWheelAdjustTime := now \<rparr>"
    using True d by (simp add: spin_branch_def)
  then show ?thesis
    using turned
    by (simp add: keeps_dial_def wheels_in_range_def read_position_def setGestureStatus_def
        adjustWheel_def)
qed

lemma switch_branch_keeps: "keeps_dial r (snd (switch_branch observations now r))"
proof (cases "now - lastWheelSwitchTime r > WHEEL_SWITCH_COOLDOWN_MS \<and>
    first_swipe horizontal_swipe (handHistories r) observations \<noteq> None")
  case False
  then have "snd (switch_branch observations now r) = r"
    by (auto simp: switch_branch_def)
  then show ?thesis by (simp add: keeps_dial_refl)
next
  case True
  then obtain step where d: "first_swipe horizontal_swipe (handHistories r) observations = Some step"
    by blast
  have moved: "wheels_in_range r \<longrightarrow> wheels_in_range (setActiveWheel (activeWheelIndex r + step) r)"
    by (simp add: setActiveWheel_keeps_range)
  have "snd (switch_branch observations now r) =
      (setGestureStatus (if step > 0 then NextWheel else PreviousWheel) now
         (setActiveWheel (activeWheelIndex r + step) r))\<lparr> lastWheelSwitchTime := now \<rparr>"
    using True d by (simp add: switch_branch_def)
  then show ?thesis
    using moved
    by (simp add: keeps_dial_def wheels_in_range_def read_position_def setGestureStatus_def
        setActiveWheel_def)
qed

lemma handleClapDetection_keeps: "keeps_dial r (snd (handleClapDetection centers now r))"
  by (rule keeps_dial_same)
    (simp_all add: handleClapDetection_def setGestureStatus_def Let_def split: option.splits)

lemma processHandLandmarks_keeps: "keeps_dial r (snd (processHandLandmarks result now r))"
proof (cases "gesturesLocked r")
  case True
  then show ?thesis by (simp add: processHandLandmarks_def keeps_dial_refl)
next
  case unlocked: False
  show ?thesis
  proof (cases "detected_hands result = []")
    case True
    have "keeps_dial r
        (idle_status HandsNotDetected now
           ((clearHandHistory Right (clearHandHistory Left r))\<lparr> lastTwoHandDistance := None \<rparr>))"
      by (rule keeps_dial_trans [OF clearHandHistory_keeps
            keeps_dial_trans [OF clearHandHistory_keeps
              keeps_dial_trans [OF forget_distance_keeps idle_status_keeps]]])
    then show ?thesis
      using unlocked True by (simp add: processHandLandmarks_def)
  next
    case hands: False
    obtain seenLabels observations closedPalmDetected r1 where scan:
      "fold (observe_hand (case result of None \<Rightarrow> None | Some res \<Rightarrow> result_handednesses res) now)
         (zip (detected_hands result) [0..<length (detected_hands result)])
         ([], [], False, r) = (seenLabels, observations, closedPalmDetected, r1)"
      by (metis prod_cases4)
    have k1: "keeps_dial r r1"
      using scan_keeps [of "([], [], False, r)"
          "case result of None \<Rightarrow> None | Some res \<Rightarrow> result_handednesses res" now
          "zip (detected_hands result) [0..<length (detected_hands result)]"]
      by (simp add: scan)
    define r2 where "r2 = fold (\<lambda>label s. if label \<in> set seenLabels then s else clearHandHistory label s)
                         [Left, Right] r1"
    have k2: "keeps_dial r r2"
      unfolding r2_def by (rule keeps_dial_trans [OF k1 unseen_cleared_keeps])
    show ?thesis
    proof (cases "observations = []")
      case True
      have "keeps_dial r
          (idle_status (if closedPalmDetected then PalmsClosed else HandsNotDetected) now
             (r2\<lparr> lastTwoHandDistance := None \<rparr>))"
        by (rule keeps_dial_trans [OF k2 keeps_dial_trans [OF forget_distance_keeps idle_status_keeps]])
      then show ?thesis
        using unlocked hands scan True by (simp add: processHandLandmarks_def Let_def r2_def)
    next
      case nonempty: False
      obtain spin r3 where spin: "spin_branch observations now r2 = (spin, r3)"
        by (cases "spin_branch observations now r2")
      obtain switch r4 where switch:
        "(if spin = None then switch_branch observations now r3 else (None, r3)) = (switch, r4)"
        by (cases "if spin = None then switch_branch observations now r3 else (None, r3)")
      obtain clap r5 where clap: "handleClapDetection observations now r4 = (clap, r5)"
        by (cases "handleClapDetection observations now r4")
      have k3: "keeps_dial r2 r3"
        using spin_branch_keeps [of r2 observations now] by (simp add: spin)
      have k4: "keeps_dial r3 r4"
      proof (cases "spin = None")
        case True
        with switch switch_branch_keeps [of r3 observations now] show ?thesis by simp
      next
        case False
        with switch show ?thesis by (simp add: keeps_dial_refl)
      qed
      have k5: "keeps_dial r4 r5"
        using handleClapDetection_keeps [of r4 observations now] by (simp add: clap)
      have k: "keeps_dial r r5"
        by (rule keeps_dial_trans [OF k2 keeps_dial_trans [OF k3 keeps_dial_trans [OF k4 k5]]])
      have "snd (processHandLandmarks result now r) =
          (if spin = None \<and> switch = None \<and> \<not> clap then idle_status HandsReady now r5 else r5)"
        using unlocked hands scan nonempty spin switch clap
        by (simp add: processHandLandmarks_def Let_def r2_def)
      then show ?thesis
        using k keeps_dial_trans [OF k idle_status_keeps] by simp
    qed
  qed
qed
section \<open>The session and the capture pipeline\<close>

text \<open>
  The remaining module-level variables of the companion. \<^verbatim>\<open>statusMsgEl\<close>, \<^verbatim>\<open>startBtnEl\<close>
  and \<^verbatim>\<open>stopBtnEl\<close> are looked up once at start-up; \<open>controlsPresent\<close> says that all three
  were found, \<open>transcribeBtnPresent\<close> that \<^verbatim>\<open>transcribeBtnEl\<close> was. The pending timer is
  kept as its delay. Two fields record what is in flight and are not variables of the
  program: \<open>captures\<close> lists the calls of \<^verbatim>\<open>triggerTranscriptionCapture\<close> that passed the
  guard and have not returned, each with the stage it waits in, and \<open>renders\<close> lists the
  prompts of the \<^verbatim>\<open>generate_background_image\<close> invocations that have not settled.
  \<open>backgroundImage\<close> is the prompt whose image \<^verbatim>\<open>backgroundImageEl\<close> shows.
\<close>

datatype stage = AcquiringDevice | Recording | Encoding | Transcribing | Deciding

record companion = recognizer +
  controlsPresent :: bool
  transcribeBtnPresent :: bool
  startBtnDisabled :: bool
  stopBtnDisabled :: bool
  autoTranscriptionEnabled :: bool
  autoTranscriptionTimer :: "int option"
  autoAwaitingBackgroundImage :: bool
  isTranscriptionInProgress :: bool
  isBackgroundImageInProgress :: bool
  lastBackgroundPrompt :: "jsstring option"
  backgroundImage :: "jsstring option"
  captures :: "stage list"
  renders :: "jsstring list"

definition AUTO_TRANSCRIPTION_RETRY_DELAY_MS :: int where
  "AUTO_TRANSCRIPTION_RETRY_DELAY_MS = 1000"

definition AUTO_TRANSCRIPTION_FALLBACK_DELAY_MS :: int where
  "AUTO_TRANSCRIPTION_FALLBACK_DELAY_MS = 1000"

definition AUTO_TRANSCRIPTION_POST_IMAGE_DELAY_MS :: int where
  "AUTO_TRANSCRIPTION_POST_IMAGE_DELAY_MS = 300"

subsection \<open>The auto loop\<close>

definition clearAutoTranscriptionTimer :: "companion \<Rightarrow> companion" where
  "clearAutoTranscriptionTimer c = c\<lparr> autoTranscriptionTimer := None \<rparr>"

definition scheduleAutoTranscription :: "int \<Rightarrow> companion \<Rightarrow> companion" where
  "scheduleAutoTranscription delayMs c =
     (if \<not> autoTranscriptionEnabled c then c
      else (clearAutoTranscriptionTimer c)\<lparr> autoTranscriptionTimer := Some (max 0 delayMs) \<rparr>)"

definition startAutoTranscriptionLoop :: "int \<Rightarrow> companion \<Rightarrow> companion" where
  "startAutoTranscriptionLoop initialDelayMs c =
     scheduleAutoTranscription initialDelayMs
       (if \<not> autoTranscriptionEnabled c
        then c\<lparr> autoTranscriptionEnabled := True, autoAwaitingBackgroundImage := False \<rparr>
        else c)"

definition stopAutoTranscriptionLoop :: "companion \<Rightarrow> companion" where
  "stopAutoTranscriptionLoop c =
     (if \<not> autoTranscriptionEnabled c then c
      else clearAutoTranscriptionTimer
             (c\<lparr> autoTranscriptionEnabled := False, autoAwaitingBackgroundImage := False \<rparr>))"

subsection \<open>The locks\<close>

definition setWheelsLocked :: "bool \<Rightarrow> companion \<Rightarrow> companion" where
  "setWheelsLocked locked c = c\<lparr> wheelsLocked := locked \<rparr>"

definition stopGestureRecognition :: "real \<Rightarrow> companion \<Rightarrow> companion" where
  "stopGestureRecognition now c =
     setGestureStatus
       (if permissionsGranted c
        then (if gesturesLocked c then GesturesLockedStatus else GesturesPaused)
        else GesturesInactive)
       now
       (c\<lparr> gestureLoopRunning := False, handHistories := (\<lambda>label. []),
           lastTwoHandDistance := None \<rparr>)"

text \<open>
  \<^verbatim>\<open>setGesturesLocked\<close>; \<open>now\<close> is the \<^verbatim>\<open>performance.now()\<close> that \<^verbatim>\<open>setGestureStatus\<close> reads.
  When the lock is released the recognition loop is restarted by an asynchronous call
  whose completion is not part of this step.
\<close>

definition setGesturesLocked :: "bool \<Rightarrow> real \<Rightarrow> companion \<Rightarrow> companion" where
  "setGesturesLocked locked now c =
     (if gesturesLocked c = locked then
        (if locked then setGestureStatus GesturesLockedStatus now c else c)
      else if locked then
        setGestureStatus GesturesLockedStatus now
          (stopGestureRecognition now (c\<lparr> gesturesLocked := True \<rparr>))
      else if permissionsGranted c then
        setGestureStatus GesturesReady now (c\<lparr> gesturesLocked := False \<rparr>)
      else
        setGestureStatus GesturesInactive now (c\<lparr> gesturesLocked := False \<rparr>))"

subsection \<open>Stopping the session\<close>

datatype remote = Resolved | Rejected

text \<open>
  \<^verbatim>\<open>stopAgent\<close>, with the way \<^verbatim>\<open>invoke("stop_agent")\<close> settles: the statements before the
  \<^verbatim>\<open>await\<close>, then the rest of the \<^verbatim>\<open>try\<close> block or the \<^verbatim>\<open>catch\<close> block, then the
  \<^verbatim>\<open>finally\<close> block.
\<close>

definition stopAgent :: "remote \<Rightarrow> real \<Rightarrow> companion \<Rightarrow> companion" where
  "stopAgent stop_agent now c =
     (if \<not> controlsPresent c then c
      else
        (let c1 = stopAutoTranscriptionLoop c;
             c2 = (case stop_agent of
                     Resolved \<Rightarrow> setGesturesLocked False now (setWheelsLocked False c1)
                   | Rejected \<Rightarrow> c1)
         in (stopAutoTranscriptionLoop c2)\<lparr> startBtnDisabled := False, stopBtnDisabled := True \<rparr>))"

text \<open>
  The companion after start-up, and the companion in a running session: what
  \<^verbatim>\<open>registerAgent\<close> leaves when the registration went through (both locks set, the start
  button disabled, the stop button enabled, the auto loop started with a delay of 500 ms).
\<close>

definition idle_companion :: companion where
  "idle_companion =
     \<lparr> wheelPositions = wheelPositions initial_wheels,
       activeWheelIndex = 0,
       wheelsLocked = False,
       gesturesLocked = False,
       permissionsGranted = True,
       gestureLoopRunning = True,
       handHistories = (\<lambda>label. []),
       lastTwoHandDistance = None,
       lastWheelAdjustTime = 0,
       lastWheelSwitchTime = 0,
       lastClapTime = 0,
       currentGestureStatus = GesturesReady,
       lastGestureStatusTime = 0,
       controlsPresent = True,
       transcribeBtnPresent = True,
       startBtnDisabled = False,
       stopBtnDisabled = True,
       autoTranscriptionEnabled = False,
       autoTranscriptionTimer = None,
       autoAwaitingBackgroundImage = False,
       isTranscriptionInProgress = False,
       isBackgroundImageInProgress = False,
       lastBackgroundPrompt = None,
       backgroundImage = None,
       captures = [],
       renders = [] \<rparr>"

definition running_session :: companion where
  "running_session =
     startAutoTranscriptionLoop 500
       ((setGesturesLocked True 1000 (setWheelsLocked True idle_companion))
          \<lparr> startBtnDisabled := True, stopBtnDisabled := False \<rparr>)"

subsection \<open>Properties of stopping the session\<close>

lemma running_session_locked:
  "wheelsLocked running_session \<and> gesturesLocked running_session \<and>
   autoTranscriptionEnabled running_session \<and> controlsPresent running_session"
  by (simp add: running_session_def startAutoTranscriptionLoop_def scheduleAutoTranscription_def
      clearAutoTranscriptionTimer_def setGesturesLocked_def setWheelsLocked_def
      stopGestureRecognition_def setGestureStatus_def idle_companion_def)

text \<open>
  Claim C1: \<^verbatim>\<open>stopAgent\<close> leaves \<^verbatim>\<open>wheelsLocked\<close> and \<^verbatim>\<open>gesturesLocked\<close> false whether or not
  \<^verbatim>\<open>invoke("stop_agent")\<close> succeeds. The two \<^verbatim>\<open>set...Locked(false)\<close> calls stand in the
  \<^verbatim>\<open>try\<close> block after the \<^verbatim>\<open>await\<close>: in a running session a resolved call unlocks both,
  a rejected call leaves both locked, while the \<^verbatim>\<open>finally\<close> block stops the loop and
  resets the buttons in either case.
\<close>

theorem C1_rejected_stop_keeps_locks:
  "wheelsLocked running_session \<and> gesturesLocked running_session \<and>
   \<not> wheelsLocked (stopAgent Resolved 9000 running_session) \<and>
   \<not> gesturesLocked (stopAgent Resolved 9000 running_session) \<and>
   wheelsLocked (stopAgent Rejected 9000 running_session) \<and>
   gesturesLocked (stopAgent Rejected 9000 running_session) \<and>
   \<not> autoTranscriptionEnabled (stopAgent Rejected 9000 running_session) \<and>
   \<not> startBtnDisabled (stopAgent Rejected 9000 running_session) \<and>
   stopBtnDisabled (stopAgent Rejected 9000 running_session)"
  by (simp add: stopAgent_def stopAutoTranscriptionLoop_def running_session_def
      startAutoTranscriptionLoop_def scheduleAutoTranscription_def
      clearAutoTranscriptionTimer_def setGesturesLocked_def setWheelsLocked_def
      stopGestureRecognition_def setGestureStatus_def idle_companion_def Let_def)

subsection \<open>The capture cycle\<close>

text \<open>
  \<^verbatim>\<open>triggerTranscriptionCapture\<close> up to its first \<^verbatim>\<open>await\<close>: a busy pipeline rejects the
  call, otherwise the call raises the guard and a capture cycle is in flight.
\<close>

definition triggerTranscriptionCapture :: "companion \<Rightarrow> companion" where
  "triggerTranscriptionCapture c =
     (if isTranscriptionInProgress c then
        (if autoTranscriptionEnabled c
         then scheduleAutoTranscription AUTO_TRANSCRIPTION_RETRY_DELAY_MS c
         else c)
      else c\<lparr> autoAwaitingBackgroundImage := False,
              isTranscriptionInProgress := True,
              captures := captures c @ [AcquiringDevice] \<rparr>)"

text \<open>
  \<^verbatim>\<open>requestBackgroundImage\<close> up to its \<^verbatim>\<open>await\<close>, and the rest of it once
  \<^verbatim>\<open>generate_background_image\<close> has settled (\<open>ok\<close>: with an image).
\<close>

definition requestBackgroundImage :: "jsstring \<Rightarrow> companion \<Rightarrow> companion" where
  "requestBackgroundImage prompt c =
     (if trim prompt = [] then c
      else if isBackgroundImageInProgress c then c
      else
        (let c1 = (if autoTranscriptionEnabled c
                   then c\<lparr> autoAwaitingBackgroundImage := True \<rparr> else c)
         in c1\<lparr> isBackgroundImageInProgress := True, renders := renders c1 @ [trim prompt] \<rparr>))"

definition remove_nth :: "nat \<Rightarrow> 'a list \<Rightarrow> 'a list" where
  "remove_nth n xs = take n xs @ drop (Suc n) xs"

definition render_settles :: "nat \<Rightarrow> bool \<Rightarrow> companion \<Rightarrow> companion" where
  "render_settles n ok c =
     (if n < length (renders c) then
        (let c1 = (if ok then c\<lparr> backgroundImage := Some (renders c ! n) \<rparr> else c);
             c2 = c1\<lparr> renders := remove_nth n (renders c1),
                      isBackgroundImageInProgress := False,
                      autoAwaitingBackgroundImage := False \<rparr>
         in if autoTranscriptionEnabled c2
            then scheduleAutoTranscription AUTO_TRANSCRIPTION_POST_IMAGE_DELAY_MS c2
            else c2)
      else c)"

text \<open>
  What an \<^verbatim>\<open>await\<close> of the cycle yields: a failure (a rejected promise, an HTTP status
  that is not ok, a missing device) or a success, which carries the transcript after
  \<open>Transcribing\<close> and the completion text of the prompt model after \<open>Deciding\<close>.
\<close>

datatype outcome = Failed | Succeeded jsstring

definition handleVirtualBackgroundPrompt :: "outcome \<Rightarrow> companion \<Rightarrow> companion" where
  \<comment> \<open>the function from the point where \<^verbatim>\<open>generateVirtualBackgroundPrompt\<close> has settled\<close>
  "handleVirtualBackgroundPrompt generated c =
     (case generated of
        Failed \<Rightarrow> c
      | Succeeded completion \<Rightarrow>
          (case parseBackgroundPromptDecision completion of
             Generate prompt rawText \<Rightarrow>
               requestBackgroundImage prompt (c\<lparr> lastBackgroundPrompt := Some prompt \<rparr>)
           | Skip reason rawText \<Rightarrow> c))"

definition capture_returns_early :: "nat \<Rightarrow> companion \<Rightarrow> companion" where
  \<comment> \<open>the two returns before the \<^verbatim>\<open>try\<close> block\<close>
  "capture_returns_early n c =
     (let c1 = c\<lparr> captures := remove_nth n (captures c), isTranscriptionInProgress := False \<rparr>
      in if autoTranscriptionEnabled c1
         then scheduleAutoTranscription AUTO_TRANSCRIPTION_RETRY_DELAY_MS c1
         else c1)"

definition capture_finally :: "nat \<Rightarrow> companion \<Rightarrow> companion" where
  \<comment> \<open>the \<^verbatim>\<open>finally\<close> block\<close>
  "capture_finally n c =
     (let c1 = c\<lparr> captures := remove_nth n (captures c), isTranscriptionInProgress := False \<rparr>
      in if autoTranscriptionEnabled c1 \<and> \<not> autoAwaitingBackgroundImage c1
         then scheduleAutoTranscription AUTO_TRANSCRIPTION_FALLBACK_DELAY_MS c1
         else c1)"

definition capture_proceeds :: "nat \<Rightarrow> outcome \<Rightarrow> companion \<Rightarrow> companion" where
  \<comment> \<open>capture cycle \<open>n\<close> resumes from the \<^verbatim>\<open>await\<close> of its stage\<close>
  "capture_proceeds n result c =
     (if n < length (captures c) then
        (case (captures c ! n, result) of
           (AcquiringDevice, Failed) \<Rightarrow> capture_returns_early n c
         | (AcquiringDevice, Succeeded x) \<Rightarrow>
             if transcribeBtnPresent c then c\<lparr> captures := (captures c)[n := Recording] \<rparr>
             else capture_returns_early n c
         | (Recording, Succeeded x) \<Rightarrow> c\<lparr> captures := (captures c)[n := Encoding] \<rparr>
         | (Encoding, Succeeded x) \<Rightarrow> c\<lparr> captures := (captures c)[n := Transcribing] \<rparr>
         | (Transcribing, Succeeded transcript) \<Rightarrow>
             if transcript = [] \<or> trim transcript = [] then capture_finally n c
             else c\<lparr> captures := (captures c)[n := Deciding] \<rparr>
         | (Deciding, generated) \<Rightarrow> capture_finally n (handleVirtualBackgroundPrompt generated c)
         | (s, Failed) \<Rightarrow> capture_finally n c)
      else c)"

definition timer_fires :: "companion \<Rightarrow> companion" where
  \<comment> \<open>the callback that \<^verbatim>\<open>scheduleAutoTranscription\<close> hands to \<^verbatim>\<open>setTimeout\<close>\<close>
  "timer_fires c =
     (case autoTranscriptionTimer c of
        None \<Rightarrow> c
      | Some delay \<Rightarrow>
          (let c1 = c\<lparr> autoTranscriptionTimer := None \<rparr>
           in if \<not> autoTranscriptionEnabled c1 then c1 else triggerTranscriptionCapture c1))"

text \<open>
  The events that move the pipeline: a click on the transcribe button, the pending timer,
  the loop being started and stopped (by \<^verbatim>\<open>registerAgent\<close> and \<^verbatim>\<open>stopAgent\<close>), a capture
  cycle resuming, a render settling. A run takes the events in their order of arrival;
  JavaScript runs each to its next \<^verbatim>\<open>await\<close> before the next one starts.
\<close>

datatype event =
    ManualCapture
  | TimerFires
  | StartLoop int
  | StopLoop
  | CaptureProceeds nat outcome
  | RenderSettles nat bool

fun step :: "event \<Rightarrow> companion \<Rightarrow> companion" where
  "step ManualCapture c = triggerTranscriptionCapture c"
| "step TimerFires c = timer_fires c"
| "step (StartLoop d) c = startAutoTranscriptionLoop d c"
| "step StopLoop c = stopAutoTranscriptionLoop c"
| "step (CaptureProceeds n result) c = capture_proceeds n result c"
| "step (RenderSettles n ok) c = render_settles n ok c"

definition run :: "event list \<Rightarrow> companion \<Rightarrow> companion" where
  "run events c = fold step events c"

definition in_flight_agrees :: "companion \<Rightarrow> bool" where
  \<comment> \<open>each guard is raised exactly while one operation of its kind is in flight\<close>
  "in_flight_agrees c =
     (length (captures c) = (if isTranscriptionInProgress c then 1 else 0) \<and>
      length (renders c) = (if isBackgroundImageInProgress c then 1 else 0))"

text \<open>
  A capture started by hand that runs up to the prompt model's answer \<open>completion\<close>, and
  the companion after such a cycle whose answer was the plain text \<^verbatim>\<open>a lake\<close>: the render
  of that prompt is in flight.
\<close>

definition capture_until_decision :: "jsstring \<Rightarrow> event list" where
  "capture_until_decision completion =
     [ManualCapture,
      CaptureProceeds 0 (Succeeded []),
      CaptureProceeds 0 (Succeeded []),
      CaptureProceeds 0 (Succeeded []),
      CaptureProceeds 0 (Succeeded (js ''a lake at dusk'')),
      CaptureProceeds 0 (Succeeded completion)]"

definition rendering_a_lake :: companion where
  "rendering_a_lake = run (capture_until_decision (js ''a lake'')) idle_companion"

definition looping_capture :: companion where
  "looping_capture = run [StartLoop 500, TimerFires] idle_companion"

subsection \<open>Properties of the pipeline\<close>

lemma length_remove_nth: "n < length xs \<Longrightarrow> length (remove_nth n xs) = length xs - 1"
  by (simp add: remove_nth_def)

lemma remove_nth_single: "length xs = Suc 0 \<Longrightarrow> remove_nth 0 xs = []"
  by (cases xs) (simp_all add: remove_nth_def)

lemma scheduleAutoTranscription_in_flight [simp]:
  "captures (scheduleAutoTranscription d c) = captures c"
  "renders (scheduleAutoTranscription d c) = renders c"
  "isTranscriptionInProgress (scheduleAutoTranscription d c) = isTranscriptionInProgress c"
  "isBackgroundImageInProgress (scheduleAutoTranscription d c) = isBackgroundImageInProgress c"
  "lastBackgroundPrompt (scheduleAutoTranscription d c) = lastBackgroundPrompt c"
  by (simp_all add: scheduleAutoTranscription_def clearAutoTranscriptionTimer_def)

lemma scheduleAutoTranscription_agrees [simp]:
  "in_flight_agrees (scheduleAutoTranscription d c) = in_flight_agrees c"
  by (simp add: in_flight_agrees_def)

lemma startAutoTranscriptionLoop_agrees [simp]:
  "in_flight_agrees (startAutoTranscriptionLoop d c) = in_flight_agrees c"
  by (simp add: startAutoTranscriptionLoop_def in_flight_agrees_def)

lemma stopAutoTranscriptionLoop_agrees [simp]:
  "in_flight_agrees (stopAutoTranscriptionLoop c) = in_flight_agrees c"
  by (simp add: stopAutoTranscriptionLoop_def clearAutoTranscriptionTimer_def in_flight_agrees_def)

lemma triggerTranscriptionCapture_agrees:
  "in_flight_agrees c \<Longrightarrow> in_flight_agrees (triggerTranscriptionCapture c)"
  by (auto simp: triggerTranscriptionCapture_def in_flight_agrees_def)

lemma timer_fires_agrees: "in_flight_agrees c \<Longrightarrow> in_flight_agrees (timer_fires c)"
proof -
  assume a: "in_flight_agrees c"
  then have "in_flight_agrees (c\<lparr> autoTranscriptionTimer := None \<rparr>)"
    by (simp add: in_flight_agrees_def)
  then show ?thesis
    using a by (auto simp: timer_fires_def Let_def intro: triggerTranscriptionCapture_agrees
        split: option.splits)
qed

lemma requestBackgroundImage_agrees:
  "in_flight_agrees c \<Longrightarrow> in_flight_agrees (requestBackgroundImage prompt c)"
  by (auto simp: requestBackgroundImage_def in_flight_agrees_def Let_def)

lemma render_settles_agrees: "in_flight_agrees c \<Longrightarrow> in_flight_agrees (render_settles n ok c)"
  by (auto simp: render_settles_def in_flight_agrees_def Let_def length_remove_nth remove_nth_single
      split: if_splits)

lemma handleVirtualBackgroundPrompt_agrees:
  "in_flight_agrees c \<Longrightarrow> in_flight_agrees (handleVirtualBackgroundPrompt generated c)"
proof -
  assume a: "in_flight_agrees c"
  have "in_flight_agrees (c\<lparr> lastBackgroundPrompt := Some p \<rparr>)" for p
    using a by (simp add: in_flight_agrees_def)
  then show ?thesis
    using a by (auto simp: handleVirtualBackgroundPrompt_def intro: requestBackgroundImage_agrees
        split: outcome.splits BackgroundPromptDecision.splits)
qed

lemma capture_returns_early_agrees:
  "in_flight_agrees c \<Longrightarrow> n < length (captures c) \<Longrightarrow> in_flight_agrees (capture_returns_early n c)"
  by (auto simp: capture_returns_early_def in_flight_agrees_def Let_def length_remove_nth remove_nth_single
      split: if_splits)

lemma capture_finally_agrees:
  "in_flight_agrees c \<Longrightarrow> n < length (captures c) \<Longrightarrow> in_flight_agrees (capture_finally n c)"
  by (auto simp: capture_finally_def in_flight_agrees_def Let_def length_remove_nth remove_nth_single
      split: if_splits)

lemma handleVirtualBackgroundPrompt_captures [simp]:
  "captures (handleVirtualBackgroundPrompt generated c) = captures c"
  by (simp add: handleVirtualBackgroundPrompt_def requestBackgroundImage_def Let_def
      split: outcome.splits BackgroundPromptDecision.splits)

lemma stage_update_agrees:
  "in_flight_agrees c \<Longrightarrow> in_flight_agrees (c\<lparr> captures := (captures c)[n := s] \<rparr>)"
  by (simp add: in_flight_agrees_def)

lemma capture_proceeds_agrees:
  "in_flight_agrees c \<Longrightarrow> in_flight_agrees (capture_proceeds n result c)"
proof (cases "n < length (captures c)")
  case False
  assume "in_flight_agrees c"
  with False show ?thesis by (simp add: capture_proceeds_def)
next
  case True
  assume a: "in_flight_agrees c"
  have h: "in_flight_agrees (capture_finally n (handleVirtualBackgroundPrompt result c))"
    using a True by (simp add: capture_finally_agrees handleVirtualBackgroundPrompt_agrees)
  show ?thesis
    using a True h
    by (cases "captures c ! n"; cases result)
      (simp_all add: capture_proceeds_def capture_returns_early_agrees capture_finally_agrees
        stage_update_agrees)
qed

lemma step_agrees: "in_flight_agrees c \<Longrightarrow> in_flight_agrees (step e c)"
  by (cases e)
    (simp_all add: triggerTranscriptionCapture_agrees timer_fires_agrees
      capture_proceeds_agrees render_settles_agrees)

lemma run_agrees: "in_flight_agrees c \<Longrightarrow> in_flight_agrees (run events c)"
  unfolding run_def by (induction events arbitrary: c) (simp_all add: step_agrees)

lemma idle_companion_agrees: "in_flight_agrees idle_companion"
  by (simp add: in_flight_agrees_def idle_companion_def)

subsection \<open>Concrete runs\<close>

lemma plain_text_decision:
  "parseBackgroundPromptDecision (js ''a lake'') = Generate (js ''a lake'') (js ''a lake'')"
  "parseBackgroundPromptDecision (js ''a boat'') = Generate (js ''a boat'') (js ''a boat'')"
proof -
  have t: "trim (js ''a lake'') = js ''a lake''" "trim (js ''a boat'') = js ''a boat''"
    by (simp_all add: trim_def is_js_space_def js_Nil js_Cons)
  have p: "JSON_parse (js ''a lake'') = None" "JSON_parse (js ''a boat'') = None"
    by (simp_all add: json_eval)
  show "parseBackgroundPromptDecision (js ''a lake'') = Generate (js ''a lake'') (js ''a lake'')"
    unfolding parseBackgroundPromptDecision_def Let_def t p by (simp add: js_Nil js_Cons)
  show "parseBackgroundPromptDecision (js ''a boat'') = Generate (js ''a boat'') (js ''a boat'')"
    unfolding parseBackgroundPromptDecision_def Let_def t p by (simp add: js_Nil js_Cons)
qed

lemma plain_text_trim:
  "trim (js ''a lake'') = js ''a lake''" "trim (js ''a boat'') = js ''a boat''"
  "js ''a lake'' \<noteq> []" "js ''a boat'' \<noteq> []"
  "js ''a lake at dusk'' \<noteq> []" "trim (js ''a lake at dusk'') \<noteq> []"
  by (simp_all add: trim_def is_js_space_def js_Nil js_Cons)

lemmas pipeline_eval =
  run_def capture_until_decision_def triggerTranscriptionCapture_def capture_proceeds_def
  capture_finally_def capture_returns_early_def handleVirtualBackgroundPrompt_def
  requestBackgroundImage_def render_settles_def remove_nth_def timer_fires_def
  scheduleAutoTranscription_def startAutoTranscriptionLoop_def stopAutoTranscriptionLoop_def
  clearAutoTranscriptionTimer_def plain_text_decision plain_text_trim Let_def
  AUTO_TRANSCRIPTION_RETRY_DELAY_MS_def AUTO_TRANSCRIPTION_FALLBACK_DELAY_MS_def
  AUTO_TRANSCRIPTION_POST_IMAGE_DELAY_MS_def

lemma rendering_a_lake_state:
  "rendering_a_lake = idle_companion
     \<lparr> isBackgroundImageInProgress := True,
       lastBackgroundPrompt := Some (js ''a lake''),
       renders := [js ''a lake''] \<rparr>"
  unfolding rendering_a_lake_def
  by (simp add: pipeline_eval idle_companion_def)

lemma looping_capture_state:
  "looping_capture = idle_companion
     \<lparr> autoTranscriptionEnabled := True,
       isTranscriptionInProgress := True,
       captures := [AcquiringDevice] \<rparr>"
  unfolding looping_capture_def
  by (simp add: pipeline_eval idle_companion_def)

subsection \<open>Guards and the recorded prompt\<close>

text \<open>
  Claim C3, as stated: \<^verbatim>\<open>lastBackgroundPrompt\<close> takes the prompt of a Generate decision only
  when the render of that prompt succeeds, and keeps its value when the render fails or
  the render request is rejected. \<^verbatim>\<open>handleVirtualBackgroundPrompt\<close> assigns the prompt
  before it calls \<^verbatim>\<open>requestBackgroundImage\<close>. After a first cycle decided \<^verbatim>\<open>a lake\<close> the
  variable, empty at start-up, holds \<^verbatim>\<open>a lake\<close> and still does when that render fails and
  no image was shown; a second cycle that decides \<^verbatim>\<open>a boat\<close> while the first render is in
  flight has its render request rejected and yet leaves \<^verbatim>\<open>a boat\<close> in the variable.
\<close>

theorem C3_prompt_recorded_without_render:
  "lastBackgroundPrompt idle_companion = None \<and>
   lastBackgroundPrompt (run [RenderSettles 0 False] rendering_a_lake) = Some (js ''a lake'') \<and>
   backgroundImage (run [RenderSettles 0 False] rendering_a_lake) = None \<and>
   isBackgroundImageInProgress rendering_a_lake \<and>
   lastBackgroundPrompt rendering_a_lake = Some (js ''a lake'') \<and>
   renders (run (capture_until_decision (js ''a boat'')) rendering_a_lake) = [js ''a lake''] \<and>
   lastBackgroundPrompt (run (capture_until_decision (js ''a boat'')) rendering_a_lake) =
     Some (js ''a boat'')"
  unfolding rendering_a_lake_state
  by (simp add: pipeline_eval idle_companion_def)

text \<open>
  Claim C3, amended: \<^verbatim>\<open>lastBackgroundPrompt\<close> is replaced by the prompt of a Generate
  decision when the decision is made, before the render is requested. A Skip decision and
  a failed prompt request leave it as it was, and so do the render request, whether it is
  accepted or rejected, and the settling of a render, whether it succeeded or failed.
\<close>

theorem C3_prompt_recorded_at_decision:
  "lastBackgroundPrompt (handleVirtualBackgroundPrompt (Succeeded completion) c) =
     (case parseBackgroundPromptDecision completion of
        Generate prompt rawText \<Rightarrow> Some prompt
      | Skip reason rawText \<Rightarrow> lastBackgroundPrompt c) \<and>
   lastBackgroundPrompt (handleVirtualBackgroundPrompt Failed c) = lastBackgroundPrompt c \<and>
   lastBackgroundPrompt (requestBackgroundImage prompt c) = lastBackgroundPrompt c \<and>
   lastBackgroundPrompt (render_settles n ok c) = lastBackgroundPrompt c"
proof -
  have r: "lastBackgroundPrompt (requestBackgroundImage p d) = lastBackgroundPrompt d" for p d
    by (simp add: requestBackgroundImage_def Let_def)
  have s: "lastBackgroundPrompt (render_settles n ok c) = lastBackgroundPrompt c"
    by (simp add: render_settles_def Let_def)
  have h: "lastBackgroundPrompt (handleVirtualBackgroundPrompt (Succeeded completion) c) =
     (case parseBackgroundPromptDecision completion of
        Generate prompt rawText \<Rightarrow> Some prompt
      | Skip reason rawText \<Rightarrow> lastBackgroundPrompt c)"
    by (simp add: handleVirtualBackgroundPrompt_def r split: BackgroundPromptDecision.splits)
  have f: "lastBackgroundPrompt (handleVirtualBackgroundPrompt Failed c) = lastBackgroundPrompt c"
    by (simp add: handleVirtualBackgroundPrompt_def)
  from r s h f show ?thesis by simp
qed

text \<open>
  Claim C7: at most one capture cycle is in flight in any run of the pipeline; a call of
  \<^verbatim>\<open>triggerTranscriptionCapture\<close> while \<^verbatim>\<open>isTranscriptionInProgress\<close> is set starts no cycle
  and leaves the guard set, and with the auto loop enabled it leaves a pending timer of
  \<^verbatim>\<open>AUTO_TRANSCRIPTION_RETRY_DELAY_MS\<close> (1000 ms).
\<close>

theorem C7_single_capture_in_flight:
  "(in_flight_agrees c0 \<longrightarrow> length (captures (run events c0)) \<le> 1) \<and>
   in_flight_agrees idle_companion \<and>
   (isTranscriptionInProgress c \<longrightarrow>
      captures (triggerTranscriptionCapture c) = captures c \<and>
      isTranscriptionInProgress (triggerTranscriptionCapture c) \<and>
      (autoTranscriptionEnabled c \<longrightarrow>
         autoTranscriptionTimer (triggerTranscriptionCapture c) =
           Some AUTO_TRANSCRIPTION_RETRY_DELAY_MS) \<and>
      (\<not> autoTranscriptionEnabled c \<longrightarrow> triggerTranscriptionCapture c = c)) \<and>
   AUTO_TRANSCRIPTION_RETRY_DELAY_MS = 1000"
proof -
  have a: "length (captures (run events c0)) \<le> 1" if "in_flight_agrees c0"
    using run_agrees [OF that, of events] by (simp add: in_flight_agrees_def split: if_splits)
  have b: "captures (triggerTranscriptionCapture c) = captures c \<and>
      isTranscriptionInProgress (triggerTranscriptionCapture c) \<and>
      (autoTranscriptionEnabled c \<longrightarrow>
         autoTranscriptionTimer (triggerTranscriptionCapture c) =
           Some AUTO_TRANSCRIPTION_RETRY_DELAY_MS) \<and>
      (\<not> autoTranscriptionEnabled c \<longrightarrow> triggerTranscriptionCapture c = c)"
    if "isTranscriptionInProgress c"
    using that
    by (simp add: triggerTranscriptionCapture_def scheduleAutoTranscription_def
        clearAutoTranscriptionTimer_def AUTO_TRANSCRIPTION_RETRY_DELAY_MS_def)
  from a b idle_companion_agrees show ?thesis
    by (simp add: AUTO_TRANSCRIPTION_RETRY_DELAY_MS_def)
qed

theorem C7_single_capture_in_flight_witness:
  "in_flight_agrees idle_companion \<and>
   isTranscriptionInProgress looping_capture \<and>
   autoTranscriptionEnabled looping_capture \<and>
   captures looping_capture = [AcquiringDevice] \<and>
   captures (triggerTranscriptionCapture looping_capture) = [AcquiringDevice] \<and>
   autoTranscriptionTimer (triggerTranscriptionCapture looping_capture) = Some 1000 \<and>
   length (captures (run [StartLoop 500, TimerFires, ManualCapture, TimerFires] idle_companion)) \<le> 1"
proof -
  have s: "isTranscriptionInProgress looping_capture" "autoTranscriptionEnabled looping_capture"
    "captures looping_capture = [AcquiringDevice]"
    by (simp_all add: looping_capture_state)
  from C7_single_capture_in_flight
    [of idle_companion "[StartLoop 500, TimerFires, ManualCapture, TimerFires]" looping_capture] s
  show ?thesis by simp
qed

text \<open>
  Claim C8: at most one render is in flight in any run; \<^verbatim>\<open>requestBackgroundImage\<close> called
  while \<^verbatim>\<open>isBackgroundImageInProgress\<close> is set returns with nothing changed. The render
  guard does not read the capture guard and the capture guard does not read the render
  guard: \<^verbatim>\<open>requestBackgroundImage\<close> does the same whatever \<^verbatim>\<open>isTranscriptionInProgress\<close> is,
  and an idle capture guard lets a cycle start whatever \<^verbatim>\<open>isBackgroundImageInProgress\<close>
  is. So while the render of \<^verbatim>\<open>a lake\<close> is in flight the next cycle starts and records.
\<close>

theorem C8_single_render_in_flight:
  "(in_flight_agrees c0 \<longrightarrow> length (renders (run events c0)) \<le> 1) \<and>
   in_flight_agrees idle_companion \<and>
   (isBackgroundImageInProgress c \<longrightarrow> requestBackgroundImage prompt c = c) \<and>
   requestBackgroundImage prompt (c\<lparr> isTranscriptionInProgress := busy \<rparr>) =
     (requestBackgroundImage prompt c)\<lparr> isTranscriptionInProgress := busy \<rparr> \<and>
   (\<not> isTranscriptionInProgress c \<longrightarrow>
      captures (triggerTranscriptionCapture c) = captures c @ [AcquiringDevice] \<and>
      renders (triggerTranscriptionCapture c) = renders c \<and>
      isBackgroundImageInProgress (triggerTranscriptionCapture c) =
        isBackgroundImageInProgress c) \<and>
   renders rendering_a_lake = [js ''a lake''] \<and>
   captures rendering_a_lake = [] \<and>
   renders (run [ManualCapture, CaptureProceeds 0 (Succeeded [])] rendering_a_lake) =
     [js ''a lake''] \<and>
   captures (run [ManualCapture, CaptureProceeds 0 (Succeeded [])] rendering_a_lake) =
     [Recording]"
proof -
  have a: "length (renders (run events c0)) \<le> 1" if "in_flight_agrees c0"
    using run_agrees [OF that, of events] by (simp add: in_flight_agrees_def split: if_splits)
  have b: "requestBackgroundImage prompt c = c" if "isBackgroundImageInProgress c"
    using that by (simp add: requestBackgroundImage_def)
  have i: "requestBackgroundImage prompt (c\<lparr> isTranscriptionInProgress := busy \<rparr>) =
     (requestBackgroundImage prompt c)\<lparr> isTranscriptionInProgress := busy \<rparr>"
    by (simp add: requestBackgroundImage_def Let_def)
  have t: "captures (triggerTranscriptionCapture c) = captures c @ [AcquiringDevice] \<and>
      renders (triggerTranscriptionCapture c) = renders c \<and>
      isBackgroundImageInProgress (triggerTranscriptionCapture c) =
        isBackgroundImageInProgress c"
    if "\<not> isTranscriptionInProgress c"
    using that by (simp add: triggerTranscriptionCapture_def)
  have o: "renders rendering_a_lake = [js ''a lake'']" "captures rendering_a_lake = []"
    "renders (run [ManualCapture, CaptureProceeds 0 (Succeeded [])] rendering_a_lake) =
       [js ''a lake'']"
    "captures (run [ManualCapture, CaptureProceeds 0 (Succeeded [])] rendering_a_lake) =
       [Recording]"
    unfolding rendering_a_lake_state
    by (simp_all add: pipeline_eval idle_companion_def)
  from a b i t o idle_companion_agrees show ?thesis by simp
qed

theorem C8_single_render_in_flight_witness:
  "in_flight_agrees idle_companion \<and>
   isBackgroundImageInProgress rendering_a_lake \<and>
   \<not> isTranscriptionInProgress rendering_a_lake \<and>
   requestBackgroundImage (js ''a boat'') rendering_a_lake = rendering_a_lake \<and>
   captures (triggerTranscriptionCapture rendering_a_lake) = [AcquiringDevice] \<and>
   renders (triggerTranscriptionCapture rendering_a_lake) = [js ''a lake''] \<and>
   length (renders (run (capture_until_decision (js ''a lake'') @
                         capture_until_decision (js ''a boat'')) idle_companion)) \<le> 1"
proof -
  have s: "isBackgroundImageInProgress rendering_a_lake"
    "\<not> isTranscriptionInProgress rendering_a_lake"
    "captures rendering_a_lake = []" "renders rendering_a_lake = [js ''a lake'']"
    by (simp_all add: rendering_a_lake_state idle_companion_def)
  from C8_single_render_in_flight
    [of idle_companion
      "capture_until_decision (js ''a lake'') @ capture_until_decision (js ''a boat'')"
      rendering_a_lake "js ''a boat''" False] s
  show ?thesis by simp
qed


section \<open>A session from start to stop\<close>

subsection \<open>The saved wheels\<close>

text \<open>
  \<^verbatim>\<open>initializeApp\<close> builds the wheels, awaits \<^verbatim>\<open>loadPersistedWheelState\<close> and only then
  starts the preflight checks that show the wheels, start the gesture loop and enable the
  start button. The saved state is what \<^verbatim>\<open>invoke("load_wheel_state")\<close> resolved with:
  \<open>positions\<close> is \<open>None\<close> when it is not an array, an element is the number that
  \<^verbatim>\<open>Math.round\<close> receives, \<open>None\<close> when that number is not finite; \<open>activeIndex\<close> is
  \<open>None\<close> when \<^verbatim>\<open>Number.isFinite\<close> rejects it.
\<close>

record WheelPersistedState =
  positions :: "real option list option"
  activeIndex :: "real option"

datatype load_result = LoadRejected | LoadedNull | LoadedState WheelPersistedState

definition math_round :: "real \<Rightarrow> int" where
  \<comment> \<open>\<^verbatim>\<open>Math.round\<close>: the nearest integer, a tie going up\<close>
  "math_round x = \<lfloor>x + 1 / 2\<rfloor>"

definition math_trunc :: "real \<Rightarrow> int" where
  \<comment> \<open>\<^verbatim>\<open>Math.trunc\<close>\<close>
  "math_trunc x = (if 0 \<le> x then \<lfloor>x\<rfloor> else \<lceil>x\<rceil>)"

definition normalized_position :: "real option \<Rightarrow> jsnum" where
  \<comment> \<open>\<^verbatim>\<open>((Math.round(value) % CHARSET.length) + CHARSET.length) % CHARSET.length\<close>\<close>
  "normalized_position value =
     (case value of
        None \<Rightarrow> NaN
      | Some x \<Rightarrow>
          js_rem (js_add (js_rem (Num (math_round x)) CHARSET_length) CHARSET_length)
            CHARSET_length)"

definition applyPersistedWheelState ::
  "WheelPersistedState \<Rightarrow> 'a wheels_scheme \<Rightarrow> 'a wheels_scheme" where
  "applyPersistedWheelState state w =
     (case positions state of
        None \<Rightarrow> w
      | Some values \<Rightarrow>
          if int (length values) \<noteq> WHEEL_COUNT then w
          else
            (let resolvedActiveIndex =
                   (case activeIndex state of
                      Some a \<Rightarrow> math_trunc a
                    | None \<Rightarrow> activeWheelIndex w);
                 w1 = fold (\<lambda>entry v. v\<lparr> wheelPositions := (wheelPositions v)
                                         (int (snd entry) \<mapsto> normalized_position (fst entry)) \<rparr>)
                        (zip values [0..<length values]) w
             in setActiveWheel resolvedActiveIndex w1))"

definition loadPersistedWheelState :: "load_result \<Rightarrow> 'a wheels_scheme \<Rightarrow> 'a wheels_scheme" where
  "loadPersistedWheelState loaded w =
     (case loaded of
        LoadRejected \<Rightarrow> w
      | LoadedNull \<Rightarrow> setActiveWheel (activeWheelIndex w) w
      | LoadedState state \<Rightarrow> applyPersistedWheelState state w)"

subsection \<open>Starting the session\<close>

definition getCharForPosition :: "jsnum \<Rightarrow> jsstring" where
  \<comment> \<open>\<^verbatim>\<open>CHARSET[((position % CHARSET.length) + CHARSET.length) % CHARSET.length]\<close>, as
      \<^verbatim>\<open>join\<close> writes it: nothing for \<^verbatim>\<open>undefined\<close>\<close>
  "getCharForPosition position =
     (case js_rem (js_add (js_rem position CHARSET_length) CHARSET_length) CHARSET_length of
        Num i \<Rightarrow> (if 0 \<le> i \<and> i < CHARSET_length then js [CHARSET ! nat i] else [])
      | NaN \<Rightarrow> [])"

text \<open>
  \<^verbatim>\<open>getScreenNameFromWheels\<close> maps over the array. The array has exactly \<^verbatim>\<open>WHEEL_COUNT\<close>
  elements while the wheels are in range (\<open>wheels_in_range\<close>); the name is read from
  these.
\<close>

definition getScreenNameFromWheels :: "'a wheels_scheme \<Rightarrow> jsstring" where
  "getScreenNameFromWheels w =
     (let raw = concat (map (\<lambda>i. getCharForPosition (read_position w (int i)))
                          [0..<nat WHEEL_COUNT]);
          trimmed = trim raw
      in replace_space_runs trimmed)"

text \<open>
  \<^verbatim>\<open>registerAgent\<close> in two parts. The first runs from the call to the
  \<^verbatim>\<open>await invoke("register_agent")\<close>, given what \<^verbatim>\<open>ensureCapture\<close> resolved with; the
  second is the rest of the \<^verbatim>\<open>try\<close> block or the \<^verbatim>\<open>catch\<close> block, given how the
  invocation settled. Between the two the session is starting and other events arrive.
\<close>

definition registerAgent_start :: "bool \<Rightarrow> real \<Rightarrow> companion \<Rightarrow> companion" where
  "registerAgent_start captureReady now c =
     (if \<not> controlsPresent c then c
      else if \<not> permissionsGranted c then c
      else if \<not> captureReady then c
      else
        (let screenName = getScreenNameFromWheels c
         in if screenName = [] then c
            else if length screenName < 3 then c
            else setGesturesLocked True now
                   (setWheelsLocked True
                      (c\<lparr> startBtnDisabled := True, stopBtnDisabled := False \<rparr>))))"

definition registerAgent_settled :: "remote \<Rightarrow> real \<Rightarrow> companion \<Rightarrow> companion" where
  "registerAgent_settled settled now c =
     (case settled of
        Resolved \<Rightarrow> startAutoTranscriptionLoop 500 c
      | Rejected \<Rightarrow>
          (setGesturesLocked False now (setWheelsLocked False c))
            \<lparr> startBtnDisabled := False, stopBtnDisabled := True \<rparr>)"

subsection \<open>The events of a session\<close>

text \<open>
  Everything that changes the companion once it has started: a scroll or a click on one
  of the \<^verbatim>\<open>WHEEL_COUNT\<close> wheels (\<^verbatim>\<open>buildWheel\<close> attaches the listeners to these and to
  nothing else), a frame of the gesture loop, \<^verbatim>\<open>registerAgent\<close> reaching its invocation
  and that invocation settling, \<^verbatim>\<open>stopAgent\<close> with the way its invocation settles, and the
  events of the capture pipeline. A frame that fires a clap calls \<^verbatim>\<open>handleClapSubmit\<close>,
  which calls \<^verbatim>\<open>registerAgent\<close>: that call is the event \<open>StartAgent\<close>. The events arrive in
  any order, so every run of the program is a run of this model. \<^verbatim>\<open>loadPersistedWheelState\<close>
  is not among them: its only call is the one that \<^verbatim>\<open>initializeApp\<close> awaits.
\<close>

datatype session_event =
    WheelScroll int real
  | WheelClick int real real real
  | GestureFrame "HandLandmarkerResult option" real
  | StartAgent bool real
  | RegisterSettled remote real
  | StopAgent remote real
  | Pipeline event

fun session_step :: "session_event \<Rightarrow> companion \<Rightarrow> companion" where
  "session_step (WheelScroll index deltaY) c =
     (if 0 \<le> index \<and> index < WHEEL_COUNT then onWheelScroll index deltaY c else c)"
| "session_step (WheelClick index clientY rect_top rect_height) c =
     (if 0 \<le> index \<and> index < WHEEL_COUNT
      then onWheelClick index clientY rect_top rect_height c else c)"
| "session_step (GestureFrame result now) c = snd (processHandLandmarks result now c)"
| "session_step (StartAgent captureReady now) c = registerAgent_start captureReady now c"
| "session_step (RegisterSettled settled now) c = registerAgent_settled settled now c"
| "session_step (StopAgent stop_agent now) c = stopAgent stop_agent now c"
| "session_step (Pipeline e) c = step e c"

definition session_run :: "session_event list \<Rightarrow> companion \<Rightarrow> companion" where
  "session_run events c = fold session_step events c"

text \<open>
  A short session: the first three wheels are turned one step down, which spells the
  screen name \<^verbatim>\<open>@@@\<close>, and the agent is started.
\<close>

definition three_turns :: "session_event list" where
  "three_turns = [WheelScroll 0 1, WheelScroll 1 1, WheelScroll 2 1]"

definition named_and_started :: "session_event list" where
  "named_and_started = three_turns @ [StartAgent True 1000]"

subsection \<open>Properties of a session\<close>

lemma wheels_in_range_same:
  "wheelPositions c' = wheelPositions c \<Longrightarrow> activeWheelIndex c' = activeWheelIndex c \<Longrightarrow>
   wheels_in_range c' = wheels_in_range c"
  by (simp add: wheels_in_range_def read_position_def)

lemma scheduleAutoTranscription_dial [simp]:
  "wheelPositions (scheduleAutoTranscription d c) = wheelPositions c"
  "activeWheelIndex (scheduleAutoTranscription d c) = activeWheelIndex c"
  "wheelsLocked (scheduleAutoTranscription d c) = wheelsLocked c"
  "gesturesLocked (scheduleAutoTranscription d c) = gesturesLocked c"
  by (simp_all add: scheduleAutoTranscription_def clearAutoTranscriptionTimer_def)

lemma startAutoTranscriptionLoop_dial [simp]:
  "wheelPositions (startAutoTranscriptionLoop d c) = wheelPositions c"
  "activeWheelIndex (startAutoTranscriptionLoop d c) = activeWheelIndex c"
  "wheelsLocked (startAutoTranscriptionLoop d c) = wheelsLocked c"
  "gesturesLocked (startAutoTranscriptionLoop d c) = gesturesLocked c"
  by (simp_all add: startAutoTranscriptionLoop_def)

lemma stopAutoTranscriptionLoop_dial [simp]:
  "wheelPositions (stopAutoTranscriptionLoop c) = wheelPositions c"
  "activeWheelIndex (stopAutoTranscriptionLoop c) = activeWheelIndex c"
  "wheelsLocked (stopAutoTranscriptionLoop c) = wheelsLocked c"
  "gesturesLocked (stopAutoTranscriptionLoop c) = gesturesLocked c"
  by (simp_all add: stopAutoTranscriptionLoop_def clearAutoTranscriptionTimer_def)

lemma triggerTranscriptionCapture_dial [simp]:
  "wheelPositions (triggerTranscriptionCapture c) = wheelPositions c"
  "activeWheelIndex (triggerTranscriptionCapture c) = activeWheelIndex c"
  "wheelsLocked (triggerTranscriptionCapture c) = wheelsLocked c"
  "gesturesLocked (triggerTranscriptionCapture c) = gesturesLocked c"
  by (simp_all add: triggerTranscriptionCapture_def)

lemma timer_fires_dial [simp]:
  "wheelPositions (timer_fires c) = wheelPositions c"
  "activeWheelIndex (timer_fires c) = activeWheelIndex c"
  "wheelsLocked (timer_fires c) = wheelsLocked c"
  "gesturesLocked (timer_fires c) = gesturesLocked c"
  by (simp_all add: timer_fires_def Let_def split: option.splits)

lemma requestBackgroundImage_dial [simp]:
  "wheelPositions (requestBackgroundImage prompt c) = wheelPositions c"
  "activeWheelIndex (requestBackgroundImage prompt c) = activeWheelIndex c"
  "wheelsLocked (requestBackgroundImage prompt c) = wheelsLocked c"
  "gesturesLocked (requestBackgroundImage prompt c) = gesturesLocked c"
  by (simp_all add: requestBackgroundImage_def Let_def)

lemma render_settles_dial [simp]:
  "wheelPositions (render_settles n ok c) = wheelPositions c"
  "activeWheelIndex (render_settles n ok c) = activeWheelIndex c"
  "wheelsLocked (render_settles n ok c) = wheelsLocked c"
  "gesturesLocked (render_settles n ok c) = gesturesLocked c"
  by (simp_all add: render_settles_def Let_def)

lemma handleVirtualBackgroundPrompt_dial [simp]:
  "wheelPositions (handleVirtualBackgroundPrompt generated c) = wheelPositions c"
  "activeWheelIndex (handleVirtualBackgroundPrompt generated c) = activeWheelIndex c"
  "wheelsLocked (handleVirtualBackgroundPrompt generated c) = wheelsLocked c"
  "gesturesLocked (handleVirtualBackgroundPrompt generated c) = gesturesLocked c"
  by (simp_all add: handleVirtualBackgroundPrompt_def
      split: outcome.splits BackgroundPromptDecision.splits)

lemma capture_returns_early_dial [simp]:
  "wheelPositions (capture_returns_early n c) = wheelPositions c"
  "activeWheelIndex (capture_returns_early n c) = activeWheelIndex c"
  "wheelsLocked (capture_returns_early n c) = wheelsLocked c"
  "gesturesLocked (capture_returns_early n c) = gesturesLocked c"
  by (simp_all add: capture_returns_early_def Let_def)

lemma capture_finally_dial [simp]:
  "wheelPositions (capture_finally n c) = wheelPositions c"
  "activeWheelIndex (capture_finally n c) = activeWheelIndex c"
  "wheelsLocked (capture_finally n c) = wheelsLocked c"
  "gesturesLocked (capture_finally n c) = gesturesLocked c"
  by (simp_all add: capture_finally_def Let_def)

lemma capture_proceeds_dial [simp]:
  "wheelPositions (capture_proceeds n result c) = wheelPositions c"
  "activeWheelIndex (capture_proceeds n result c) = activeWheelIndex c"
  "wheelsLocked (capture_proceeds n result c) = wheelsLocked c"
  "gesturesLocked (capture_proceeds n result c) = gesturesLocked c"
  by (simp_all add: capture_proceeds_def split: stage.splits outcome.splits)

lemma step_dial:
  "wheelPositions (step e c) = wheelPositions c"
  "activeWheelIndex (step e c) = activeWheelIndex c"
  "wheelsLocked (step e c) = wheelsLocked c"
  "gesturesLocked (step e c) = gesturesLocked c"
  by (cases e; simp)+

lemma setWheelsLocked_dial [simp]:
  "wheelPositions (setWheelsLocked locked c) = wheelPositions c"
  "activeWheelIndex (setWheelsLocked locked c) = activeWheelIndex c"
  "wheelsLocked (setWheelsLocked locked c) = locked"
  "gesturesLocked (setWheelsLocked locked c) = gesturesLocked c"
  by (simp_all add: setWheelsLocked_def)

lemma setGesturesLocked_dial [simp]:
  "wheelPositions (setGesturesLocked locked now c) = wheelPositions c"
  "activeWheelIndex (setGesturesLocked locked now c) = activeWheelIndex c"
  "wheelsLocked (setGesturesLocked locked now c) = wheelsLocked c"
  "gesturesLocked (setGesturesLocked locked now c) = locked"
  by (auto simp: setGesturesLocked_def stopGestureRecognition_def setGestureStatus_def)

lemma registerAgent_start_dial:
  "wheelPositions (registerAgent_start captureReady now c) = wheelPositions c"
  "activeWheelIndex (registerAgent_start captureReady now c) = activeWheelIndex c"
  "gesturesLocked c = wheelsLocked c \<Longrightarrow>
   gesturesLocked (registerAgent_start captureReady now c) =
   wheelsLocked (registerAgent_start captureReady now c)"
  by (simp_all add: registerAgent_start_def Let_def)

lemma registerAgent_settled_dial:
  "wheelPositions (registerAgent_settled settled now c) = wheelPositions c"
  "activeWheelIndex (registerAgent_settled settled now c) = activeWheelIndex c"
  "gesturesLocked c = wheelsLocked c \<Longrightarrow>
   gesturesLocked (registerAgent_settled settled now c) =
   wheelsLocked (registerAgent_settled settled now c)"
  by (simp_all add: registerAgent_settled_def split: remote.splits)

lemma stopAgent_dial:
  "wheelPositions (stopAgent settled now c) = wheelPositions c"
  "activeWheelIndex (stopAgent settled now c) = activeWheelIndex c"
  "gesturesLocked c = wheelsLocked c \<Longrightarrow>
   gesturesLocked (stopAgent settled now c) = wheelsLocked (stopAgent settled now c)"
  by (simp_all add: stopAgent_def Let_def split: remote.splits)

lemma listeners_keep_locks:
  "wheelsLocked (onWheelScroll index deltaY c) = wheelsLocked c"
  "gesturesLocked (onWheelScroll index deltaY c) = gesturesLocked c"
  "wheelsLocked (onWheelClick index clientY rect_top rect_height c) = wheelsLocked c"
  "gesturesLocked (onWheelClick index clientY rect_top rect_height c) = gesturesLocked c"
  by (simp_all add: onWheelScroll_def onWheelClick_def adjustWheel_def setActiveWheel_def Let_def)

lemma locked_listeners_return:
  "wheelsLocked w \<Longrightarrow> onWheelScroll index deltaY w = w"
  "wheelsLocked w \<Longrightarrow> onWheelClick index clientY rect_top rect_height w = w"
  by (simp_all add: onWheelScroll_def onWheelClick_def)

lemma locked_frame_returns:
  "gesturesLocked r \<Longrightarrow> processHandLandmarks result now r = ([], r)"
  by (simp add: processHandLandmarks_def)

lemma loadPersistedWheelState_locks:
  "wheelsLocked (loadPersistedWheelState loaded c) = wheelsLocked c"
  "gesturesLocked (loadPersistedWheelState loaded c) = gesturesLocked c"
proof -
  have fold_locks:
    "wheelsLocked (fold (\<lambda>entry v. v\<lparr> wheelPositions := (wheelPositions v)
         (int (snd entry) \<mapsto> normalized_position (fst entry)) \<rparr>) entries v) = wheelsLocked v \<and>
     gesturesLocked (fold (\<lambda>entry v. v\<lparr> wheelPositions := (wheelPositions v)
         (int (snd entry) \<mapsto> normalized_position (fst entry)) \<rparr>) entries v) = gesturesLocked v"
    for entries :: "(real option \<times> nat) list" and v :: "'a recognizer_scheme"
    by (induction entries arbitrary: v) simp_all
  show "wheelsLocked (loadPersistedWheelState loaded c) = wheelsLocked c"
    by (simp add: loadPersistedWheelState_def applyPersistedWheelState_def setActiveWheel_def
        Let_def fold_locks split: load_result.splits option.splits)
  show "gesturesLocked (loadPersistedWheelState loaded c) = gesturesLocked c"
    by (simp add: loadPersistedWheelState_def applyPersistedWheelState_def setActiveWheel_def
        Let_def fold_locks split: load_result.splits option.splits)
qed

lemma session_step_locks:
  assumes "gesturesLocked c = wheelsLocked c"
  shows "gesturesLocked (session_step e c) = wheelsLocked (session_step e c)"
proof (cases e)
  case (GestureFrame result now)
  with assms processHandLandmarks_keeps [of c result now] show ?thesis
    by (simp add: keeps_dial_def)
qed (use assms in \<open>simp_all add: listeners_keep_locks registerAgent_start_dial
      registerAgent_settled_dial stopAgent_dial step_dial\<close>)

lemma session_run_locks:
  "gesturesLocked c = wheelsLocked c \<Longrightarrow>
   gesturesLocked (session_run events c) = wheelsLocked (session_run events c)"
  unfolding session_run_def
  by (induction events arbitrary: c) (simp_all add: session_step_locks)

lemma session_step_keeps_range:
  assumes "wheels_in_range c"
  shows "wheels_in_range (session_step e c)"
proof (cases e)
  case (WheelScroll index deltaY)
  with assms show ?thesis by (simp add: onWheelScroll_keeps_range)
next
  case (WheelClick index clientY rect_top rect_height)
  with assms show ?thesis by (simp add: onWheelClick_keeps_range)
next
  case (GestureFrame result now)
  with assms processHandLandmarks_keeps [of c result now] show ?thesis
    by (simp add: keeps_dial_def)
next
  case (StartAgent captureReady now)
  with assms show ?thesis
    by (simp add: wheels_in_range_same [OF registerAgent_start_dial(1,2)])
next
  case (RegisterSettled settled now)
  with assms show ?thesis
    by (simp add: wheels_in_range_same [OF registerAgent_settled_dial(1,2)])
next
  case (StopAgent settled now)
  with assms show ?thesis
    by (simp add: wheels_in_range_same [OF stopAgent_dial(1,2)])
next
  case (Pipeline event)
  with assms show ?thesis
    by (simp add: wheels_in_range_same [OF step_dial(1,2)])
qed

lemma session_run_keeps_range:
  "wheels_in_range c \<Longrightarrow> wheels_in_range (session_run events c)"
  unfolding session_run_def
  by (induction events arbitrary: c) (simp_all add: session_step_keeps_range)

lemma locked_step_keeps_wheels:
  assumes "wheelsLocked c" and "gesturesLocked c"
  shows "wheelPositions (session_step e c) = wheelPositions c \<and>
         activeWheelIndex (session_step e c) = activeWheelIndex c"
  using assms
  by (cases e)
    (simp_all add: locked_listeners_return locked_frame_returns registerAgent_start_dial
      registerAgent_settled_dial stopAgent_dial step_dial)

subsection \<open>The short session\<close>

lemma wheel_numbers:
  "[0..<nat WHEEL_COUNT] =
     [0, 1, 2, 3, 4, 5, 6, 7, 8, 9, 10, 11, 12, 13, 14, 15, 16, 17, 18, 19]"
  by (simp add: WHEEL_COUNT_def upt_rec)

lemma name_after_three_turns:
  "getScreenNameFromWheels (session_run three_turns idle_companion) = js ''@@@''"
  unfolding getScreenNameFromWheels_def wheel_numbers
  by (simp add: session_run_def three_turns_def onWheelScroll_def setActiveWheel_def
      adjustWheel_def read_position_def idle_companion_def initial_wheels_def WHEEL_COUNT_def
      CHARSET_length_40 js_rem_int_def getCharForPosition_def CHARSET_def trim_def
      is_js_space_def replace_space_runs_def js_Nil js_Cons Let_def)

lemma three_turns_fields:
  "controlsPresent (session_run three_turns idle_companion) \<and>
   permissionsGranted (session_run three_turns idle_companion) \<and>
   wheelPositions (session_run three_turns idle_companion) 0 = Some (Num 1) \<and>
   activeWheelIndex (session_run three_turns idle_companion) = 2"
  by (simp add: session_run_def three_turns_def onWheelScroll_def setActiveWheel_def
      adjustWheel_def read_position_def idle_companion_def initial_wheels_def WHEEL_COUNT_def
      CHARSET_length_40 js_rem_int_def Let_def)

lemma started_session:
  "session_run named_and_started idle_companion =
     setGesturesLocked True 1000
       (setWheelsLocked True
          ((session_run three_turns idle_companion)
             \<lparr> startBtnDisabled := True, stopBtnDisabled := False \<rparr>))"
proof -
  have "session_run named_and_started idle_companion =
      registerAgent_start True 1000 (session_run three_turns idle_companion)"
    by (simp add: session_run_def named_and_started_def)
  then show ?thesis
    by (simp add: registerAgent_start_def name_after_three_turns three_turns_fields
        js_Nil js_Cons)
qed

lemma started_session_fields:
  "wheelsLocked (session_run named_and_started idle_companion) \<and>
   gesturesLocked (session_run named_and_started idle_companion) \<and>
   wheelPositions (session_run named_and_started idle_companion) 0 = Some (Num 1) \<and>
   activeWheelIndex (session_run named_and_started idle_companion) = 2"
  by (simp add: started_session three_turns_fields)

lemma idle_companion_in_range: "wheels_in_range idle_companion"
  by (simp add: wheels_in_range_def idle_companion_def initial_wheels_def read_position_def
      CHARSET_length_40 WHEEL_COUNT_def)

subsection \<open>The lock and the range\<close>

text \<open>
  Claim C5, as stated: while \<^verbatim>\<open>wheelsLocked\<close> is true every \<^verbatim>\<open>adjustWheel\<close> and
  \<^verbatim>\<open>setActiveWheel\<close> call leaves the positions and the active index as they were.
  Neither function reads the lock. In the short session, where \<^verbatim>\<open>registerAgent\<close> has set
  the lock, \<^verbatim>\<open>adjustWheel(0, 1)\<close> moves wheel 0 from 1 to 2 and \<^verbatim>\<open>setActiveWheel(3)\<close> moves
  the active index from 2 to 3.
\<close>

theorem C5_locked_operations_still_write:
  "wheelsLocked (session_run named_and_started idle_companion) \<and>
   wheelPositions (session_run named_and_started idle_companion) 0 = Some (Num 1) \<and>
   wheelPositions (adjustWheel 0 1 (session_run named_and_started idle_companion)) 0 =
     Some (Num 2) \<and>
   activeWheelIndex (session_run named_and_started idle_companion) = 2 \<and>
   activeWheelIndex (setActiveWheel 3 (session_run named_and_started idle_companion)) = 3"
  using started_session_fields
  by (simp add: adjustWheel_def setActiveWheel_def read_position_def WHEEL_COUNT_def
      CHARSET_length_40 js_rem_int_def)

text \<open>
  Claim C5, amended: the lock is kept by the callers. \<^verbatim>\<open>registerAgent\<close> and \<^verbatim>\<open>stopAgent\<close>
  set and clear \<^verbatim>\<open>wheelsLocked\<close> and \<^verbatim>\<open>gesturesLocked\<close> together, so from a state in which
  the two locks are equal (both are false when the companion starts) every sequence of
  session events leads to a state in which they are equal. In such a state with
  \<^verbatim>\<open>wheelsLocked\<close> true no event of the session changes the positions or the active index:
  the scroll and click listeners of every wheel return before they reach
  \<^verbatim>\<open>setActiveWheel\<close> and \<^verbatim>\<open>adjustWheel\<close>, a frame of the gesture recognizer returns at once
  without a command, each leaving the whole state as it was, and the other events do not
  write to the wheels. \<^verbatim>\<open>loadPersistedWheelState\<close>, the remaining caller of
  \<^verbatim>\<open>setActiveWheel\<close>, leaves both locks as they are.
\<close>

theorem C5_locked_session_keeps_wheels:
  "(gesturesLocked c0 = wheelsLocked c0 \<longrightarrow>
      gesturesLocked (session_run events c0) = wheelsLocked (session_run events c0) \<and>
      (wheelsLocked (session_run events c0) \<longrightarrow>
         wheelPositions (session_step e (session_run events c0)) =
           wheelPositions (session_run events c0) \<and>
         activeWheelIndex (session_step e (session_run events c0)) =
           activeWheelIndex (session_run events c0) \<and>
         onWheelScroll index deltaY (session_run events c0) = session_run events c0 \<and>
         onWheelClick index clientY rect_top rect_height (session_run events c0) =
           session_run events c0 \<and>
         processHandLandmarks result now (session_run events c0) =
           ([], session_run events c0))) \<and>
   wheelsLocked (loadPersistedWheelState loaded c0) = wheelsLocked c0 \<and>
   gesturesLocked (loadPersistedWheelState loaded c0) = gesturesLocked c0"
proof -
  have "gesturesLocked (session_run events c0) = wheelsLocked (session_run events c0)"
    if "gesturesLocked c0 = wheelsLocked c0"
    using that by (rule session_run_locks)
  then show ?thesis
    by (simp add: locked_step_keeps_wheels locked_listeners_return locked_frame_returns
        loadPersistedWheelState_locks)
qed

theorem C5_locked_session_keeps_wheels_witness:
  "gesturesLocked idle_companion = wheelsLocked idle_companion \<and>
   wheelsLocked (session_run named_and_started idle_companion) \<and>
   gesturesLocked (session_run named_and_started idle_companion) \<and>
   wheelPositions (session_step (WheelScroll 4 120) (session_run named_and_started idle_companion)) =
     wheelPositions (session_run named_and_started idle_companion) \<and>
   activeWheelIndex (session_step (GestureFrame (two_hands 0.5 0.5 0.5 0.6) 3100)
       (session_run named_and_started idle_companion)) = 2 \<and>
   onWheelScroll 4 120 (session_run named_and_started idle_companion) =
     session_run named_and_started idle_companion \<and>
   onWheelClick 4 10 0 64 (session_run named_and_started idle_companion) =
     session_run named_and_started idle_companion \<and>
   processHandLandmarks (two_hands 0.5 0.5 0.5 0.6) 3100
       (session_run named_and_started idle_companion) =
     ([], session_run named_and_started idle_companion) \<and>
   \<not> wheelsLocked (loadPersistedWheelState LoadedNull idle_companion) \<and>
   \<not> gesturesLocked (loadPersistedWheelState LoadedNull idle_companion)"
proof -
  have start: "gesturesLocked idle_companion = wheelsLocked idle_companion"
    "\<not> wheelsLocked idle_companion" "\<not> gesturesLocked idle_companion"
    by (simp_all add: idle_companion_def)
  note scroll = C5_locked_session_keeps_wheels
    [of idle_companion named_and_started "WheelScroll 4 120" 4 120 10 0 64
      "two_hands 0.5 0.5 0.5 0.6" 3100 LoadedNull]
  note frame = C5_locked_session_keeps_wheels
    [of idle_companion named_and_started "GestureFrame (two_hands 0.5 0.5 0.5 0.6) 3100"
      4 120 10 0 64 "two_hands 0.5 0.5 0.5 0.6" 3100 LoadedNull]
  from scroll frame start started_session_fields show ?thesis
    by simp
qed

text \<open>
  Claim C6, amended: the range is kept by the calls that stay with the wheels. From the
  initial wheels, or from any wheels in range, every sequence of \<^verbatim>\<open>adjustWheel\<close> calls on
  a wheel \<open>0 \<le> index < 20\<close> with \<open>-40 \<le> delta < 2^52\<close> and of \<^verbatim>\<open>setActiveWheel\<close> calls with
  any integer leaves every position in \<open>[0, 40)\<close>, the array with its 20 elements and the
  active index in \<open>[0, 20)\<close>. The callers pass such arguments (the listeners the number of
  their wheel, the gesture frame the active index, either a delta of 1 or -1), so every
  sequence of session events keeps the range as well.
\<close>

theorem C6_range_kept_within_wheels:
  "wheels_in_range initial_wheels \<and>
   (wheels_in_range w \<and> list_all op_in_domain ops \<longrightarrow> wheels_in_range (run_wheel_ops ops w)) \<and>
   (wheels_in_range c \<longrightarrow> wheels_in_range (session_run events c))"
  by (simp add: initial_wheels_valid run_wheel_ops_keeps_range session_run_keeps_range)

theorem C6_range_kept_within_wheels_witness:
  "wheels_in_range initial_wheels \<and>
   list_all op_in_domain [Adjust 0 (- 40), Adjust 19 1003, SetActive (- 3), Adjust 17 (- 1)] \<and>
   wheels_in_range
     (run_wheel_ops [Adjust 0 (- 40), Adjust 19 1003, SetActive (- 3), Adjust 17 (- 1)]
        initial_wheels) \<and>
   read_position
     (run_wheel_ops [Adjust 0 (- 40), Adjust 19 1003, SetActive (- 3), Adjust 17 (- 1)]
        initial_wheels) 19 = Num 3 \<and>
   read_position
     (run_wheel_ops [Adjust 0 (- 40), Adjust 19 1003, SetActive (- 3), Adjust 17 (- 1)]
        initial_wheels) 17 = Num 39 \<and>
   activeWheelIndex
     (run_wheel_ops [Adjust 0 (- 40), Adjust 19 1003, SetActive (- 3), Adjust 17 (- 1)]
        initial_wheels) = 17 \<and>
   wheels_in_range idle_companion \<and>
   wheels_in_range (session_run named_and_started idle_companion)"
proof -
  have ops: "list_all op_in_domain [Adjust 0 (- 40), Adjust 19 1003, SetActive (- 3), Adjust 17 (- 1)]"
    by (simp add: WHEEL_COUNT_def CHARSET_length_40)
  have stored:
    "read_position
       (run_wheel_ops [Adjust 0 (- 40), Adjust 19 1003, SetActive (- 3), Adjust 17 (- 1)]
          initial_wheels) 19 = Num 3 \<and>
     read_position
       (run_wheel_ops [Adjust 0 (- 40), Adjust 19 1003, SetActive (- 3), Adjust 17 (- 1)]
          initial_wheels) 17 = Num 39 \<and>
     activeWheelIndex
       (run_wheel_ops [Adjust 0 (- 40), Adjust 19 1003, SetActive (- 3), Adjust 17 (- 1)]
          initial_wheels) = 17"
    by (simp add: run_wheel_ops_def initial_wheels_def adjustWheel_def setActiveWheel_def
        read_position_def WHEEL_COUNT_def CHARSET_length_40 js_rem_int_def)
  from C6_range_kept_within_wheels
    [of initial_wheels "[Adjust 0 (- 40), Adjust 19 1003, SetActive (- 3), Adjust 17 (- 1)]"
      idle_companion named_and_started]
    ops stored idle_companion_in_range
  show ?thesis by simp
qed
end
